(* ===== verification/Prelude.thy ===== *)
theory Prelude
  imports Complex_Main "HOL-Library.List_Lexorder" "HOL-Library.Sublist"
begin

text \<open>
  Shared vocabulary of the development: Python strings, JSON values and Python
  equality on them, the exceptions the service raises, the relational tables as
  lists of rows in rowid order (selection, conditional update, AUTOINCREMENT), and
  the generic lemmas about these that every component uses.  Two interfaces are
  stated here as locales because several components meet them: a page source that
  is walked by a keyset cursor, and a transition system with an inductive
  invariant.
\<close>

named_theorems table_simps \<open>rewriting of table reads through table writes\<close>
named_theorems inv_intros \<open>preservation of a table invariant by a table write\<close>


section \<open>Python strings and truth values\<close>

text \<open>
  A Python string is the list of its code points.  String literals of the source
  are written \<open>lit ''...''\<close>.  Python compares strings lexicographically by code
  point, and SQLite's BINARY collation compares the UTF-8 bytes, which is the same
  order; it is the order of \<open>HOL-Library.List_Lexorder\<close> on \<open>int list\<close>.
\<close>

type_synonym pystr = "int list"

definition lit :: "string \<Rightarrow> pystr" where
  "lit s = map of_char s"

lemma lit_eq_iff [simp]: "lit s = lit t \<longleftrightarrow> s = t"
  by (auto simp: lit_def inj_def intro: map_injective)

lemma lit_eq_Nil [simp]: "lit s = [] \<longleftrightarrow> s = []" "[] = lit s \<longleftrightarrow> s = []"
  by (auto simp: lit_def)

lemma lit_append: "lit (s @ t) = lit s @ lit t"
  by (simp add: lit_def)

text \<open>Truth value of an optional string (\<open>None\<close> and the empty string are false).\<close>

definition truthy :: "pystr option \<Rightarrow> bool" where
  "truthy x = (case x of None \<Rightarrow> False | Some s \<Rightarrow> s \<noteq> [])"

text \<open>Python's \<open>x or d\<close> on an optional string.\<close>

definition or_str :: "pystr option \<Rightarrow> pystr \<Rightarrow> pystr" where
  "or_str x d = (case x of None \<Rightarrow> d | Some s \<Rightarrow> if s = [] then d else s)"

lemma truthy_simps [simp]:
  "truthy None = False" "truthy (Some s) = (s \<noteq> [])"
  by (simp_all add: truthy_def)

lemma or_str_simps [simp]:
  "or_str None d = d" "or_str (Some []) d = d" "s \<noteq> [] \<Longrightarrow> or_str (Some s) d = s"
  by (simp_all add: or_str_def)

text \<open>\<open>str.strip()\<close> removes the code points \<open>str.isspace\<close> holds of.\<close>

definition is_space :: "int \<Rightarrow> bool" where
  "is_space c =
     ((9 \<le> c \<and> c \<le> 13) \<or> (28 \<le> c \<and> c \<le> 32) \<or> c = 133 \<or> c = 160 \<or> c = 5760 \<or> (8192 \<le> c \<and> c \<le> 8202) \<or>
      c = 8232 \<or> c = 8233 \<or> c = 8239 \<or> c = 8287 \<or> c = 12288)"

definition strip :: "pystr \<Rightarrow> pystr" where
  "strip s = rev (dropWhile is_space (rev (dropWhile is_space s)))"

text \<open>\<open>sep.join(parts)\<close>.\<close>

fun join_with :: "pystr \<Rightarrow> pystr list \<Rightarrow> pystr" where
  "join_with sep [] = []"
| "join_with sep [x] = x"
| "join_with sep (x # xs) = x @ sep @ join_with sep xs"

text \<open>Decimal text of an integer, \<open>str(i)\<close>.\<close>

fun dec_nat :: "nat \<Rightarrow> pystr" where
  "dec_nat n = (if n < 10 then [48 + int n] else dec_nat (n div 10) @ [48 + int (n mod 10)])"

declare dec_nat.simps [simp del]

definition dec_int :: "int \<Rightarrow> pystr" where
  "dec_int i = (if i < 0 then 45 # dec_nat (nat (- i)) else dec_nat (nat i))"

definition is_digit :: "int \<Rightarrow> bool" where
  "is_digit c = (48 \<le> c \<and> c \<le> 57)"

definition digits_value :: "pystr \<Rightarrow> int" where
  "digits_value s = fold (\<lambda>c n. 10 * n + (c - 48)) s 0"

lemma digits_value_snoc: "digits_value (s @ [c]) = 10 * digits_value s + (c - 48)"
  by (simp add: digits_value_def)

text \<open>
  \<open>int(s)\<close> of a string: surrounding white space (without the four separators 28 to 31), one
  optional sign, and decimal digits of any script with single underscores between them.  A text of
  more than 4300 digits is a \<open>ValueError\<close>, as is everything else.  \<open>DIGIT_ZEROS\<close> are the code
  points of the digits zero (Unicode 14, the tables of CPython 3.11).
\<close>

definition DIGIT_ZEROS :: "int list" where
  "DIGIT_ZEROS =
   [48, 1632, 1776, 1984, 2406, 2534, 2662, 2790, 2918, 3046, 3174, 3302, 3430, 3558, 3664, 3792, 3872,
    4160, 4240, 6112, 6160, 6470, 6608, 6784, 6800, 6992, 7088, 7232, 7248, 42528, 43216, 43264, 43472,
    43504, 43600, 44016, 65296, 66720, 68912, 69734, 69872, 69942, 70096, 70384, 70736, 70864, 71248,
    71360, 71472, 71904, 72016, 72784, 73040, 73120, 92768, 92864, 93008, 120782, 120792, 120802,
    120812, 120822, 123200, 123632, 125264, 130032]"

definition digit_val :: "int \<Rightarrow> int option" where
  "digit_val c = map_option (\<lambda>z. c - z) (find (\<lambda>z. z \<le> c \<and> c < z + 10) DIGIT_ZEROS)"

fun digit_run :: "pystr \<Rightarrow> int list option" where
  "digit_run [] = None"
| "digit_run [c] = map_option (\<lambda>d. [d]) (digit_val c)"
| "digit_run (c # u # cs) =
     (case digit_val c of
        None \<Rightarrow> None
      | Some d \<Rightarrow> map_option (\<lambda>ds. d # ds) (if u = 95 then digit_run cs else digit_run (u # cs)))"

definition int_space :: "int \<Rightarrow> bool" where
  "int_space c = (is_space c \<and> \<not> (28 \<le> c \<and> c \<le> 31))"

definition py_int :: "pystr \<Rightarrow> int option" where
  "py_int s =
     (let t = rev (dropWhile int_space (rev (dropWhile int_space s)));
          neg = (take 1 t = lit ''-'');
          body = (if take 1 t \<in> {lit ''-'', lit ''+''} then drop 1 t else t)
      in case digit_run body of
           None \<Rightarrow> None
         | Some ds \<Rightarrow>
             if 4300 < length ds then None
             else (let n = fold (\<lambda>d n. 10 * n + d) ds 0 in Some (if neg then - n else n)))"

lemma digit_val_ascii: "is_digit c \<Longrightarrow> digit_val c = Some (c - 48)"
  by (simp add: digit_val_def DIGIT_ZEROS_def is_digit_def)

lemma digit_run_ascii: "list_all is_digit s \<Longrightarrow> s \<noteq> [] \<Longrightarrow> digit_run s = Some (map (\<lambda>c. c - 48) s)"
proof (induction s rule: digit_run.induct)
  case (3 c u cs)
  then have "u \<noteq> 95" by (auto simp: is_digit_def)
  with 3 show ?case by (simp add: digit_val_ascii)
qed (simp_all add: digit_val_ascii)

lemma dec_nat_value: "digits_value (dec_nat k) = int k \<and> list_all is_digit (dec_nat k) \<and> dec_nat k \<noteq> []"
proof (induction k rule: dec_nat.induct)
  case (1 k)
  show ?case
  proof (cases "k < 10")
    case True
    then show ?thesis by (subst (1 2 3) dec_nat.simps) (simp add: digits_value_def is_digit_def)
  next
    case False
    then have "dec_nat k = dec_nat (k div 10) @ [48 + int (k mod 10)]" by (subst dec_nat.simps) simp
    moreover have "10 * int (k div 10) + int (k mod 10) = int k"
      using mult_div_mod_eq [of 10 k] by (metis of_nat_add of_nat_mult of_nat_numeral)
    moreover have "k mod 10 < 10" by simp
    ultimately show ?thesis using 1 [OF False] by (simp add: digits_value_snoc is_digit_def)
  qed
qed

lemma length_dec_nat: "k < 10 ^ Suc n \<Longrightarrow> length (dec_nat k) \<le> Suc n"
proof (induction n arbitrary: k)
  case 0
  then show ?case by (subst dec_nat.simps) simp
next
  case (Suc n)
  then show ?case by (subst dec_nat.simps) simp
qed

text \<open>\<open>int(str(k))\<close> is \<open>k\<close> as long as the text has at most 4300 digits.\<close>

lemma py_int_dec:
  assumes "length (dec_nat k) \<le> 4300"
  shows "py_int (dec_int (int k)) = Some (int k)"
proof -
  note d = dec_nat_value [of k]
  have digit: "\<not> int_space c" "c \<noteq> 45" "c \<noteq> 43" if "c \<in> set (dec_nat k)" for c
    using d that by (auto simp: list_all_iff is_digit_def int_space_def is_space_def)
  have drop: "dropWhile int_space t = t" if "set t \<subseteq> set (dec_nat k)" for t
    using that digit(1) by (cases t) auto
  have "take 1 (dec_nat k) \<notin> {lit ''-'', lit ''+''}"
    using d digit by (cases "dec_nat k") (auto simp: lit_def)
  moreover have "fold (\<lambda>d n. 10 * n + d) (map (\<lambda>c. c - 48) (dec_nat k)) 0 = int k"
    using d by (simp add: digits_value_def fold_map comp_def)
  ultimately show ?thesis
    using d assms by (simp add: py_int_def dec_int_def drop digit_run_ascii Let_def)
qed


section \<open>JSON values\<close>

text \<open>
  The values \<open>json.loads\<close> returns, without floating point numbers.  An object is
  the association list of its items in insertion order.
\<close>

datatype json =
    JNull
  | JBool bool
  | JInt int
  | JStr pystr
  | JArr "json list"
  | JObj "(pystr \<times> json) list"

text \<open>
  Python equality: \<open>True == 1\<close> and \<open>False == 0\<close>, objects are compared without
  regard to the order of their keys.
\<close>

fun py_num :: "json \<Rightarrow> int option" where
  "py_num (JBool b) = Some (if b then 1 else 0)"
| "py_num (JInt i) = Some i"
| "py_num _ = None"

fun py_eq :: "json \<Rightarrow> json \<Rightarrow> bool"
  and py_eq_list :: "json list \<Rightarrow> json list \<Rightarrow> bool"
  and py_eq_items :: "(pystr \<times> json) list \<Rightarrow> (pystr \<times> json) list \<Rightarrow> bool" where
  "py_eq (JStr s) y = (y = JStr s)"
| "py_eq JNull y = (y = JNull)"
| "py_eq (JBool b) y = (py_num y = py_num (JBool b))"
| "py_eq (JInt i) y = (py_num y = Some i)"
| "py_eq (JArr xs) y = (case y of JArr ys \<Rightarrow> py_eq_list xs ys | _ \<Rightarrow> False)"
| "py_eq (JObj xs) y =
     (case y of JObj ys \<Rightarrow> length xs = length ys \<and> py_eq_items xs ys | _ \<Rightarrow> False)"
| "py_eq_list [] ys = (ys = [])"
| "py_eq_list (x # xs) ys = (case ys of [] \<Rightarrow> False | y # ys' \<Rightarrow> py_eq x y \<and> py_eq_list xs ys')"
| "py_eq_items [] ys = True"
| "py_eq_items ((k, v) # xs) ys =
     ((case map_of ys k of None \<Rightarrow> False | Some w \<Rightarrow> py_eq v w) \<and> py_eq_items xs ys)"

text \<open>Truth value of a JSON value.\<close>

fun py_true :: "json \<Rightarrow> bool" where
  "py_true JNull = False"
| "py_true (JBool b) = b"
| "py_true (JInt i) = (i \<noteq> 0)"
| "py_true (JStr s) = (s \<noteq> [])"
| "py_true (JArr xs) = (xs \<noteq> [])"
| "py_true (JObj xs) = (xs \<noteq> [])"

text \<open>
  \<open>sort_keys=True\<close>: the value that is read back from a text written with sorted keys.
  An object whose keys are distinct keeps exactly its items.
\<close>

fun sort_keys :: "json \<Rightarrow> json"
  and sort_keys_list :: "json list \<Rightarrow> json list"
  and sort_keys_items :: "(pystr \<times> json) list \<Rightarrow> (pystr \<times> json) list" where
  "sort_keys (JArr xs) = JArr (sort_keys_list xs)"
| "sort_keys (JObj kvs) = JObj (sort_key fst (sort_keys_items kvs))"
| "sort_keys JNull = JNull"
| "sort_keys (JBool b) = JBool b"
| "sort_keys (JInt i) = JInt i"
| "sort_keys (JStr s) = JStr s"
| "sort_keys_list [] = []"
| "sort_keys_list (x # xs) = sort_keys x # sort_keys_list xs"
| "sort_keys_items [] = []"
| "sort_keys_items ((k, v) # xs) = (k, sort_keys v) # sort_keys_items xs"

lemma map_fst_sort_keys_items [simp]: "map fst (sort_keys_items kvs) = map fst kvs"
  by (induction kvs) auto


section \<open>Exceptions\<close>

text \<open>
  The exceptions the modelled code raises, with the text they carry where the code
  reads it.  \<open>IntegrityError\<close> is SQLite's report of a violated constraint.  The other
  \<open>OperationalError\<close>s the service tells apart are \<open>SQLITE_FULL\<close> and \<open>SQLITE_IOERR\<close>, the latter with
  what the probe of the database directory found: no space left (\<open>ENOSPC\<close>, \<open>EDQUOT\<close>) or not.
\<close>

datatype sql_constraint = Unique string | Foreign_Key string | Check string

datatype exn =
    ValueError string
  | KeyError pystr
  | PermissionError string
  | EventIdConflict pystr
  | IntegrityError sql_constraint
  | OverflowError
  | DatabaseFull
  | DiskIOError bool
  | OSError
  | TypeError
  | OutboxFull

type_synonym 'a res = "exn + 'a"

text \<open>SQLite integers are 64 bits wide; binding a larger one raises \<open>OverflowError\<close>.\<close>

definition fits64 :: "int \<Rightarrow> bool" where
  "fits64 i = (- (2 ^ 63) \<le> i \<and> i < 2 ^ 63)"


section \<open>Tables\<close>

text \<open>
  A table is the list of its rows in rowid order.  \<open>upd_where\<close> is
  \<open>UPDATE ... SET f WHERE P\<close>; \<open>next_id\<close> is the rowid an AUTOINCREMENT column
  hands out: larger than every rowid in use (rows are never deleted from the tables
  that use it).  SQLite may leave gaps, since an \<open>INSERT OR IGNORE\<close> or an upsert that inserts
  nothing can consume a number; the ids here are consecutive, and what is stated about
  them uses only that they increase.
\<close>

definition upd_where :: "('r \<Rightarrow> bool) \<Rightarrow> ('r \<Rightarrow> 'r) \<Rightarrow> 'r list \<Rightarrow> 'r list" where
  "upd_where P f rows = map (\<lambda>r. if P r then f r else r) rows"

definition next_id :: "('r \<Rightarrow> int) \<Rightarrow> 'r list \<Rightarrow> int" where
  "next_id f rows = 1 + fold (\<lambda>r m. max m (f r)) rows 0"

lemma fold_max_ge: "m \<le> fold (\<lambda>r m. max m (f r)) rows (m :: int)"
proof (induction rows arbitrary: m)
  case Nil
  then show ?case by simp
next
  case (Cons r rows)
  have "max m (f r) \<le> fold (\<lambda>r m. max m (f r)) rows (max m (f r))"
    by (rule Cons.IH)
  then show ?case by simp
qed

lemma fold_max_mem: "r \<in> set rows \<Longrightarrow> f r \<le> fold (\<lambda>r m. max m (f r)) rows (m :: int)"
proof (induction rows arbitrary: m)
  case Nil
  then show ?case by simp
next
  case (Cons a rows)
  show ?case
  proof (cases "r = a")
    case True
    have "max m (f a) \<le> fold (\<lambda>r m. max m (f r)) rows (max m (f a))"
      by (rule fold_max_ge)
    with True show ?thesis by simp
  next
    case False
    with Cons show ?thesis by simp
  qed
qed

lemma next_id_gt: "r \<in> set rows \<Longrightarrow> f r < next_id f rows"
  by (drule fold_max_mem [where f = f and m = 0]) (simp add: next_id_def)

lemma next_id_pos: "0 < next_id f rows"
  using fold_max_ge [of 0 f rows] by (simp add: next_id_def)

lemma next_id_notin [simp]: "next_id f rows \<notin> f ` set rows"
  by (metis imageE next_id_gt order_less_irrefl)

lemma ascending_snoc_next_id:
  "sorted_wrt (<) (map f rows) \<Longrightarrow> f r = next_id f rows \<Longrightarrow> sorted_wrt (<) (map f (rows @ [r]))"
  by (auto simp: sorted_wrt_append next_id_gt)

lemma ascending_distinct: "sorted_wrt (<) (map f rows) \<Longrightarrow> distinct (map (f :: _ \<Rightarrow> 'k :: linorder) rows)"
  by (simp add: strict_sorted_iff)

lemma upd_where_Nil [simp]: "upd_where P f [] = []"
  by (simp add: upd_where_def)

lemma length_upd_where [simp]: "length (upd_where P f rows) = length rows"
  by (simp add: upd_where_def)

lemma set_upd_where: "set (upd_where P f rows) = (\<lambda>r. if P r then f r else r) ` set rows"
  by (simp add: upd_where_def)

lemma upd_where_append [simp]: "upd_where P f (xs @ ys) = upd_where P f xs @ upd_where P f ys"
  by (simp add: upd_where_def)

lemma map_upd_where:
  "(\<And>r. r \<in> set rows \<Longrightarrow> P r \<Longrightarrow> g (f r) = g r) \<Longrightarrow> map g (upd_where P f rows) = map g rows"
  by (simp add: upd_where_def)

lemma upd_where_none: "(\<And>r. r \<in> set rows \<Longrightarrow> \<not> P r) \<Longrightarrow> upd_where P f rows = rows"
  unfolding upd_where_def by (rule map_idI) simp

lemma filter_upd_where:
  "(\<And>r. r \<in> set rows \<Longrightarrow> P r \<Longrightarrow> Q (f r) = Q r) \<Longrightarrow>
   filter Q (upd_where P f rows) = upd_where P f (filter Q rows)"
  by (induction rows) (auto simp: upd_where_def)

text \<open>Reading the unique row with a given key.\<close>

lemma find_Some_iff_unique:
  assumes "distinct (map f rows)"
  shows "find (\<lambda>r. f r = k) rows = Some r \<longleftrightarrow> r \<in> set rows \<and> f r = k"
  using assms by (induction rows) (auto simp: image_iff)

lemma filter_unique_key:
  assumes "distinct (map f rows)" "r \<in> set rows" "f r = k"
  shows "filter (\<lambda>x. f x = k) rows = [r]"
  using assms by (induction rows) (auto simp: filter_empty_conv image_iff)

lemma find_append: "find P (xs @ ys) = (case find P xs of None \<Rightarrow> find P ys | Some x \<Rightarrow> Some x)"
  by (induction xs) auto

lemma find_None: "find P rows = None \<longleftrightarrow> (\<forall>r \<in> set rows. \<not> P r)"
  by (auto simp: find_None_iff)

lemma find_SomeD: "find P rows = Some r \<Longrightarrow> r \<in> set rows \<and> P r"
  by (induction rows) (auto split: if_splits)

lemma find_upd_where:
  assumes "\<And>r. r \<in> set rows \<Longrightarrow> P r \<Longrightarrow> Q (f r) = Q r"
  shows "find Q (upd_where P f rows) = map_option (\<lambda>r. if P r then f r else r) (find Q rows)"
  using assms by (induction rows) (auto simp: upd_where_def)


section \<open>Transition systems\<close>

text \<open>
  The interface of a component whose operations are the steps of a relation: an
  inductive invariant holds in every state reached, and a preorder on states that
  every step from an invariant state respects relates any state to any later one.
\<close>

locale invariant_system =
  fixes step :: "'s \<Rightarrow> 's \<Rightarrow> bool" and inv :: "'s \<Rightarrow> bool"
  assumes step_inv: "inv s \<Longrightarrow> step s s' \<Longrightarrow> inv s'"
begin

lemma inv_steps: "step\<^sup>*\<^sup>* s s' \<Longrightarrow> inv s \<Longrightarrow> inv s'"
  by (induction rule: rtranclp_induct) (auto intro: step_inv)

lemma rel_steps:
  assumes "step\<^sup>*\<^sup>* s s'" and "inv s"
    and refl: "\<And>x. R x x" and trans: "\<And>x y z. R x y \<Longrightarrow> R y z \<Longrightarrow> R x z"
    and each: "\<And>x y. inv x \<Longrightarrow> step x y \<Longrightarrow> R x y"
  shows "R s s'"
  using assms(1)
proof (induction rule: rtranclp_induct)
  case base
  show ?case by (rule refl)
next
  case (step y z)
  have "inv y" using step.hyps(1) assms(2) by (rule inv_steps)
  then show ?case using step by (blast intro: trans each)
qed

end


section \<open>Keyset paging\<close>

text \<open>
  A page source returns, for a cursor and a page size, the next rows in key order
  behind the cursor.  \<open>keyset_scan\<close> is the loop its clients run: ask for the page
  behind the cursor, move the cursor to the last row, stop at an empty or a short
  page.  \<open>None\<close> means the fuel ran out.
\<close>

fun keyset_scan :: "nat \<Rightarrow> ('k \<Rightarrow> 'a list) \<Rightarrow> ('a \<Rightarrow> 'k) \<Rightarrow> nat \<Rightarrow> 'k \<Rightarrow> 'a list option" where
  "keyset_scan 0 page key n since = None"
| "keyset_scan (Suc fuel) page key n since =
     (let p = page since in
      if p = [] then Some []
      else if length p < n then Some p
      else map_option (\<lambda>rest. p @ rest) (keyset_scan fuel page key n (key (last p))))"

lemma filter_behind_last:
  fixes key :: "'a \<Rightarrow> 'k :: linorder"
  assumes asc: "sorted_wrt (<) (map key xs)" and n: "0 < n" "n \<le> length xs"
  shows "filter (\<lambda>r. key (last (take n xs)) < key r) xs = drop n xs"
proof -
  have take_ne: "take n xs \<noteq> []" using n by auto
  have asc': "sorted_wrt (<) (map key (take n xs) @ map key (drop n xs))"
    using asc by (simp flip: map_append)
  have "key x \<le> key (last (take n xs))" if "x \<in> set (take n xs)" for x
  proof -
    define ys y where "ys = butlast (take n xs)" and "y = last (take n xs)"
    have split: "take n xs = ys @ [y]" using take_ne by (simp add: ys_def y_def)
    have "sorted_wrt (<) (map key ys @ [key y])"
      using asc' by (simp add: split sorted_wrt_append)
    then show ?thesis using that by (auto simp: split sorted_wrt_append)
  qed
  moreover have "key (last (take n xs)) < key x" if "x \<in> set (drop n xs)" for x
    using asc' that take_ne by (auto simp: sorted_wrt_append)
  ultimately have "filter (\<lambda>r. key (last (take n xs)) < key r) (take n xs @ drop n xs) = drop n xs"
    by (subst filter_append) (auto simp: filter_empty_conv filter_id_conv not_less)
  then show ?thesis by simp
qed

locale page_source =
  fixes page :: "'s \<Rightarrow> 'k :: linorder \<Rightarrow> 'a list" and key :: "'a \<Rightarrow> 'k" and rows :: "'s \<Rightarrow> 'a list"
    and n :: nat and good :: "'s \<Rightarrow> 'k \<Rightarrow> bool"
  assumes ascending: "good s k \<Longrightarrow> sorted_wrt (<) (map key (rows s))"
    and page_size: "0 < n"
    and page_eq: "good s k \<Longrightarrow> page s k = take n (filter (\<lambda>r. k < key r) (rows s))"
    and good_key: "good s k \<Longrightarrow> r \<in> set (rows s) \<Longrightarrow> good s (key r)"
begin

lemma scan_complete:
  "good s since \<Longrightarrow> length (filter (\<lambda>r. since < key r) (rows s)) < fuel \<Longrightarrow>
   keyset_scan fuel (page s) key n since = Some (filter (\<lambda>r. since < key r) (rows s))"
proof (induction fuel arbitrary: since)
  case 0
  then show ?case by simp
next
  case (Suc fuel)
  define xs where "xs = filter (\<lambda>r. since < key r) (rows s)"
  have asc: "sorted_wrt (<) (map key xs)"
    using ascending [OF Suc.prems(1)] unfolding xs_def sorted_wrt_map by (rule sorted_wrt_filter)
  show ?case
  proof (cases "length xs < n")
    case True
    then show ?thesis using page_eq [OF Suc.prems(1)] by (simp add: xs_def [symmetric])
  next
    case False
    then have n: "n \<le> length xs" by simp
    have "take n xs \<noteq> []" using n page_size by auto
    then have "last (take n xs) \<in> set xs" by (rule in_set_takeD [OF last_in_set])
    then have good: "good s (key (last (take n xs)))" and cur: "since < key (last (take n xs))"
      using good_key [OF Suc.prems(1)] by (simp_all add: xs_def)
    have "filter (\<lambda>r. key (last (take n xs)) < key r) (rows s) =
        filter (\<lambda>r. key (last (take n xs)) < key r) xs"
      using cur by (auto simp: xs_def intro!: filter_cong)
    also have "\<dots> = drop n xs" using asc page_size n by (rule filter_behind_last)
    finally have next_page: "filter (\<lambda>r. key (last (take n xs)) < key r) (rows s) = drop n xs" .
    have "keyset_scan fuel (page s) key n (key (last (take n xs))) = Some (drop n xs)"
      using Suc.IH [of "key (last (take n xs))"] Suc.prems n page_size good
      by (simp add: next_page xs_def [symmetric])
    then show ?thesis
      using n page_size page_eq [OF Suc.prems(1)] by (auto simp: xs_def [symmetric] Let_def)
  qed
qed

end

end
