(* ===== verification/Timestamps.thy ===== *)
theory Timestamps
  imports Prelude
begin

text \<open>
  Time stamps.  Every time the ledger stores is the text \<open>now_iso()\<close> returns, and
  every expiry test of the source is a comparison of such texts: by SQLite in a
  WHERE clause, or by Python's \<open><\<close> on strings.  This theory models the part of
  \<open>datetime\<close> that \<open>now_iso\<close> uses and proves that the order of the texts is the
  order of time.

  An instant is the number of microseconds since 0001-01-01T00:00:00Z, the least
  value of \<open>datetime\<close>; \<open>iso_seconds\<close> is \<open>isoformat(timespec="seconds")\<close> with
  \<open>Z\<close> for the UTC offset, which truncates to the second.
\<close>

section \<open>The proleptic Gregorian calendar of \<open>datetime\<close>\<close>

definition is_leap :: "int \<Rightarrow> bool" where
  "is_leap y = (y mod 4 = 0 \<and> (y mod 100 \<noteq> 0 \<or> y mod 400 = 0))"

definition days_before_year :: "int \<Rightarrow> int" where
  "days_before_year y = (y - 1) * 365 + (y - 1) div 4 - (y - 1) div 100 + (y - 1) div 400"

definition days_before_month :: "bool \<Rightarrow> int \<Rightarrow> int" where
  "days_before_month leap m =
     [0, 31, 59, 90, 120, 151, 181, 212, 243, 273, 304, 334] ! nat (m - 1)
       + (if 2 < m \<and> leap then 1 else 0)"

definition days_in_month :: "bool \<Rightarrow> int \<Rightarrow> int" where
  "days_in_month leap m =
     (if m = 2 \<and> leap then 29 else [31, 28, 31, 30, 31, 30, 31, 31, 30, 31, 30, 31] ! nat (m - 1))"

text \<open>Month and day of the day \<open>n\<close> (from 0) of a year, as the interpreter computes them.\<close>

definition month_day :: "bool \<Rightarrow> int \<Rightarrow> int \<times> int" where
  "month_day leap n =
     (let month = (n + 50) div 32; preceding = days_before_month leap month
      in if preceding > n
         then (month - 1, n - (preceding - days_in_month leap (month - 1)) + 1)
         else (month, n - preceding + 1))"

definition ord2ymd :: "int \<Rightarrow> int \<times> int \<times> int" where
  "ord2ymd ordinal =
     (let n = ordinal - 1;
          n400 = n div 146097; n = n mod 146097;
          n100 = n div 36524; n = n mod 36524;
          n4 = n div 1461; n = n mod 1461;
          n1 = n div 365; n = n mod 365;
          year = n400 * 400 + 1 + n100 * 100 + n4 * 4 + n1
      in if n1 = 4 \<or> n100 = 4 then (year - 1, 12, 31)
         else (year, month_day (n1 = 3 \<and> (n4 \<noteq> 24 \<or> n100 = 3)) n))"

definition ymd2ord :: "int \<times> int \<times> int \<Rightarrow> int" where
  "ymd2ord = (\<lambda>(y, m, d). days_before_year y + days_before_month (is_leap y) m + d)"

definition valid_ymd :: "int \<times> int \<times> int \<Rightarrow> bool" where
  "valid_ymd = (\<lambda>(y, m, d). 1 \<le> m \<and> m \<le> 12 \<and> 1 \<le> d \<and> d \<le> days_in_month (is_leap y) m)"


section \<open>The text of an instant\<close>

definition digit :: "int \<Rightarrow> int" where
  "digit n = 48 + n mod 10"

definition pad2 :: "int \<Rightarrow> pystr" where
  "pad2 n = [digit (n div 10), digit n]"

definition pad4 :: "int \<Rightarrow> pystr" where
  "pad4 n = [digit (n div 1000), digit (n div 100), digit (n div 10), digit n]"

definition ymd_key :: "int \<times> int \<times> int \<Rightarrow> int list" where
  "ymd_key = (\<lambda>(y, m, d). [y, m, d])"

definition instant_key :: "int \<Rightarrow> int list" where
  "instant_key t = ymd_key (ord2ymd (t div 86400 + 1)) @
     [t mod 86400 div 3600, t mod 3600 div 60, t mod 60]"

definition iso_text :: "int list \<Rightarrow> pystr" where
  "iso_text k = pad4 (k ! 0) @ lit ''-'' @ pad2 (k ! 1) @ lit ''-'' @ pad2 (k ! 2) @ lit ''T'' @
     pad2 (k ! 3) @ lit '':'' @ pad2 (k ! 4) @ lit '':'' @ pad2 (k ! 5) @ lit ''Z''"

definition iso_seconds :: "int \<Rightarrow> pystr" where
  "iso_seconds t = iso_text (instant_key t)"

definition now_iso :: "int \<Rightarrow> pystr" where
  "now_iso us = iso_seconds (us div 1000000)"

text \<open>The instants \<open>datetime\<close> can represent: the years 1 to 9999.\<close>

definition max_instant :: int where
  "max_instant = 3652059 * 86400 * 1000000 - 1"

definition representable :: "int \<Rightarrow> bool" where
  "representable us = (0 \<le> us \<and> us \<le> max_instant)"

text \<open>
  The readings of the clock by one run of an operation: \<open>clk k\<close> is the instant at
  the \<open>k\<close>-th call of \<open>now_iso()\<close> (or of \<open>datetime.now\<close>) in the order of its text.
\<close>

type_synonym clock = "nat \<Rightarrow> int"



section \<open>The calendar is correct\<close>


lemma month_le_cases: "1 \<le> m \<Longrightarrow> m \<le> (12::int) \<Longrightarrow> m \<in> {1,2,3,4,5,6,7,8,9,10,11,12}"
  unfolding insert_iff empty_iff by presburger

lemma month_day_correct:
  assumes "month_day leap n = (m, d)" "0 \<le> n" "n < 365"
  shows "1 \<le> m \<and> m \<le> 12 \<and> 1 \<le> d \<and> d \<le> days_in_month leap m \<and> days_before_month leap m + d = n + 1"
proof -
  define q where "q = (n + 50) div 32"
  have q: "32 * q \<le> n + 50" "n + 50 < 32 * q + 32"
    unfolding q_def by simp_all
  have "q \<in> {1, 2, 3, 4, 5, 6, 7, 8, 9, 10, 11, 12}"
    using q assms(2,3) by (intro month_le_cases) simp_all
  then show ?thesis
    using assms(1) q assms(2,3) unfolding month_day_def Let_def q_def [symmetric]
    by (elim insertE emptyE) (auto simp: days_before_month_def days_in_month_def split: if_splits)
qed

lemma days_in_month_ge: "1 \<le> m \<Longrightarrow> m \<le> 12 \<Longrightarrow> 28 \<le> days_in_month leap m"
  by (drule (1) month_le_cases) (auto simp: days_in_month_def)

lemma days_in_month_le: "1 \<le> m \<Longrightarrow> m \<le> 12 \<Longrightarrow> days_in_month leap m \<le> 31"
  by (drule (1) month_le_cases) (auto simp: days_in_month_def)

lemma days_before_month_step:
  "1 \<le> m \<Longrightarrow> m < 12 \<Longrightarrow> days_before_month leap m + days_in_month leap m = days_before_month leap (m + 1)"
  using month_le_cases [of m] by (auto simp: days_in_month_def days_before_month_def)

lemma days_before_month_mono:
  assumes "1 \<le> m" "m < m'" "m' \<le> 12"
  shows "days_before_month leap m + days_in_month leap m \<le> days_before_month leap m'"
proof -
  have "days_before_month leap (m + 1) \<le> days_before_month leap m'"
  proof -
    have "m + 1 \<le> m'" using assms by simp
    then show ?thesis using assms(1,3)
    proof (induction m' rule: int_ge_induct)
      case base then show ?case by simp
    next
      case (step i)
      then show ?case
        using days_before_month_step [of i leap] days_in_month_ge [of i leap] by simp
    qed
  qed
  then show ?thesis using days_before_month_step [of m leap] assms by simp
qed

lemma div_step:
  assumes "0 < (k::int)"
  shows "y div k = (y - 1) div k + (if k dvd y then 1 else 0)"
proof -
  define q r where "q = (y - 1) div k" and "r = (y - 1) mod k"
  have y: "y = k * q + (r + 1)" and r: "0 \<le> r" "r < k"
    using assms by (simp_all add: q_def r_def)
  show ?thesis
  proof (cases "r + 1 = k")
    case True
    then have "y = k * (q + 1)" using y by (simp add: algebra_simps)
    then have "y div k = q + 1" "k dvd y" using assms by simp_all
    then show ?thesis by (simp flip: q_def)
  next
    case False
    then have small: "r + 1 < k" "0 < r + 1" using r by auto
    then have "(r + 1) div k = 0" "(r + 1) mod k = r + 1" by simp_all
    then have "y div k = q" "y mod k = r + 1"
      using assms y by simp_all
    then show ?thesis using small by (auto simp: dvd_eq_mod_eq_0 simp flip: q_def)
  qed
qed

lemma year_length:
  "days_before_year (y + 1) = days_before_year y + (if is_leap y then 366 else 365)"
proof -
  have i1: "100 dvd y \<Longrightarrow> 4 dvd y" by (rule dvd_trans [of 4 100]) simp_all
  have i2: "400 dvd y \<Longrightarrow> 100 dvd y" by (rule dvd_trans [of 100 400]) simp_all
  have leap: "is_leap y = (4 dvd y \<and> (\<not> 100 dvd y \<or> 400 dvd y))"
    by (simp only: is_leap_def mod_eq_0_iff_dvd)
  define b4 b100 b400 where "b4 = (y - 1) div 4" and "b100 = (y - 1) div 100" and "b400 = (y - 1) div 400"
  have "days_before_year (y + 1) = y * 365 + (b4 + (if 4 dvd y then 1 else 0))
      - (b100 + (if 100 dvd y then 1 else 0)) + (b400 + (if 400 dvd y then 1 else 0))"
    unfolding days_before_year_def b4_def b100_def b400_def add_diff_cancel_right'
    by (simp only: div_step [of 4 y] div_step [of 100 y] div_step [of 400 y] zero_less_numeral)
  moreover have "days_before_year y = (y - 1) * 365 + b4 - b100 + b400"
    by (simp only: days_before_year_def b4_def b100_def b400_def)
  ultimately show ?thesis
    using i1 i2 by (cases "4 dvd y"; cases "100 dvd y"; cases "400 dvd y") (simp_all only: leap, simp_all)
qed

lemma days_before_year_mono: "y \<le> y' \<Longrightarrow> days_before_year y \<le> days_before_year y'"
proof (induction y' rule: int_ge_induct)
  case base then show ?case by simp
next
  case (step i) then show ?case by (simp add: year_length)
qed

lemma day_of_year_bounds:
  assumes "valid_ymd (y, m, d)"
  shows "1 \<le> days_before_month (is_leap y) m + d"
    and "days_before_month (is_leap y) m + d \<le> (if is_leap y then 366 else 365)"
  using assms month_le_cases [of m]
  by (auto simp: valid_ymd_def days_before_month_def days_in_month_def split: if_splits)

lemma ymd2ord_mono:
  assumes a: "valid_ymd a" and b: "valid_ymd b" and le: "ymd_key a \<le> ymd_key b"
  shows "ymd2ord a \<le> ymd2ord b"
proof -
  obtain y m d where a': "a = (y, m, d)" by (cases a)
  obtain y' m' d' where b': "b = (y', m', d')" by (cases b)
  consider "y < y'" | "y = y'" "m < m'" | "y = y'" "m = m'" "d \<le> d'"
    using le by (auto simp: a' b' ymd_key_def)
  then show ?thesis
  proof cases
    case 1
    then have "days_before_year (y + 1) \<le> days_before_year y'" by (simp add: days_before_year_mono)
    then show ?thesis
      using day_of_year_bounds [OF a [unfolded a']] day_of_year_bounds [OF b [unfolded b']]
      by (simp add: a' b' ymd2ord_def year_length split: if_splits)
  next
    case 2
    then show ?thesis
      using days_before_month_mono [of m m' "is_leap y"] a b
      by (auto simp: a' b' ymd2ord_def valid_ymd_def)
  next
    case 3
    then show ?thesis by (simp add: a' b' ymd2ord_def)
  qed
qed

lemma mod_zero_top: "1 \<le> v \<Longrightarrow> v \<le> k \<Longrightarrow> v mod k = 0 \<longleftrightarrow> v = (k :: int)"
  by (cases "v = k") simp_all

text \<open>A year by its position in the 400, 100 and 4 year cycles of the calendar.\<close>

lemma cycle_year:
  assumes y: "year = n400 * 400 + 1 + n100 * 100 + n4 * 4 + n1"
    and b: "0 \<le> n100" "n100 \<le> 3" "0 \<le> n4" "n4 \<le> 24" "0 \<le> n1" "n1 \<le> 3"
  shows "days_before_year year = 146097 * n400 + 36524 * n100 + 1461 * n4 + 365 * n1"
    and "is_leap year = (n1 = 3 \<and> (n4 \<noteq> 24 \<or> n100 = 3))"
proof -
  have ys: "year - 1 = n1 + (100 * n400 + 25 * n100 + n4) * 4"
    "year - 1 = (4 * n4 + n1) + (4 * n400 + n100) * 100"
    "year - 1 = (100 * n100 + 4 * n4 + n1) + n400 * 400"
    by (simp_all add: y)
  have d: "(year - 1) div 4 = 100 * n400 + 25 * n100 + n4"
    "(year - 1) div 100 = 4 * n400 + n100" "(year - 1) div 400 = n400"
    subgoal unfolding ys(1) using b by (subst div_mult_self1) simp_all
    subgoal unfolding ys(2) using b by (subst div_mult_self1) simp_all
    subgoal unfolding ys(3) using b by (subst div_mult_self1) simp_all
    done
  then show "days_before_year year = 146097 * n400 + 36524 * n100 + 1461 * n4 + 365 * n1"
    unfolding days_before_year_def d by (simp add: y)
  have "year = (n1 + 1) + (100 * n400 + 25 * n100 + n4) * 4"
    "year = (4 * n4 + (n1 + 1)) + (4 * n400 + n100) * 100"
    "year = (100 * n100 + (4 * n4 + (n1 + 1))) + n400 * 400"
    by (simp_all add: y)
  then have m: "year mod 4 = (n1 + 1) mod 4" "year mod 100 = (4 * n4 + (n1 + 1)) mod 100"
    "year mod 400 = (100 * n100 + (4 * n4 + (n1 + 1))) mod 400"
    by (metis mod_mult_self1)+
  have top: "4 * n4 + (n1 + 1) = 100 \<longleftrightarrow> n4 = 24 \<and> n1 = 3"
    using b by presburger
  have "(n1 + 1) mod 4 = 0 \<longleftrightarrow> n1 = 3"
    using b by (subst mod_zero_top) auto
  moreover have "(4 * n4 + (n1 + 1)) mod 100 = 0 \<longleftrightarrow> n4 = 24 \<and> n1 = 3"
    unfolding top [symmetric] using b by (intro mod_zero_top) simp_all
  moreover have "n4 = 24 \<Longrightarrow> n1 = 3 \<Longrightarrow>
      (100 * n100 + (4 * n4 + (n1 + 1))) mod 400 = 0 \<longleftrightarrow> n100 = 3"
    using b by (subst mod_zero_top) auto
  ultimately show "is_leap year = (n1 = 3 \<and> (n4 \<noteq> 24 \<or> n100 = 3))"
    unfolding is_leap_def m by auto
qed

lemma ord2ymd_inverse:
  assumes "1 \<le> ordinal"
  shows "ymd2ord (ord2ymd ordinal) = ordinal \<and> valid_ymd (ord2ymd ordinal)"
proof -
  define n400 r400 where "n400 = (ordinal - 1) div 146097" and "r400 = (ordinal - 1) mod 146097"
  define n100 r100 where "n100 = r400 div 36524" and "r100 = r400 mod 36524"
  define n4 r4 where "n4 = r100 div 1461" and "r4 = r100 mod 1461"
  define n1 r1 where "n1 = r4 div 365" and "r1 = r4 mod 365"
  define year where "year = n400 * 400 + 1 + n100 * 100 + n4 * 4 + n1"
  define leap where "leap = (n1 = 3 \<and> (n4 \<noteq> 24 \<or> n100 = 3))"
  note defs = n400_def r400_def n100_def r100_def n4_def r4_def n1_def r1_def
  have eq: "ord2ymd ordinal = (if n1 = 4 \<or> n100 = 4 then (year - 1, 12, 31) else (year, month_day leap r1))"
    by (simp only: ord2ymd_def Let_def defs year_def leap_def)
  have e0: "ordinal = 146097 * n400 + r400 + 1" "0 \<le> r400" "r400 < 146097"
    by (auto simp: n400_def r400_def)
  have e1: "r400 = 36524 * n100 + r100" "0 \<le> r100" "r100 < 36524" "0 \<le> n100" "n100 \<le> 4"
    using e0 by (auto simp: n100_def r100_def)
  have e2: "r100 = 1461 * n4 + r4" "0 \<le> r4" "r4 < 1461" "0 \<le> n4" "n4 \<le> 24"
    using e1 by (auto simp: n4_def r4_def)
  have e3: "r4 = 365 * n1 + r1" "0 \<le> r1" "r1 < 365" "0 \<le> n1" "n1 \<le> 4"
    using e2 by (auto simp: n1_def r1_def)
  consider "n100 = 4" "n4 = 0" "n1 = 0" "r1 = 0" | "n1 = 4" "n100 \<le> 3" "n4 \<le> 23" "r1 = 0"
    | "n1 \<le> 3" "n100 \<le> 3"
    using e0 e1 e2 e3 by linarith
  then show ?thesis
  proof cases
    case 1
    have "is_leap (year - 1)" "days_before_year (year - 1) = ordinal - 366"
      using cycle_year [of "year - 1" n400 3 24 3] e0 e1 e2 e3 1 by (simp_all add: year_def)
    with 1 show ?thesis
      by (simp add: eq ymd2ord_def valid_ymd_def days_before_month_def days_in_month_def)
  next
    case 2
    have "is_leap (year - 1)" "days_before_year (year - 1) = ordinal - 366"
      using cycle_year [of "year - 1" n400 n100 n4 3] e0 e1 e2 e3 2 by (simp_all add: year_def)
    with 2 show ?thesis
      by (simp add: eq ymd2ord_def valid_ymd_def days_before_month_def days_in_month_def)
  next
    case 3
    obtain m d where md: "month_day leap r1 = (m, d)" by (cases "month_day leap r1")
    have "is_leap year = leap" "days_before_year year = ordinal - 1 - r1"
      using 3 cycle_year [OF year_def] e0 e1 e2 e3 by (simp_all add: leap_def)
    with 3 show ?thesis
      using e3 month_day_correct [OF md] by (simp add: eq md ymd2ord_def valid_ymd_def)
  qed
qed

lemma ord2ymd_strict_mono:
  assumes "1 \<le> a" "a < b"
  shows "ymd_key (ord2ymd a) < ymd_key (ord2ymd b)"
proof (rule ccontr)
  assume "\<not> ?thesis"
  then have "ymd_key (ord2ymd b) \<le> ymd_key (ord2ymd a)" by simp
  then have "ymd2ord (ord2ymd b) \<le> ymd2ord (ord2ymd a)"
    using ord2ymd_inverse assms by (intro ymd2ord_mono) auto
  then show False using ord2ymd_inverse [of a] ord2ymd_inverse [of b] assms by simp
qed

lemma lex_append_less:
  "length xs = length ys \<Longrightarrow>
   xs @ us < ys @ (vs :: 'a :: linorder list) \<longleftrightarrow> xs < ys \<or> (xs = ys \<and> us < vs)"
  by (induction xs ys rule: list_induct2) auto

lemma length_ymd_key [simp]: "length (ymd_key k) = 3"
  by (simp add: ymd_key_def split: prod.split)

lemma length_instant_key [simp]: "length (instant_key t) = 6"
  by (simp add: instant_key_def)

lemma div_mod_order:
  assumes "0 < (k :: int)"
  shows "m < n \<longleftrightarrow> m div k < n div k \<or> m div k = n div k \<and> m mod k < n mod k"
proof (cases "m div k = n div k")
  case True
  moreover have "m = m div k * k + m mod k" "n = n div k * k + n mod k" by simp_all
  ultimately show ?thesis by (metis add_less_cancel_left less_irrefl)
next
  case False
  then show ?thesis using zdiv_mono1 [OF _ assms, of m n] zdiv_mono1 [OF _ assms, of n m] by linarith
qed

lemma instant_key_strict_mono:
  assumes "0 \<le> s" "s < t"
  shows "instant_key s < instant_key t"
proof (cases "s div 86400 = t div 86400")
  case False
  then have "s div 86400 < t div 86400" using assms by (simp add: zdiv_mono1 order_less_le)
  moreover have "0 \<le> s div 86400" using assms by simp
  ultimately show ?thesis
    by (simp add: instant_key_def lex_append_less ord2ymd_strict_mono)
next
  case True
  define u v where "u = s mod 86400" and "v = t mod 86400"
  have uv: "u < v" using True assms div_mult_mod_eq [of s 86400] div_mult_mod_eq [of t 86400]
    unfolding u_def v_def by linarith
  have mods: "s mod 3600 = u mod 3600" "t mod 3600 = v mod 3600" "s mod 60 = u mod 60" "t mod 60 = v mod 60"
    by (simp_all add: u_def v_def mod_mod_cancel)
  have "[u div 3600, u mod 3600 div 60, u mod 60] < [v div 3600, v mod 3600 div 60, v mod 60]"
  proof (cases "u div 3600 = v div 3600")
    case False
    then show ?thesis using uv by (simp add: zdiv_mono1 order_less_le)
  next
    case h: True
    define a b where "a = u mod 3600" and "b = v mod 3600"
    have ab: "a < b" using h uv div_mult_mod_eq [of u 3600] div_mult_mod_eq [of v 3600]
      unfolding a_def b_def by linarith
    have m60: "u mod 60 = a mod 60" "v mod 60 = b mod 60"
      by (simp_all add: a_def b_def mod_mod_cancel)
    have "a div 60 < b div 60 \<or> a div 60 = b div 60 \<and> a mod 60 < b mod 60"
      using ab div_mod_order [of 60 a b] by simp
    then show ?thesis by (auto simp: h m60 a_def [symmetric] b_def [symmetric])
  qed
  then show ?thesis
    by (simp add: instant_key_def True mods lex_append_less flip: u_def v_def)
qed

lemma div_less_mult:
  assumes "0 < (k :: int)" "x < n * k"
  shows "x div k < n"
proof -
  have "x div k * k \<le> x" using assms(1) by (simp add: minus_mod_eq_div_mult [symmetric])
  then show ?thesis using assms by (meson le_less_trans mult_less_cancel_right not_less_iff_gr_or_eq)
qed

lemma div10_order:
  "(m :: int) < n \<longleftrightarrow> m div 10 < n div 10 \<or> m div 10 = n div 10 \<and> m mod 10 < n mod 10"
  by (rule div_mod_order) simp

lemma div10_eq: "(m :: int) = n \<longleftrightarrow> m div 10 = n div 10 \<and> m mod 10 = n mod 10"
  using div_mult_mod_eq [of m 10] div_mult_mod_eq [of n 10] by metis

lemma pad2_order:
  assumes "0 \<le> m" "m < 100" "0 \<le> n" "n < 100"
  shows "pad2 m < pad2 n \<longleftrightarrow> m < n" and "pad2 m = pad2 n \<longleftrightarrow> m = n"
  using assms div10_order [of m n] div10_eq [of m n] by (auto simp: pad2_def digit_def)

lemma pad4_split: "pad4 m = pad2 (m div 100) @ pad2 (m mod 100)"
proof -
  have m: "m mod 100 = 10 * (m div 10 mod 10) + m mod 10"
    using zmod_zmult2_eq [of 10 m 10] by simp
  have "m mod 100 div 10 = m div 10 mod 10" "m mod 100 mod 10 = m mod 10"
    by (simp_all add: m)
  moreover have "m div 100 div 10 = m div 1000" using zdiv_zmult2_eq [of 10 m 100] by simp
  ultimately show ?thesis by (simp only: pad4_def pad2_def digit_def append.simps mod_mod_trivial)
qed

lemma pad4_order:
  assumes "0 \<le> m" "m < 10000" "0 \<le> n" "n < 10000"
  shows "pad4 m < pad4 n \<longleftrightarrow> m < n" and "pad4 m = pad4 n \<longleftrightarrow> m = n"
proof -
  have r: "0 \<le> m div 100" "m div 100 < 100" "0 \<le> n div 100" "n div 100 < 100"
    using assms by (simp_all only: pos_imp_zdiv_nonneg_iff zero_less_numeral div_less_mult)
  have len: "length (pad2 x) = length (pad2 y)" for x y by (simp add: pad2_def)
  show "pad4 m < pad4 n \<longleftrightarrow> m < n"
    unfolding pad4_split lex_append_less [OF len] using r
    by (simp add: pad2_order div_mod_order [of 100 m n])
  have "m div 100 = n div 100 \<Longrightarrow> m mod 100 = n mod 100 \<Longrightarrow> m = n"
    by (metis div_mult_mod_eq)
  then show "pad4 m = pad4 n \<longleftrightarrow> m = n"
    unfolding pad4_split using r by (auto simp: append_eq_append_conv len pad2_order)
qed

definition key_ranges :: "int list \<Rightarrow> bool" where
  "key_ranges k = (\<exists>y m d h mi s. k = [y, m, d, h, mi, s] \<and> 0 \<le> y \<and> y < 10000 \<and>
     (\<forall>x \<in> {m, d, h, mi, s}. 0 \<le> x \<and> x < 100))"

text \<open>One field of fixed width followed by a fixed separator compares like its number.\<close>

lemma field_order:
  fixes p :: "int \<Rightarrow> pystr"
  assumes "length (p x) = length (p y)" "p x < p y \<longleftrightarrow> x < y" "p x = p y \<longleftrightarrow> x = y"
    and "us < vs \<longleftrightarrow> ks < ls"
  shows "p x @ c # us < p y @ c # vs \<longleftrightarrow> x # ks < y # (ls :: int list)"
  using assms by (auto simp: lex_append_less)

lemma pad_lengths: "length (pad2 x) = length (pad2 y)" "length (pad4 x) = length (pad4 y)"
  by (simp_all add: pad2_def pad4_def)

lemma iso_text_order:
  assumes "key_ranges k" "key_ranges l"
  shows "iso_text k < iso_text l \<longleftrightarrow> k < l"
proof -
  obtain a b c d e f where k: "k = [a, b, c, d, e, f]"
    and kr: "0 \<le> a" "a < 10000" "\<forall>x \<in> {b, c, d, e, f}. 0 \<le> x \<and> x < 100"
    using assms(1) unfolding key_ranges_def by blast
  obtain a' b' c' d' e' f' where l: "l = [a', b', c', d', e', f']"
    and lr: "0 \<le> a'" "a' < 10000" "\<forall>x \<in> {b', c', d', e', f'}. 0 \<le> x \<and> x < 100"
    using assms(2) unfolding key_ranges_def by blast
  have iso6: "iso_text [y, m, dd, h, mi, s] = pad4 y @ 45 # pad2 m @ 45 # pad2 dd @ 84 #
      pad2 h @ 58 # pad2 mi @ 58 # pad2 s @ 90 # []" for y m dd h mi s
    by (simp add: iso_text_def lit_def)
  show ?thesis
    unfolding k l iso6
    by (intro field_order pad_lengths pad2_order pad4_order) (use kr lr in simp_all)
qed

lemma ord2ymd_year:
  assumes "1 \<le> ordinal" "ordinal \<le> 3652059"
  shows "1 \<le> fst (ord2ymd ordinal) \<and> fst (ord2ymd ordinal) \<le> 9999"
proof (rule ccontr)
  assume neg: "\<not> ?thesis"
  obtain y m d where ymd: "ord2ymd ordinal = (y, m, d)" by (cases "ord2ymd ordinal")
  have inv: "days_before_year y + (days_before_month (is_leap y) m + d) = ordinal"
    and v: "valid_ymd (y, m, d)"
    using ord2ymd_inverse [OF assms(1)] ymd by (simp_all add: ymd2ord_def)
  note b = day_of_year_bounds [OF v]
  consider "y \<le> 0" | "10000 \<le> y" using neg ymd by force
  then show False
  proof cases
    case 1
    have "days_before_year (y + 1) \<le> days_before_year 1" using 1 by (intro days_before_year_mono) simp
    then have "days_before_year y + (if is_leap y then 366 else 365) \<le> 0"
      by (simp add: year_length [symmetric] days_before_year_def [of 1])
    then show False using b inv assms(1) by linarith
  next
    case 2
    then have "days_before_year 10000 \<le> days_before_year y" by (rule days_before_year_mono)
    then show False using b inv assms(2) by (simp add: days_before_year_def [of 10000])
  qed
qed

lemma instant_key_ranges:
  assumes "0 \<le> t" "t < 3652059 * 86400"
  shows "key_ranges (instant_key t)"
proof -
  obtain y m d where ymd: "ord2ymd (t div 86400 + 1) = (y, m, d)" by (cases "ord2ymd (t div 86400 + 1)")
  have "0 \<le> t div 86400" "t div 86400 < 3652059"
    using assms by (simp_all only: pos_imp_zdiv_nonneg_iff zero_less_numeral div_less_mult)
  then have o: "1 \<le> t div 86400 + 1" "t div 86400 + 1 \<le> 3652059" by linarith+
  have v: "valid_ymd (y, m, d)" and y: "1 \<le> y" "y \<le> 9999"
    using ord2ymd_inverse [OF o(1)] ord2ymd_year [OF o] ymd by simp_all
  define h mi sec where "h = t mod 86400 div 3600" and "mi = t mod 3600 div 60" and "sec = t mod 60"
  have "h < 100" "mi < 100" "sec < 100" "0 \<le> h" "0 \<le> mi" "0 \<le> sec"
    unfolding h_def mi_def sec_def
    by (rule div_less_mult div_less_mult order_less_le_trans [OF pos_mod_bound]
        pos_imp_zdiv_nonneg_iff [THEN iffD2] pos_mod_sign | simp)+
  moreover have "d \<le> 31" "1 \<le> m" "m \<le> 12" "1 \<le> d"
    using v days_in_month_le [of m "is_leap y"] by (auto simp: valid_ymd_def)
  ultimately have "0 \<le> y \<and> y < 10000 \<and> (\<forall>x \<in> {m, d, h, mi, sec}. 0 \<le> x \<and> x < 100)"
    using y by auto
  then show ?thesis
    unfolding key_ranges_def instant_key_def ymd ymd_key_def h_def mi_def sec_def by auto
qed

lemma iso_seconds_less_iff:
  assumes "0 \<le> s" "s < 3652059 * 86400" "0 \<le> t" "t < 3652059 * 86400"
  shows "iso_seconds s < iso_seconds t \<longleftrightarrow> s < t"
proof -
  have "instant_key s < instant_key t \<longleftrightarrow> s < t"
    using instant_key_strict_mono [of s t] instant_key_strict_mono [of t s] assms
    by (cases s t rule: linorder_cases) auto
  then show ?thesis
    using iso_text_order [OF instant_key_ranges [OF assms(1,2)] instant_key_ranges [OF assms(3,4)]]
    by (simp add: iso_seconds_def)
qed

lemma representable_seconds:
  assumes "representable us"
  shows "0 \<le> us div 1000000" and "us div 1000000 < 3652059 * 86400"
proof -
  show "0 \<le> us div 1000000" using assms by (simp add: representable_def pos_imp_zdiv_nonneg_iff)
  have "us div 1000000 \<le> max_instant div 1000000"
    using assms by (intro zdiv_mono1) (simp_all add: representable_def)
  then show "us div 1000000 < 3652059 * 86400" by (simp add: max_instant_def)
qed

lemma now_iso_less_iff:
  assumes "representable a" "representable b"
  shows "now_iso a < now_iso b \<longleftrightarrow> a div 1000000 < b div 1000000"
  unfolding now_iso_def by (intro iso_seconds_less_iff representable_seconds assms)

lemma now_iso_le_iff:
  assumes "representable a" "representable b"
  shows "now_iso a \<le> now_iso b \<longleftrightarrow> a div 1000000 \<le> b div 1000000"
  using now_iso_less_iff [OF assms(2,1)] by (simp add: not_less [symmetric])

end
