(* ===== verification/Digests.thy ===== *)
theory Digests
  imports Prelude "HOL-Library.Word"
begin

text \<open>
  The parts of the standard library that the ledger's identifiers are computed
  with: UTF-8, hexadecimal text, SHA-256 (\<open>hashlib.sha256\<close>, for token hashes and
  for the signature hash of a receipt), SHA-1 and name-based UUIDs
  (\<open>uuid.uuid5\<close>, for token ids and notification intents).  Bytes are integers
  from 0 to 255, as the elements of Python's \<open>bytes\<close> are.
\<close>

unbundle bit_operations_syntax

type_synonym bytes = "int list"

section \<open>UTF-8\<close>

definition utf8_char :: "int \<Rightarrow> bytes" where
  "utf8_char c =
     (if c < 128 then [c]
      else if c < 2048 then [192 + c div 64, 128 + c mod 64]
      else if c < 65536 then [224 + c div 4096, 128 + c div 64 mod 64, 128 + c mod 64]
      else [240 + c div 262144, 128 + c div 4096 mod 64, 128 + c div 64 mod 64, 128 + c mod 64])"

definition utf8 :: "pystr \<Rightarrow> bytes" where
  "utf8 s = concat (map utf8_char s)"

section \<open>Hexadecimal text\<close>

definition hex_digit :: "int \<Rightarrow> int" where
  "hex_digit n = (if n < 10 then 48 + n else 87 + n)"

definition hex_byte :: "int \<Rightarrow> pystr" where
  "hex_byte b = [hex_digit (b div 16), hex_digit (b mod 16)]"

definition hexdigest :: "bytes \<Rightarrow> pystr" where
  "hexdigest bs = concat (map hex_byte bs)"

section \<open>Message padding and blocks\<close>

type_synonym w32 = "32 word"

definition be_bytes :: "nat \<Rightarrow> int \<Rightarrow> bytes" where
  "be_bytes n x = map (\<lambda>i. x div 256 ^ (n - 1 - i) mod 256) [0..<n]"

definition be_word :: "bytes \<Rightarrow> w32" where
  "be_word bs = word_of_int (fold (\<lambda>b acc. acc * 256 + b) bs 0)"

definition md_pad :: "bytes \<Rightarrow> bytes" where
  "md_pad m = m @ 128 # replicate ((119 - length m mod 64) mod 64) 0 @ be_bytes 8 (8 * int (length m))"

fun chunks :: "nat \<Rightarrow> nat \<Rightarrow> 'a list \<Rightarrow> 'a list list" where
  "chunks 0 n xs = []"
| "chunks (Suc k) n xs = take n xs # chunks k n (drop n xs)"

definition block_words :: "bytes \<Rightarrow> w32 list" where
  "block_words b = map be_word (chunks 16 4 b)"

definition md_blocks :: "bytes \<Rightarrow> bytes list" where
  "md_blocks m = (let p = md_pad m in chunks (length p div 64) 64 p)"

definition word_bytes :: "w32 \<Rightarrow> bytes" where
  "word_bytes w = be_bytes 4 (uint w)"

section \<open>SHA-256\<close>

text \<open>The round constants and the initial state, in decimal.\<close>

definition sha256_k :: "w32 list" where
  "sha256_k = [
    1116352408, 1899447441, 3049323471, 3921009573, 961987163, 1508970993, 2453635748, 2870763221,
    3624381080, 310598401, 607225278, 1426881987, 1925078388, 2162078206, 2614888103, 3248222580,
    3835390401, 4022224774, 264347078, 604807628, 770255983, 1249150122, 1555081692, 1996064986,
    2554220882, 2821834349, 2952996808, 3210313671, 3336571891, 3584528711, 113926993, 338241895,
    666307205, 773529912, 1294757372, 1396182291, 1695183700, 1986661051, 2177026350, 2456956037,
    2730485921, 2820302411, 3259730800, 3345764771, 3516065817, 3600352804, 4094571909, 275423344,
    430227734, 506948616, 659060556, 883997877, 958139571, 1322822218, 1537002063, 1747873779,
    1955562222, 2024104815, 2227730452, 2361852424, 2428436474, 2756734187, 3204031479, 3329325298]"

definition sha256_h0 :: "w32 list" where
  "sha256_h0 = [1779033703, 3144134277, 1013904242, 2773480762,
                1359893119, 2600822924, 528734635, 1541459225]"

definition sigma0 :: "w32 \<Rightarrow> w32" where
  "sigma0 x = word_rotr 7 x XOR word_rotr 18 x XOR drop_bit 3 x"

definition sigma1 :: "w32 \<Rightarrow> w32" where
  "sigma1 x = word_rotr 17 x XOR word_rotr 19 x XOR drop_bit 10 x"

text \<open>The message schedule, newest word first.\<close>

fun sha256_schedule :: "nat \<Rightarrow> w32 list \<Rightarrow> w32 list" where
  "sha256_schedule 0 ws = ws"
| "sha256_schedule (Suc n) ws =
     sha256_schedule n ((sigma1 (ws ! 1) + ws ! 6 + sigma0 (ws ! 14) + ws ! 15) # ws)"

fun sha256_round :: "w32 list \<Rightarrow> w32 \<times> w32 \<Rightarrow> w32 list" where
  "sha256_round [a, b, c, d, e, f, g, h] (k, w) =
     (let t1 = h + (word_rotr 6 e XOR word_rotr 11 e XOR word_rotr 25 e)
                 + ((e AND f) XOR (NOT e AND g)) + k + w;
          t2 = (word_rotr 2 a XOR word_rotr 13 a XOR word_rotr 22 a)
                 + ((a AND b) XOR (a AND c) XOR (b AND c))
      in [t1 + t2, a, b, c, d + t1, e, f, g])"
| "sha256_round st _ = st"

definition sha256_block :: "w32 list \<Rightarrow> bytes \<Rightarrow> w32 list" where
  "sha256_block st b =
     map2 (+) st (foldl sha256_round st
       (zip sha256_k (rev (sha256_schedule 48 (rev (block_words b))))))"

definition sha256 :: "bytes \<Rightarrow> bytes" where
  "sha256 m = concat (map word_bytes (foldl sha256_block sha256_h0 (md_blocks m)))"

section \<open>SHA-1 and name-based UUIDs\<close>

fun sha1_schedule :: "nat \<Rightarrow> w32 list \<Rightarrow> w32 list" where
  "sha1_schedule 0 ws = ws"
| "sha1_schedule (Suc n) ws =
     sha1_schedule n (word_rotl 1 (ws ! 2 XOR ws ! 7 XOR ws ! 13 XOR ws ! 15) # ws)"

definition sha1_fk :: "nat \<Rightarrow> w32 \<Rightarrow> w32 \<Rightarrow> w32 \<Rightarrow> w32 \<times> w32" where
  "sha1_fk i b c d =
     (if i < 20 then ((b AND c) OR (NOT b AND d), 1518500249)
      else if i < 40 then (b XOR c XOR d, 1859775393)
      else if i < 60 then ((b AND c) OR (b AND d) OR (c AND d), 2400959708)
      else (b XOR c XOR d, 3395469782))"

fun sha1_round :: "w32 list \<Rightarrow> nat \<times> w32 \<Rightarrow> w32 list" where
  "sha1_round [a, b, c, d, e] (i, w) =
     (let (f, k) = sha1_fk i b c d in [word_rotl 5 a + f + e + k + w, a, word_rotl 30 b, c, d])"
| "sha1_round st _ = st"

definition sha1_block :: "w32 list \<Rightarrow> bytes \<Rightarrow> w32 list" where
  "sha1_block st b =
     map2 (+) st (foldl sha1_round st
       (zip [0..<80] (rev (sha1_schedule 64 (rev (block_words b))))))"

definition sha1 :: "bytes \<Rightarrow> bytes" where
  "sha1 m = concat (map word_bytes
     (foldl sha1_block [1732584193, 4023233417, 2562383102, 271733878, 3285377520] (md_blocks m)))"

definition namespace_url :: bytes where
  "namespace_url = [107, 167, 184, 17, 157, 173, 17, 209,
                    128, 180, 0, 192, 79, 212, 48, 200]"

definition uuid_text :: "bytes \<Rightarrow> pystr" where
  "uuid_text b = hexdigest (take 4 b) @ lit ''-'' @ hexdigest (take 2 (drop 4 b)) @ lit ''-'' @
     hexdigest (take 2 (drop 6 b)) @ lit ''-'' @ hexdigest (take 2 (drop 8 b)) @ lit ''-'' @
     hexdigest (drop 10 b)"

definition uuid5_url :: "pystr \<Rightarrow> pystr" where
  "uuid5_url name =
     (let h = take 16 (sha1 (namespace_url @ utf8 name))
      in uuid_text (h[6 := h ! 6 mod 16 + 80, 8 := h ! 8 mod 64 + 128]))"


text \<open>Two digests that the concrete runs compare.\<close>

lemma sha256_samples_differ:
  "hexdigest (sha256 (utf8 (lit ''new''))) \<noteq> hexdigest (sha256 (utf8 (lit ''tok'')))"
  by code_simp

end
