(* ===== verification/Ledger.thy ===== *)
theory Ledger
  imports Timestamps Digests
begin

text \<open>
  The ledger: the tables of \<open>schema.sql\<close> and the operations of \<open>AtalkStore\<close>
  (\<open>core.py\<close>), the SQLite implementation of the storage contract.

  A table is the list of its rows in rowid order.  Constraints of the schema
  (UNIQUE, FOREIGN KEY, CHECK) are tested where a statement can violate them, and
  the violation is the exception \<open>IntegrityError\<close>.  A text column that holds JSON
  holds the value the code reads back from it.  The connection is in autocommit
  mode (\<open>isolation_level=None\<close>): a statement outside \<open>BEGIN IMMEDIATE\<close> is
  committed at once, so an operation that fails between two such statements keeps
  the first one; an operation inside a transaction that raises restores the state
  before \<open>BEGIN\<close>.  The process lock and the write transaction serialise the
  operations, so each is one function from the ledger to a result and a ledger.

  What an operation takes from outside is its environment: the readings of the
  clock, and the random token and the random UUID it may draw.
\<close>

section \<open>Rows\<close>

record peer_row =
  p_peer_id :: pystr
  p_token_hash :: "pystr option"
  p_role :: "pystr option"
  p_platform :: "pystr option"
  p_endpoint :: "pystr option"
  p_delivery_class :: pystr
  p_ack_timeout_sec :: int
  p_created_at :: pystr
  p_revoked_at :: "pystr option"

record token_row =
  t_id :: int
  t_peer_id :: pystr
  t_token_hash :: pystr
  t_token_id :: "pystr option"
  t_device_label :: "pystr option"
  t_scope :: pystr
  t_created_at :: pystr
  t_grace_until :: "pystr option"
  t_revoked_at :: "pystr option"

record grant_row =
  g_id :: int
  g_grantor :: pystr
  g_grantee :: pystr
  g_command_type :: pystr
  g_scope_json :: "(pystr \<times> json) list"
  g_granted_at :: pystr
  g_valid_until :: "pystr option"
  g_revoked_at :: "pystr option"

record acl_row =
  l_peer_id :: pystr
  l_created_at :: pystr
  l_updated_at :: pystr

record acl_target_row =
  lt_peer_id :: pystr
  lt_target_peer :: pystr
  lt_created_at :: pystr

record event_row =
  e_id :: int
  e_event_id :: pystr
  e_source :: pystr
  e_target :: pystr
  e_type :: pystr
  e_seq :: int
  e_created_at :: pystr
  e_stored_at :: pystr
  e_payload_json :: json
  e_requires_ack :: int
  e_source_ref :: "pystr option"
  e_auth_actor :: "pystr option"

record ack_row =
  a_id :: int
  a_event_id :: pystr
  a_agent_id :: pystr
  a_ack_type :: pystr
  a_ack_at :: pystr
  a_detail_json :: json

record audit_row =
  u_id :: int
  u_ts :: pystr
  u_actor :: "pystr option"
  u_action :: pystr
  u_source_ref :: "pystr option"
  u_target :: "pystr option"
  u_event_id :: "pystr option"
  u_result :: pystr
  u_detail_json :: json

record ledger =
  peers :: "peer_row list"
  peer_tokens :: "token_row list"
  peer_grants :: "grant_row list"
  peer_target_acl :: "acl_row list"
  peer_target_acl_targets :: "acl_target_row list"
  source_counters :: "pystr \<rightharpoonup> int"
  events :: "event_row list"
  acks :: "ack_row list"
  audit_log :: "audit_row list"
  settings :: "pystr \<rightharpoonup> pystr"
  storage_metadata :: "pystr \<rightharpoonup> pystr"

text \<open>A fresh database after \<open>init_schema\<close>.\<close>

definition init_ledger :: ledger where
  "init_ledger = \<lparr>peers = [], peer_tokens = [], peer_grants = [], peer_target_acl = [],
     peer_target_acl_targets = [], source_counters = Map.empty, events = [], acks = [],
     audit_log = [], settings = [lit ''retention_days'' \<mapsto> lit ''30''],
     storage_metadata = [lit ''write_probe'' \<mapsto> lit ''initialized'']\<rparr>"

record env =
  clk :: clock
  rnd_token :: pystr
  rnd_uuid :: pystr

abbreviation now :: "env \<Rightarrow> nat \<Rightarrow> pystr" where
  "now E k \<equiv> now_iso (clk E k)"


section \<open>Module functions\<close>

definition token_hash :: "pystr \<Rightarrow> pystr" where
  "token_hash token = hexdigest (sha256 (utf8 token))"

definition compact_json :: "json \<Rightarrow> json" where
  "compact_json value = sort_keys value"

definition legacy_token_id :: "pystr \<Rightarrow> pystr \<Rightarrow> pystr" where
  "legacy_token_id peer_id digest = uuid5_url (lit ''atalk-token:'' @ peer_id @ lit '':'' @ digest)"

text \<open>The dataclass \<open>Event\<close>.\<close>

record event =
  ev_id :: int
  ev_event_id :: pystr
  ev_source :: pystr
  ev_target :: pystr
  ev_type :: pystr
  ev_seq :: int
  ev_created_at :: pystr
  ev_stored_at :: pystr
  ev_payload :: json
  ev_requires_ack :: bool
  ev_source_ref :: "pystr option"
  ev_auth_actor :: "pystr option"

definition verify_event_identity ::
    "event \<Rightarrow> pystr \<Rightarrow> pystr \<Rightarrow> pystr \<Rightarrow> event res" where
  "verify_event_identity ev source target event_type =
     (if (ev_source ev, ev_target ev, ev_type ev) \<noteq> (source, target, event_type)
      then Inl (EventIdConflict (ev_event_id ev))
      else Inr ev)"

definition row_to_event :: "event_row \<Rightarrow> event" where
  "row_to_event row = \<lparr>ev_id = e_id row, ev_event_id = e_event_id row, ev_source = e_source row,
     ev_target = e_target row, ev_type = e_type row, ev_seq = e_seq row,
     ev_created_at = e_created_at row, ev_stored_at = e_stored_at row,
     ev_payload = e_payload_json row, ev_requires_ack = (e_requires_ack row \<noteq> 0),
     ev_source_ref = e_source_ref row, ev_auth_actor = e_auth_actor row\<rparr>"

definition json_opt :: "pystr option \<Rightarrow> json" where
  "json_opt x = (case x of None \<Rightarrow> JNull | Some s \<Rightarrow> JStr s)"

definition event_to_dict :: "event \<Rightarrow> json" where
  "event_to_dict ev = JObj
    [(lit ''id'', JInt (ev_id ev)), (lit ''event_id'', JStr (ev_event_id ev)),
     (lit ''source'', JStr (ev_source ev)), (lit ''target'', JStr (ev_target ev)),
     (lit ''type'', JStr (ev_type ev)), (lit ''seq'', JInt (ev_seq ev)),
     (lit ''created_at'', JStr (ev_created_at ev)), (lit ''stored_at'', JStr (ev_stored_at ev)),
     (lit ''payload'', ev_payload ev), (lit ''requires_ack'', JBool (ev_requires_ack ev)),
     (lit ''source_ref'', json_opt (ev_source_ref ev)),
     (lit ''auth_actor'', json_opt (ev_auth_actor ev))]"

text \<open>
  \<open>str(v)\<close> for a JSON value, which the command check applies to the \<open>op\<close> member of
  a payload.  Characters of a nested string that are not ASCII are taken as printable.
\<close>

definition repr_char :: "int \<Rightarrow> int \<Rightarrow> pystr" where
  "repr_char q c =
     (if c = 92 \<or> c = q then [92, c]
      else if c = 9 then [92, 116] else if c = 10 then [92, 110]
      else if c = 13 then [92, 114]
      else if c < 32 \<or> c = 127 then [92, 120] @ hex_byte c
      else [c])"

definition repr_str :: "pystr \<Rightarrow> pystr" where
  "repr_str s = (let q = (if 39 \<in> set s \<and> 34 \<notin> set s then 34 else 39)
                 in q # concat (map (repr_char q) s) @ [q])"

fun py_repr :: "json \<Rightarrow> pystr"
  and py_repr_list :: "json list \<Rightarrow> pystr list"
  and py_repr_items :: "(pystr \<times> json) list \<Rightarrow> pystr list" where
  "py_repr JNull = lit ''None''"
| "py_repr (JBool b) = (if b then lit ''True'' else lit ''False'')"
| "py_repr (JInt i) = dec_int i"
| "py_repr (JStr s) = repr_str s"
| "py_repr (JArr xs) = lit ''['' @ join_with (lit '', '') (py_repr_list xs) @ lit '']''"
| "py_repr (JObj kvs) = lit ''{'' @ join_with (lit '', '') (py_repr_items kvs) @ lit ''}''"
| "py_repr_list [] = []"
| "py_repr_list (x # xs) = py_repr x # py_repr_list xs"
| "py_repr_items [] = []"
| "py_repr_items ((k, v) # xs) = (repr_str k @ lit '': '' @ py_repr v) # py_repr_items xs"

fun py_str :: "json \<Rightarrow> pystr" where
  "py_str (JStr s) = s"
| "py_str v = py_repr v"


section \<open>Audit, counters and reads\<close>

definition audit ::
    "pystr option \<Rightarrow> pystr \<Rightarrow> pystr option \<Rightarrow> pystr option \<Rightarrow> pystr option \<Rightarrow> pystr \<Rightarrow> json option \<Rightarrow>
     pystr \<Rightarrow> 'z ledger_scheme \<Rightarrow> 'z ledger_scheme" where
  "audit actor action source_ref target event_id result detail ts s =
     s\<lparr>audit_log := audit_log s @
        [\<lparr>u_id = next_id u_id (audit_log s), u_ts = ts, u_actor = actor, u_action = action,
          u_source_ref = source_ref, u_target = target, u_event_id = event_id, u_result = result,
          u_detail_json = compact_json (case detail of None \<Rightarrow> JObj []
             | Some d \<Rightarrow> if py_true d then d else JObj [])\<rparr>]\<rparr>"

definition next_seq :: "pystr \<Rightarrow> 'z ledger_scheme \<Rightarrow> int \<times> 'z ledger_scheme" where
  "next_seq source s =
     (let v = (case source_counters s source of None \<Rightarrow> 1 | Some last_seq \<Rightarrow> last_seq + 1)
      in (v, s\<lparr>source_counters := (source_counters s)(source \<mapsto> v)\<rparr>))"

definition get_event :: "pystr \<Rightarrow> 'z ledger_scheme \<Rightarrow> event res" where
  "get_event event_id s =
     (case find (\<lambda>r. e_event_id r = event_id) (events s) of
        None \<Rightarrow> Inl (KeyError event_id)
      | Some row \<Rightarrow> Inr (row_to_event row))"

definition get_event_by_id :: "int \<Rightarrow> 'z ledger_scheme \<Rightarrow> event res" where
  "get_event_by_id event_db_id s =
     (case find (\<lambda>r. e_id r = event_db_id) (events s) of
        None \<Rightarrow> Inl (KeyError (dec_int event_db_id))
      | Some row \<Rightarrow> Inr (row_to_event row))"

definition auth_required :: "'z ledger_scheme \<Rightarrow> bool" where
  "auth_required s = (length (peers s) \<noteq> 0)"


section \<open>Target ACLs\<close>

text \<open>
  Three autocommitted statements: the restriction row, the removal of the old
  targets, and one insertion per new target (\<open>dict.fromkeys\<close> removes duplicates and
  keeps the first occurrences).  A target that is not a peer violates the foreign
  key; the statements before it stay committed.
\<close>

definition peer_exists :: "pystr \<Rightarrow> 'z ledger_scheme \<Rightarrow> bool" where
  "peer_exists p s = (\<exists>r \<in> set (peers s). p_peer_id r = p)"

definition dict_fromkeys :: "'k list \<Rightarrow> 'k list" where
  "dict_fromkeys ks = rev (remdups (rev ks))"

fun insert_acl_targets ::
    "pystr \<Rightarrow> pystr \<Rightarrow> pystr list \<Rightarrow> 'z ledger_scheme \<Rightarrow> unit res \<times> 'z ledger_scheme" where
  "insert_acl_targets peer_id ts [] s = (Inr (), s)"
| "insert_acl_targets peer_id ts (target # rest) s =
     (if peer_exists target s
      then insert_acl_targets peer_id ts rest
        (s\<lparr>peer_target_acl_targets := peer_target_acl_targets s @
            [\<lparr>lt_peer_id = peer_id, lt_target_peer = target, lt_created_at = ts\<rparr>]\<rparr>)
      else (Inl (IntegrityError (Foreign_Key ''peer_target_acl_targets.target_peer'')), s))"

definition set_target_acl ::
    "pystr \<Rightarrow> pystr list \<Rightarrow> env \<Rightarrow> 'z ledger_scheme \<Rightarrow> unit res \<times> 'z ledger_scheme" where
  "set_target_acl peer_id allowed_targets E s =
     (let targets = dict_fromkeys allowed_targets; ts = now E 0 in
      if \<exists>r \<in> set (peer_target_acl s). l_peer_id r = peer_id
      then insert_acl_targets peer_id ts targets
        (s\<lparr>peer_target_acl :=
             upd_where (\<lambda>r. l_peer_id r = peer_id) (\<lambda>r. r\<lparr>l_updated_at := ts\<rparr>) (peer_target_acl s),
           peer_target_acl_targets :=
             filter (\<lambda>r. lt_peer_id r \<noteq> peer_id) (peer_target_acl_targets s)\<rparr>)
      else if \<not> peer_exists peer_id s
      then (Inl (IntegrityError (Foreign_Key ''peer_target_acl.peer_id'')), s)
      else insert_acl_targets peer_id ts targets
        (s\<lparr>peer_target_acl := peer_target_acl s @
             [\<lparr>l_peer_id = peer_id, l_created_at = ts, l_updated_at = ts\<rparr>],
           peer_target_acl_targets :=
             filter (\<lambda>r. lt_peer_id r \<noteq> peer_id) (peer_target_acl_targets s)\<rparr>))"

definition clear_target_acl :: "pystr \<Rightarrow> 'z ledger_scheme \<Rightarrow> 'z ledger_scheme" where
  "clear_target_acl peer_id s =
     s\<lparr>peer_target_acl_targets := filter (\<lambda>r. lt_peer_id r \<noteq> peer_id) (peer_target_acl_targets s),
       peer_target_acl := filter (\<lambda>r. l_peer_id r \<noteq> peer_id) (peer_target_acl s)\<rparr>"

record acl_listing =
  al_peer_id :: pystr
  al_mode :: pystr
  al_allowed_targets :: "pystr list"
  al_created_at :: pystr
  al_updated_at :: pystr

definition list_target_acls :: "pystr option \<Rightarrow> 'z ledger_scheme \<Rightarrow> acl_listing list" where
  "list_target_acls peer_id s =
     map (\<lambda>row. \<lparr>al_peer_id = l_peer_id row, al_mode = lit ''restricted'',
            al_allowed_targets = sort (map lt_target_peer
              (filter (\<lambda>t. lt_peer_id t = l_peer_id row) (peer_target_acl_targets s))),
            al_created_at = l_created_at row, al_updated_at = l_updated_at row\<rparr>)
       (sort_key l_peer_id
         (filter (\<lambda>r. case peer_id of None \<Rightarrow> True | Some p \<Rightarrow> l_peer_id r = p) (peer_target_acl s)))"

definition target_acl_allows :: "pystr \<Rightarrow> pystr \<Rightarrow> 'z ledger_scheme \<Rightarrow> bool" where
  "target_acl_allows source target s =
     (if \<not> (\<exists>r \<in> set (peer_target_acl s). l_peer_id r = source) then True
      else if target = lit ''*'' then False
      else (\<exists>r \<in> set (peer_target_acl_targets s). lt_peer_id r = source \<and> lt_target_peer r = target))"


section \<open>Peers and tokens\<close>

definition primary_labels :: "pystr set" where
  "primary_labels = {lit ''legacy'', lit ''primary'', lit ''rotation''}"

text \<open>\<open>device_label IS NULL OR device_label IN ('legacy','primary','rotation')\<close>\<close>

definition primary_token :: "token_row \<Rightarrow> bool" where
  "primary_token r = (case t_device_label r of None \<Rightarrow> True | Some l \<Rightarrow> l \<in> primary_labels)"

definition token_conflict :: "pystr \<Rightarrow> pystr option \<Rightarrow> token_row list \<Rightarrow> string option" where
  "token_conflict digest token_id rows =
     (if \<exists>r \<in> set rows. t_token_hash r = digest then Some ''peer_tokens.token_hash''
      else if token_id \<noteq> None \<and> (\<exists>r \<in> set rows. t_token_id r = token_id) then Some ''peer_tokens.token_id''
      else None)"

definition new_token_row ::
    "pystr \<Rightarrow> pystr \<Rightarrow> pystr option \<Rightarrow> pystr option \<Rightarrow> pystr \<Rightarrow> pystr \<Rightarrow> token_row list \<Rightarrow> token_row" where
  "new_token_row peer_id digest token_id device_label scope ts rows =
     \<lparr>t_id = next_id t_id rows, t_peer_id = peer_id, t_token_hash = digest, t_token_id = token_id,
      t_device_label = device_label, t_scope = scope, t_created_at = ts, t_grace_until = None,
      t_revoked_at = None\<rparr>"

definition add_peer ::
    "pystr \<Rightarrow> pystr option \<Rightarrow> pystr option \<Rightarrow> pystr option \<Rightarrow> pystr option \<Rightarrow> pystr \<Rightarrow> int \<Rightarrow>
     env \<Rightarrow> 'z ledger_scheme \<Rightarrow> pystr res \<times> 'z ledger_scheme" where
  "add_peer peer_id token role platform endpoint delivery_class ack_timeout_sec E s =
     (let tok = (case token of None \<Rightarrow> rnd_token E | Some t \<Rightarrow> t);
          digest = token_hash tok
      in if \<not> fits64 ack_timeout_sec then (Inl OverflowError, s) else
      let s1 = (if peer_exists peer_id s
                then s\<lparr>peers := upd_where (\<lambda>r. p_peer_id r = peer_id)
                       (\<lambda>r. r\<lparr>p_token_hash := Some digest, p_role := role, p_platform := platform,
                              p_endpoint := endpoint, p_delivery_class := delivery_class,
                              p_ack_timeout_sec := ack_timeout_sec, p_revoked_at := None\<rparr>) (peers s)\<rparr>
                else s\<lparr>peers := peers s @
                       [\<lparr>p_peer_id = peer_id, p_token_hash = Some digest, p_role = role,
                         p_platform = platform, p_endpoint = endpoint,
                         p_delivery_class = delivery_class, p_ack_timeout_sec = ack_timeout_sec,
                         p_created_at = now E 0, p_revoked_at = None\<rparr>]\<rparr>);
          s2 = (case token_conflict digest (Some (rnd_uuid E)) (peer_tokens s1) of
                  Some _ \<Rightarrow> s1
                | None \<Rightarrow> s1\<lparr>peer_tokens := peer_tokens s1 @
                    [new_token_row peer_id digest (Some (rnd_uuid E)) (Some (lit ''primary''))
                       (lit ''full'') (now E 1) (peer_tokens s1)]\<rparr>);
          s3 = s2\<lparr>peer_tokens := upd_where
                 (\<lambda>r. t_peer_id r = peer_id \<and> t_token_hash r \<noteq> digest \<and> t_revoked_at r = None \<and>
                      primary_token r)
                 (\<lambda>r. r\<lparr>t_revoked_at := Some (now E 2)\<rparr>) (peer_tokens s2)\<rparr>
      in (Inr tok, s3))"

text \<open>
  Rotation: the still-valid primary tokens of the peer get a grace period, the new
  token is inserted, and the peer row points at it.  The grace text is computed
  first; a date beyond year 9999 raises before any statement.
\<close>

definition rotate_peer_token ::
    "pystr \<Rightarrow> pystr option \<Rightarrow> int \<Rightarrow> env \<Rightarrow> 'z ledger_scheme \<Rightarrow> pystr res \<times> 'z ledger_scheme" where
  "rotate_peer_token peer_id token grace_seconds E s =
     (let tok = or_str token (rnd_token E);
          digest = token_hash tok;
          grace_at = clk E 0 + max 0 grace_seconds * 1000000
      in if \<not> representable grace_at then (Inl OverflowError, s) else
      let s1 = s\<lparr>peer_tokens := upd_where
                 (\<lambda>r. t_peer_id r = peer_id \<and> t_revoked_at r = None \<and> primary_token r \<and>
                      (case t_grace_until r of None \<Rightarrow> True | Some g \<Rightarrow> now E 1 \<le> g))
                 (\<lambda>r. r\<lparr>t_grace_until := Some (now_iso grace_at)\<rparr>) (peer_tokens s)\<rparr>
      in case token_conflict digest (Some (rnd_uuid E)) (peer_tokens s1) of
           Some c \<Rightarrow> (Inl (IntegrityError (Unique c)), s1)
         | None \<Rightarrow>
             if \<not> peer_exists peer_id s1
             then (Inl (IntegrityError (Foreign_Key ''peer_tokens.peer_id'')), s1)
             else
             (Inr tok,
              s1\<lparr>peer_tokens := peer_tokens s1 @
                   [new_token_row peer_id digest (Some (rnd_uuid E)) (Some (lit ''rotation''))
                      (lit ''full'') (now E 2) (peer_tokens s1)],
                 peers := upd_where (\<lambda>r. p_peer_id r = peer_id)
                   (\<lambda>r. r\<lparr>p_token_hash := Some digest\<rparr>) (peers s1)\<rparr>))"

text \<open>
  A token row accepts a token at a time when it is not revoked, its grace period
  has not ended, and the hashes agree (\<open>compare_digest\<close> is equality).
\<close>

definition token_live :: "pystr \<Rightarrow> token_row \<Rightarrow> bool" where
  "token_live ts r = (\<not> truthy (t_revoked_at r) \<and>
     (case t_grace_until r of None \<Rightarrow> True | Some g \<Rightarrow> g = [] \<or> ts \<le> g))"

definition token_scope :: "pystr \<Rightarrow> pystr option \<Rightarrow> pystr \<Rightarrow> 'z ledger_scheme \<Rightarrow> pystr option" where
  "token_scope peer_id token ts s =
     (case token of
        None \<Rightarrow> None
      | Some tok \<Rightarrow>
          if tok = [] then None
          else map_option (\<lambda>r. or_str (Some (t_scope r)) (lit ''full''))
            (find (\<lambda>r. t_peer_id r = peer_id \<and> token_live ts r \<and> t_token_hash r = token_hash tok)
              (peer_tokens s)))"

definition validate_token :: "pystr \<Rightarrow> pystr option \<Rightarrow> pystr \<Rightarrow> 'z ledger_scheme \<Rightarrow> bool" where
  "validate_token peer_id token ts s = (token_scope peer_id token ts s \<noteq> None)"

record device_token_result =
  dr_peer_id :: pystr
  dr_token_id :: pystr
  dr_device_label :: pystr
  dr_scope :: pystr
  dr_token :: pystr

definition add_device_token ::
    "pystr \<Rightarrow> pystr \<Rightarrow> pystr option \<Rightarrow> pystr \<Rightarrow> pystr \<Rightarrow> env \<Rightarrow> 'z ledger_scheme \<Rightarrow>
     device_token_result res \<times> 'z ledger_scheme" where
  "add_device_token peer_id device_label token scope actor E s =
     (if device_label \<in> primary_labels then (Inl (ValueError ''device_label is reserved''), s)
      else if scope \<notin> {lit ''full'', lit ''notify''}
      then (Inl (ValueError ''scope must be full or notify''), s)
      else if \<not> (\<exists>r \<in> set (peers s). p_peer_id r = peer_id \<and> p_revoked_at r = None)
      then (Inl (KeyError peer_id), s)
      else
      let tok = or_str token (rnd_token E); token_id = rnd_uuid E; ts = now E 0 in
      case token_conflict (token_hash tok) (Some token_id) (peer_tokens s) of
        Some c \<Rightarrow> (Inl (IntegrityError (Unique c)), s)
      | None \<Rightarrow>
          (Inr \<lparr>dr_peer_id = peer_id, dr_token_id = token_id, dr_device_label = device_label,
                dr_scope = scope, dr_token = tok\<rparr>,
           audit (Some actor) (lit ''device_token_add'') None (Some peer_id) None (lit ''accepted'')
             (Some (JObj [(lit ''token_id'', JStr token_id), (lit ''device_label'', JStr device_label),
                          (lit ''scope'', JStr scope)])) ts
             (s\<lparr>peer_tokens := peer_tokens s @
                 [new_token_row peer_id (token_hash tok) (Some token_id) (Some device_label)
                    scope ts (peer_tokens s)]\<rparr>)))"

record device_token_listing =
  dl_token_id :: "pystr option"
  dl_peer_id :: pystr
  dl_device_label :: "pystr option"
  dl_scope :: pystr
  dl_created_at :: pystr
  dl_grace_until :: "pystr option"
  dl_revoked_at :: "pystr option"

definition list_device_tokens :: "pystr \<Rightarrow> 'z ledger_scheme \<Rightarrow> device_token_listing list" where
  "list_device_tokens peer_id s =
     map (\<lambda>r. \<lparr>dl_token_id = t_token_id r, dl_peer_id = t_peer_id r,
            dl_device_label = t_device_label r, dl_scope = t_scope r,
            dl_created_at = t_created_at r, dl_grace_until = t_grace_until r,
            dl_revoked_at = t_revoked_at r\<rparr>)
       (sort_key t_id (filter (\<lambda>r. t_peer_id r = peer_id) (peer_tokens s)))"

record revoke_result =
  rr_token_id :: pystr
  rr_peer_id :: pystr
  rr_revoked :: bool
  rr_result :: pystr

definition revoke_device_token ::
    "pystr \<Rightarrow> pystr \<Rightarrow> env \<Rightarrow> 'z ledger_scheme \<Rightarrow> revoke_result res \<times> 'z ledger_scheme" where
  "revoke_device_token token_id actor E s =
     (case find (\<lambda>r. t_token_id r = Some token_id) (peer_tokens s) of
        None \<Rightarrow> (Inl (KeyError token_id), s)
      | Some row \<Rightarrow>
          let ts = now E 0;
              result = (if truthy (t_revoked_at row) then lit ''already_revoked'' else lit ''accepted'');
              s1 = (if truthy (t_revoked_at row) then s
                    else s\<lparr>peer_tokens := upd_where (\<lambda>r. t_token_id r = Some token_id)
                             (\<lambda>r. r\<lparr>t_revoked_at := Some ts\<rparr>) (peer_tokens s)\<rparr>)
          in (Inr \<lparr>rr_token_id = token_id, rr_peer_id = t_peer_id row, rr_revoked = True,
                   rr_result = result\<rparr>,
              audit (Some actor) (lit ''device_token_revoke'') None (Some (t_peer_id row)) None result
                (Some (JObj [(lit ''token_id'', JStr token_id),
                             (lit ''device_label'', json_opt (t_device_label row)),
                             (lit ''scope'', JStr (t_scope row))])) ts s1))"


section \<open>Command grants\<close>

definition add_grant ::
    "pystr \<Rightarrow> pystr \<Rightarrow> pystr \<Rightarrow> (pystr \<times> json) list option \<Rightarrow> pystr option \<Rightarrow> env \<Rightarrow>
     'z ledger_scheme \<Rightarrow> int res \<times> 'z ledger_scheme" where
  "add_grant grantor grantee command_type scope valid_until E s =
     (if \<not> peer_exists grantor s then (Inl (IntegrityError (Foreign_Key ''peer_grants.grantor'')), s)
      else if \<not> peer_exists grantee s then (Inl (IntegrityError (Foreign_Key ''peer_grants.grantee'')), s)
      else let i = next_id g_id (peer_grants s) in
      (Inr i,
       s\<lparr>peer_grants := peer_grants s @
         [\<lparr>g_id = i, g_grantor = grantor, g_grantee = grantee, g_command_type = command_type,
           g_scope_json = sort_key fst (sort_keys_items (case scope of None \<Rightarrow> [] | Some kvs \<Rightarrow> kvs)),
           g_granted_at = now E 0, g_valid_until = valid_until, g_revoked_at = None\<rparr>]\<rparr>))"

definition revoke_grant :: "int \<Rightarrow> env \<Rightarrow> 'z ledger_scheme \<Rightarrow> unit res \<times> 'z ledger_scheme" where
  "revoke_grant grant_id E s =
     (if \<not> fits64 grant_id then (Inl OverflowError, s)
      else (Inr (), s\<lparr>peer_grants := upd_where (\<lambda>r. g_id r = grant_id)
                        (\<lambda>r. r\<lparr>g_revoked_at := Some (now E 0)\<rparr>) (peer_grants s)\<rparr>))"

text \<open>\<open>payload.get(key)\<close> on the items of a JSON object.\<close>

definition obj_get :: "(pystr \<times> json) list \<Rightarrow> pystr \<Rightarrow> json" where
  "obj_get kvs key = (case map_of kvs key of None \<Rightarrow> JNull | Some v \<Rightarrow> v)"

definition command_op :: "(pystr \<times> json) list \<Rightarrow> pystr" where
  "command_op payload =
     strip (py_str (case map_of payload (lit ''op'') of None \<Rightarrow> JStr [] | Some v \<Rightarrow> v))"

definition scope_matches :: "(pystr \<times> json) list \<Rightarrow> (pystr \<times> json) list \<Rightarrow> bool" where
  "scope_matches payload scope = (\<forall>(key, value) \<in> set scope. py_eq (obj_get payload key) value)"

definition command_allowed ::
    "pystr \<Rightarrow> pystr \<Rightarrow> (pystr \<times> json) list \<Rightarrow> pystr \<Rightarrow> 'z ledger_scheme \<Rightarrow> bool" where
  "command_allowed source target payload ts s =
     (let command_type = command_op payload in
      if command_type = [] then False
      else (\<exists>r \<in> set (peer_grants s).
              g_grantor r = target \<and> g_grantee r = source \<and>
              (g_command_type r = command_type \<or> g_command_type r = lit ''*'') \<and>
              g_revoked_at r = None \<and>
              (case g_valid_until r of None \<Rightarrow> True | Some v \<Rightarrow> ts \<le> v) \<and>
              scope_matches payload (g_scope_json r)))"


section \<open>Events\<close>

text \<open>
  \<open>insert_event\<close>.  The transaction starts with the probe for the event id and ends
  with the read of the stored row; a rejection inside it rolls back and then, for a
  command, appends an audit row of its own.  The rowid is the reader's cursor, so the end of
  the 64-bit range (\<open>SQLITE_FULL\<close>) is modelled for this table.  The clock readings are: 0 for
  \<open>created_at\<close>, 1 and 2 for the token and grant checks, 3 for \<open>stored_at\<close>, 4 for the
  audit row.
\<close>

definition event_conflict :: "pystr \<Rightarrow> pystr \<Rightarrow> int \<Rightarrow> event_row list \<Rightarrow> string option" where
  "event_conflict event_id source seq rows =
     (if \<exists>r \<in> set rows. e_event_id r = event_id then Some ''events.event_id''
      else if \<exists>r \<in> set rows. e_source r = source \<and> e_seq r = seq
      then Some ''events.source, events.seq''
      else None)"

definition raise_counter :: "pystr \<Rightarrow> int \<Rightarrow> 'z ledger_scheme \<Rightarrow> 'z ledger_scheme" where
  "raise_counter source seq s =
     s\<lparr>source_counters := (source_counters s)(source \<mapsto>
         (case source_counters s source of None \<Rightarrow> seq | Some last_seq \<Rightarrow> max last_seq seq))\<rparr>"

text \<open>\<open>seq if seq is not None else self.next_seq(source)\<close>\<close>

definition alloc_seq :: "pystr \<Rightarrow> int option \<Rightarrow> 'z ledger_scheme \<Rightarrow> int \<times> 'z ledger_scheme" where
  "alloc_seq source seq s = (case seq of Some n \<Rightarrow> (n, s) | None \<Rightarrow> next_seq source s)"

definition store_event ::
    "pystr \<Rightarrow> pystr \<Rightarrow> pystr \<Rightarrow> (pystr \<times> json) list \<Rightarrow> int option \<Rightarrow> pystr \<Rightarrow> pystr \<Rightarrow> bool \<Rightarrow>
     pystr option \<Rightarrow> pystr option \<Rightarrow> env \<Rightarrow> 'z ledger_scheme \<Rightarrow> event res \<times> 'z ledger_scheme" where
  "store_event source target event_type payload seq event_id created_at requires_ack source_ref
     auth_actor E s =
     (let (seq_val, s1) = alloc_seq source seq s
      in if \<not> fits64 seq_val then (Inl OverflowError, s)
      else if \<not> fits64 (next_id e_id (events s1)) then (Inl DatabaseFull, s) else
      case event_conflict event_id source seq_val (events s1) of
        Some c \<Rightarrow>
          (if c = ''events.event_id''
           then ((case get_event event_id s of Inl e \<Rightarrow> Inl e
                  | Inr ev \<Rightarrow> verify_event_identity ev source target event_type), s)
           else (Inl (IntegrityError (Unique c)), s))
      | None \<Rightarrow>
          let new_id = next_id e_id (events s1);
              s2 = s1\<lparr>events := events s1 @
                    [\<lparr>e_id = new_id, e_event_id = event_id, e_source = source, e_target = target,
                      e_type = event_type, e_seq = seq_val, e_created_at = created_at,
                      e_stored_at = now E 3, e_payload_json = compact_json (JObj payload),
                      e_requires_ack = (if requires_ack then 1 else 0), e_source_ref = source_ref,
                      e_auth_actor = auth_actor\<rparr>]\<rparr>;
              s3 = raise_counter source seq_val s2;
              s4 = (if event_type = lit ''command''
                    then audit (Some source) (lit ''command_accept'') source_ref (Some target)
                           (Some event_id) (lit ''accepted'') None (now E 4) s3
                    else s3)
          in (get_event_by_id new_id s4, s4))"

definition insert_event ::
    "pystr \<Rightarrow> pystr \<Rightarrow> pystr \<Rightarrow> json option \<Rightarrow> int option \<Rightarrow> pystr option \<Rightarrow> pystr option \<Rightarrow>
     bool \<Rightarrow> pystr option \<Rightarrow> pystr option \<Rightarrow> env \<Rightarrow> 'z ledger_scheme \<Rightarrow>
     event res \<times> 'z ledger_scheme" where
  "insert_event source target event_type payload seq event_id created_at requires_ack source_ref
     token E s =
     (case (case payload of None \<Rightarrow> JObj [] | Some v \<Rightarrow> if py_true v then v else JObj []) of
        JObj kvs \<Rightarrow>
          let eid = or_str event_id (rnd_uuid E);
              created = or_str created_at (now E 0);
              reject = (\<lambda>reason msg. (Inl (PermissionError msg),
                 audit (Some source) (lit ''command_reject'') source_ref (Some target) (Some eid)
                   (lit reason) None (now E 4) s))
          in
          if event_type = lit ''command'' \<and> \<not> truthy source_ref
          then reject ''missing_source_ref'' ''command requires source_ref''
          else (case find (\<lambda>r. e_event_id r = eid) (events s) of
            Some row \<Rightarrow>
              ((case get_event_by_id (e_id row) s of Inl e \<Rightarrow> Inl e
                | Inr ev \<Rightarrow> verify_event_identity ev source target event_type), s)
          | None \<Rightarrow>
              if event_type = lit ''command'' then
                if \<not> validate_token source token (now E 1) s
                then reject ''invalid_token'' ''command token rejected''
                else if \<not> command_allowed source target kvs (now E 2) s
                then reject ''grant_denied'' ''command grant rejected''
                else store_event source target event_type kvs seq eid created requires_ack source_ref
                       (Some source) E s
              else if \<not> target_acl_allows source target s
              then (Inl (PermissionError ''target not allowed''), s)
              else store_event source target event_type kvs seq eid created requires_ack source_ref
                     None E s)
      | _ \<Rightarrow> (Inl (ValueError ''payload must be an object''), s))"


section \<open>Reading the inbox, acknowledgements\<close>

definition applied_by :: "pystr \<Rightarrow> pystr \<Rightarrow> 'z ledger_scheme \<Rightarrow> bool" where
  "applied_by agent event_id s =
     (\<exists>a \<in> set (acks s). a_event_id a = event_id \<and> a_agent_id a = agent \<and>
        a_ack_type a = lit ''applied'')"

definition addressed_to :: "pystr \<Rightarrow> event_row \<Rightarrow> bool" where
  "addressed_to target r = (e_target r = target \<or> e_target r = lit ''*'')"

definition page_limit :: "int \<Rightarrow> nat" where
  "page_limit limit = nat (max 1 (min limit 500))"

definition list_events ::
    "pystr option \<Rightarrow> int \<Rightarrow> int \<Rightarrow> pystr \<Rightarrow> 'z ledger_scheme \<Rightarrow> event list res" where
  "list_events target since_id limit state s =
     (let page = (\<lambda>P. if \<not> fits64 since_id then Inl OverflowError
                  else Inr (map row_to_event (take (page_limit limit)
                     (filter (\<lambda>r. since_id < e_id r \<and> P r) (events s)))))
      in case target of
        Some t \<Rightarrow>
          if t = [] then page (\<lambda>r. True)
          else if state = lit ''pending''
          then page (\<lambda>r. addressed_to t r \<and> \<not> applied_by t (e_event_id r) s)
          else if state = lit ''all'' then page (addressed_to t)
          else Inl (ValueError ''state must be pending or all'')
      | None \<Rightarrow> page (\<lambda>r. True))"

definition ack ::
    "pystr \<Rightarrow> pystr \<Rightarrow> pystr \<Rightarrow> json option \<Rightarrow> env \<Rightarrow> 'z ledger_scheme \<Rightarrow>
     unit res \<times> 'z ledger_scheme" where
  "ack event_id agent_id ack_type detail E s =
     (if ack_type \<notin> {lit ''received'', lit ''applied''}
      then (Inl (ValueError ''ack_type must be received or applied''), s)
      else
      let ts = now E 0;
          d = compact_json (case detail of None \<Rightarrow> JObj [] | Some v \<Rightarrow> if py_true v then v else JObj []);
          same = (\<lambda>r. a_event_id r = event_id \<and> a_agent_id r = agent_id \<and> a_ack_type r = ack_type)
      in if \<exists>r \<in> set (acks s). same r
         then (Inr (), s\<lparr>acks := upd_where same (\<lambda>r. r\<lparr>a_ack_at := ts, a_detail_json := d\<rparr>) (acks s)\<rparr>)
         else if \<not> (\<exists>r \<in> set (events s). e_event_id r = event_id)
         then (Inl (IntegrityError (Foreign_Key ''acks.event_id'')), s)
         else (Inr (), s\<lparr>acks := acks s @
                [\<lparr>a_id = next_id a_id (acks s), a_event_id = event_id, a_agent_id = agent_id,
                  a_ack_type = ack_type, a_ack_at = ts, a_detail_json = d\<rparr>]\<rparr>))"

definition acks_for :: "pystr \<Rightarrow> 'z ledger_scheme \<Rightarrow> ack_row list" where
  "acks_for event_id s = sort_key a_id (filter (\<lambda>r. a_event_id r = event_id) (acks s))"

definition backlog_depth :: "pystr \<Rightarrow> 'z ledger_scheme \<Rightarrow> int" where
  "backlog_depth target s =
     int (length (filter (\<lambda>r. e_requires_ack r = 1 \<and> addressed_to target r \<and>
                             \<not> applied_by target (e_event_id r) s) (events s)))"

record health =
  h_inbox_depths :: "(pystr \<times> int) list"
  h_outbox_pending :: int
  h_last_event_id :: "int option"
  h_last_event_at :: "pystr option"
  h_retention_days :: int

definition last_event :: "'z ledger_scheme \<Rightarrow> event_row option" where
  "last_event s = (case rev (sort_key e_id (events s)) of [] \<Rightarrow> None | r # _ \<Rightarrow> Some r)"

definition health_snapshot :: "'z ledger_scheme \<Rightarrow> health res" where
  "health_snapshot s =
     (let ps = map p_peer_id (filter (\<lambda>r. p_revoked_at r = None) (peers s));
          last = last_event s
      in case settings s (lit ''retention_days'') of
           None \<Rightarrow> Inl (TypeError)
         | Some v \<Rightarrow>
             (case py_int v of None \<Rightarrow> Inl (ValueError ''invalid literal for int()'')
              | Some d \<Rightarrow>
                  Inr \<lparr>h_inbox_depths = map (\<lambda>p. (p, backlog_depth p s)) ps,
                       h_outbox_pending = sum_list (map (\<lambda>p. backlog_depth p s) ps),
                       h_last_event_id = map_option e_id last,
                       h_last_event_at = map_option e_stored_at last,
                       h_retention_days = d\<rparr>))"

definition write_probe :: "env \<Rightarrow> 'z ledger_scheme \<Rightarrow> 'z ledger_scheme" where
  "write_probe E s =
     (if storage_metadata s (lit ''write_probe'') = None then s
      else s\<lparr>storage_metadata := (storage_metadata s)(lit ''write_probe'' \<mapsto> now E 0)\<rparr>)"


section \<open>Migrations at start-up\<close>

text \<open>
  \<open>INSERT OR IGNORE ... SELECT\<close> over the peers that carry a token hash.
\<close>

definition migrate_peer_token :: "peer_row \<Rightarrow> token_row list \<Rightarrow> token_row list" where
  "migrate_peer_token p rows =
     (case p_token_hash p of
        None \<Rightarrow> rows
      | Some digest \<Rightarrow>
          (case token_conflict digest None rows of
             Some _ \<Rightarrow> rows
           | None \<Rightarrow> rows @ [new_token_row (p_peer_id p) digest None None (lit ''full'')
                              (p_created_at p) rows]))"

definition migrate_peer_tokens :: "'z ledger_scheme \<Rightarrow> 'z ledger_scheme" where
  "migrate_peer_tokens s = s\<lparr>peer_tokens := fold migrate_peer_token (peers s) (peer_tokens s)\<rparr>"

text \<open>
  \<open>_ensure_token_schema\<close> on a database whose columns are complete: every token row
  without a token id gets the name-based one, in one transaction.
\<close>

fun backfill_token_ids :: "token_row list \<Rightarrow> token_row list \<Rightarrow> token_row list res" where
  "backfill_token_ids [] rows = Inr rows"
| "backfill_token_ids (row # todo) rows =
     (let i = legacy_token_id (t_peer_id row) (t_token_hash row) in
      if \<exists>r \<in> set rows. t_id r \<noteq> t_id row \<and> t_token_id r = Some i
      then Inl (IntegrityError (Unique ''peer_tokens.token_id''))
      else backfill_token_ids todo (upd_where (\<lambda>r. t_id r = t_id row)
             (\<lambda>r. r\<lparr>t_token_id := Some i,
                    t_device_label := (case t_device_label r of None \<Rightarrow> Some (lit ''legacy'')
                                       | Some l \<Rightarrow> Some l)\<rparr>) rows))"

definition ensure_token_schema :: "'z ledger_scheme \<Rightarrow> unit res \<times> 'z ledger_scheme" where
  "ensure_token_schema s =
     (case backfill_token_ids (filter (\<lambda>r. \<not> truthy (t_token_id r)) (peer_tokens s)) (peer_tokens s) of
        Inl e \<Rightarrow> (Inl e, s)
      | Inr rows \<Rightarrow> (Inr (), s\<lparr>peer_tokens := rows\<rparr>))"

end
