(* ===== verification/Ledger_Inv.thy ===== *)
theory Ledger_Inv
  imports Ledger
begin

text \<open>
  The constraints of the ledger's tables as one state predicate, the operations of
  the store as the steps of a transition relation, and the proof that every
  operation keeps the predicate on every path, the failing ones included.
\<close>

section \<open>Table invariants\<close>

definition peers_ok :: "peer_row list \<Rightarrow> bool" where
  "peers_ok ps = distinct (map p_peer_id ps)"

definition peer_ids :: "'z ledger_scheme \<Rightarrow> pystr set" where
  "peer_ids s = p_peer_id ` set (peers s)"

text \<open>UNIQUE on a column that may be NULL: rows with the same token id are the same row.\<close>

definition token_ids_ok :: "token_row list \<Rightarrow> bool" where
  "token_ids_ok rows = (\<forall>r \<in> set rows. \<forall>q \<in> set rows.
     t_token_id r \<noteq> None \<and> t_token_id r = t_token_id q \<longrightarrow> t_id r = t_id q)"

definition tokens_ok :: "pystr set \<Rightarrow> token_row list \<Rightarrow> bool" where
  "tokens_ok P rows = (sorted_wrt (<) (map t_id rows) \<and> distinct (map t_token_hash rows) \<and>
     token_ids_ok rows \<and> t_peer_id ` set rows \<subseteq> P)"

definition grants_ok :: "pystr set \<Rightarrow> grant_row list \<Rightarrow> bool" where
  "grants_ok P rows = (sorted_wrt (<) (map g_id rows) \<and> g_grantor ` set rows \<subseteq> P \<and>
     g_grantee ` set rows \<subseteq> P)"

definition acl_ok :: "pystr set \<Rightarrow> acl_row list \<Rightarrow> acl_target_row list \<Rightarrow> bool" where
  "acl_ok P rows targets = (distinct (map l_peer_id rows) \<and> l_peer_id ` set rows \<subseteq> P \<and>
     distinct (map (\<lambda>r. (lt_peer_id r, lt_target_peer r)) targets) \<and>
     lt_peer_id ` set targets \<subseteq> l_peer_id ` set rows \<and> lt_target_peer ` set targets \<subseteq> P)"

text \<open>
  An event row: its sequence number is at most the counter of its source, its payload is
  an object, and exactly the commands carry an authenticated actor, their source.
\<close>

definition event_row_ok :: "(pystr \<rightharpoonup> int) \<Rightarrow> event_row \<Rightarrow> bool" where
  "event_row_ok C r =
     ((case C (e_source r) of None \<Rightarrow> False | Some c \<Rightarrow> e_seq r \<le> c) \<and>
      (case e_payload_json r of JObj _ \<Rightarrow> True | _ \<Rightarrow> False) \<and> fits64 (e_seq r) \<and> fits64 (e_id r) \<and> 0 < e_id r \<and>
      (if e_type r = lit ''command''
       then e_auth_actor r = Some (e_source r) \<and> truthy (e_source_ref r)
       else e_auth_actor r = None))"

definition events_ok :: "(pystr \<rightharpoonup> int) \<Rightarrow> event_row list \<Rightarrow> bool" where
  "events_ok C rows = (sorted_wrt (<) (map e_id rows) \<and> distinct (map e_event_id rows) \<and>
     distinct (map (\<lambda>r. (e_source r, e_seq r)) rows) \<and> (\<forall>r \<in> set rows. event_row_ok C r))"

definition acks_ok :: "event_row list \<Rightarrow> ack_row list \<Rightarrow> bool" where
  "acks_ok evs rows = (sorted_wrt (<) (map a_id rows) \<and>
     distinct (map (\<lambda>r. (a_event_id r, a_agent_id r, a_ack_type r)) rows) \<and>
     a_event_id ` set rows \<subseteq> e_event_id ` set evs \<and>
     a_ack_type ` set rows \<subseteq> {lit ''received'', lit ''applied''})"

definition audit_ok :: "audit_row list \<Rightarrow> bool" where
  "audit_ok rows = sorted_wrt (<) (map u_id rows)"

definition ledger_ok :: "'z ledger_scheme \<Rightarrow> bool" where
  "ledger_ok s = (peers_ok (peers s) \<and> tokens_ok (peer_ids s) (peer_tokens s) \<and>
     grants_ok (peer_ids s) (peer_grants s) \<and>
     acl_ok (peer_ids s) (peer_target_acl s) (peer_target_acl_targets s) \<and>
     events_ok (source_counters s) (events s) \<and> acks_ok (events s) (acks s) \<and>
     audit_ok (audit_log s))"

lemma ledger_ok_parts:
  assumes "ledger_ok s"
  shows "peers_ok (peers s)" "tokens_ok (peer_ids s) (peer_tokens s)"
    "grants_ok (peer_ids s) (peer_grants s)"
    "acl_ok (peer_ids s) (peer_target_acl s) (peer_target_acl_targets s)"
    "events_ok (source_counters s) (events s)" "acks_ok (events s) (acks s)"
    "audit_ok (audit_log s)"
  using assms by (auto simp: ledger_ok_def)

lemma ledger_ok_init: "ledger_ok init_ledger"
  by (simp add: ledger_ok_def init_ledger_def peers_ok_def tokens_ok_def grants_ok_def acl_ok_def
      events_ok_def acks_ok_def audit_ok_def token_ids_ok_def peer_ids_def)


section \<open>Preservation by the table writes\<close>

lemma tokens_ok_mono: "tokens_ok P rows \<Longrightarrow> P \<subseteq> Q \<Longrightarrow> tokens_ok Q rows"
  by (auto simp: tokens_ok_def)

lemma grants_ok_mono: "grants_ok P rows \<Longrightarrow> P \<subseteq> Q \<Longrightarrow> grants_ok Q rows"
  by (auto simp: grants_ok_def)

lemma acl_ok_mono: "acl_ok P rows ts \<Longrightarrow> P \<subseteq> Q \<Longrightarrow> acl_ok Q rows ts"
  by (auto simp: acl_ok_def)

text \<open>An UPDATE of columns that no constraint mentions keeps a table valid.\<close>

lemma tokens_ok_update:
  assumes "tokens_ok P rows"
    and "\<And>r. t_id (f r) = t_id r" "\<And>r. t_token_hash (f r) = t_token_hash r"
      "\<And>r. t_token_id (f r) = t_token_id r" "\<And>r. t_peer_id (f r) = t_peer_id r"
  shows "tokens_ok P (upd_where Q f rows)"
proof -
  have "map t_id (upd_where Q f rows) = map t_id rows"
    "map t_token_hash (upd_where Q f rows) = map t_token_hash rows"
    "map t_peer_id (upd_where Q f rows) = map t_peer_id rows"
    by (rule map_upd_where, simp add: assms)+
  moreover from this have "t_peer_id ` set (upd_where Q f rows) = t_peer_id ` set rows"
    by (metis set_map)
  moreover have "token_ids_ok (upd_where Q f rows)"
  proof -
    have same: "t_token_id (if Q r then f r else r) = t_token_id r"
      "t_id (if Q r then f r else r) = t_id r" for r
      by (simp_all add: assms)
    show ?thesis
      using assms(1) by (simp only: tokens_ok_def token_ids_ok_def set_upd_where ball_simps same) blast
  qed
  ultimately show ?thesis
    using assms(1) by (simp add: tokens_ok_def)
qed

lemma tokens_ok_new:
  assumes "tokens_ok P rows" and "token_conflict digest tid rows = None" and "p \<in> P"
  shows "tokens_ok P (rows @ [new_token_row p digest tid label scope ts rows])"
proof -
  let ?r = "new_token_row p digest tid label scope ts rows"
  have hash: "\<forall>r \<in> set rows. t_token_hash r \<noteq> digest"
    and tid: "\<forall>r \<in> set rows. tid \<noteq> None \<longrightarrow> t_token_id r \<noteq> tid"
    using assms(2) unfolding token_conflict_def by (metis option.distinct(1))+
  have r: "t_token_id ?r = tid" "t_token_hash ?r = digest" "t_peer_id ?r = p"
    by (simp_all add: new_token_row_def)
  have "sorted_wrt (<) (map t_id (rows @ [?r]))"
    using assms(1) by (intro ascending_snoc_next_id) (simp_all add: tokens_ok_def new_token_row_def)
  moreover have "token_ids_ok (rows @ [?r])"
    using assms(1) tid unfolding tokens_ok_def token_ids_ok_def by (simp add: r ball_Un) metis
  moreover have "distinct (map t_token_hash (rows @ [?r]))"
    using assms(1) hash by (auto simp: tokens_ok_def r)
  ultimately show ?thesis
    using assms(1,3) by (simp add: tokens_ok_def r)
qed

lemma peer_ids_upsert:
  "(\<And>r. p_peer_id (f r) = p_peer_id r) \<Longrightarrow>
   p_peer_id ` set (upd_where Q f ps) = p_peer_id ` set ps"
  by (metis (no_types, lifting) map_upd_where set_map)

lemma peers_ok_update:
  "peers_ok ps \<Longrightarrow> (\<And>r. p_peer_id (f r) = p_peer_id r) \<Longrightarrow> peers_ok (upd_where Q f ps)"
  by (simp add: peers_ok_def map_upd_where)

lemma audit_keeps [simp]:
  "peers (audit a b c d e f g ts s) = peers s"
  "peer_tokens (audit a b c d e f g ts s) = peer_tokens s"
  "peer_grants (audit a b c d e f g ts s) = peer_grants s"
  "peer_target_acl (audit a b c d e f g ts s) = peer_target_acl s"
  "peer_target_acl_targets (audit a b c d e f g ts s) = peer_target_acl_targets s"
  "source_counters (audit a b c d e f g ts s) = source_counters s"
  "events (audit a b c d e f g ts s) = events s"
  "acks (audit a b c d e f g ts s) = acks s"
  "settings (audit a b c d e f g ts s) = settings s"
  "storage_metadata (audit a b c d e f g ts s) = storage_metadata s"
  by (simp_all add: audit_def)

lemma audit_ok_audit: "audit_ok (audit_log s) \<Longrightarrow> audit_ok (audit_log (audit a b c d e f g ts s))"
  by (simp add: audit_ok_def audit_def ascending_snoc_next_id del: map_append)

lemma ledger_ok_audit: "ledger_ok s \<Longrightarrow> ledger_ok (audit a b c d e f g ts s)"
  by (simp add: ledger_ok_def audit_ok_audit peer_ids_def)

lemma event_row_ok_mono:
  assumes "event_row_ok C r" "\<And>k c. C k = Some c \<Longrightarrow> \<exists>d. D k = Some d \<and> c \<le> d"
  shows "event_row_ok D r"
proof -
  obtain c where "C (e_source r) = Some c" "e_seq r \<le> c"
    using assms(1) by (auto simp: event_row_ok_def split: option.splits)
  moreover obtain d where "D (e_source r) = Some d" "c \<le> d"
    using assms(2) calculation(1) by blast
  ultimately show ?thesis using assms(1) by (simp add: event_row_ok_def)
qed

lemma acks_ok_mono: "acks_ok evs rows \<Longrightarrow> acks_ok (evs @ evs') rows"
  by (auto simp: acks_ok_def)


section \<open>Preservation by the operations\<close>

lemma peer_exists_iff: "peer_exists p s \<longleftrightarrow> p \<in> peer_ids s"
  by (auto simp: peer_exists_def peer_ids_def)

lemma insert_acl_targets_ok:
  assumes "ledger_ok s" and "p \<in> l_peer_id ` set (peer_target_acl s)" and "distinct ts"
    and "\<forall>r \<in> set (peer_target_acl_targets s). lt_peer_id r = p \<longrightarrow> lt_target_peer r \<notin> set ts"
  shows "ledger_ok (snd (insert_acl_targets p t ts s))"
  using assms
proof (induction ts arbitrary: s)
  case Nil
  then show ?case by simp
next
  case (Cons a ts)
  let ?s = "s\<lparr>peer_target_acl_targets := peer_target_acl_targets s @
              [\<lparr>lt_peer_id = p, lt_target_peer = a, lt_created_at = t\<rparr>]\<rparr>"
  show ?case
  proof (cases "peer_exists a s")
    case True
    have "ledger_ok ?s"
      using Cons.prems True by (auto simp: ledger_ok_def acl_ok_def peer_ids_def peer_exists_def)
    then have "ledger_ok (snd (insert_acl_targets p t ts ?s))"
      using Cons.prems by (intro Cons.IH) auto
    with True show ?thesis by simp
  next
    case False
    with Cons.prems show ?thesis by simp
  qed
qed

lemma distinct_dict_fromkeys [simp]: "distinct (dict_fromkeys ks)"
  by (simp add: dict_fromkeys_def)

lemma set_dict_fromkeys [simp]: "set (dict_fromkeys ks) = set ks"
  by (simp add: dict_fromkeys_def)

lemma set_target_acl_ok:
  assumes "ledger_ok s"
  shows "ledger_ok (snd (set_target_acl p ts E s))"
proof -
  note acl = ledger_ok_parts(4) [OF assms]
  define rest where "rest = filter (\<lambda>r. lt_peer_id r \<noteq> p) (peer_target_acl_targets s)"
  have rest: "acl_ok (peer_ids s) (peer_target_acl s) rest"
    using acl by (auto simp: acl_ok_def rest_def distinct_map_filter)
  consider (old) "\<exists>r \<in> set (peer_target_acl s). l_peer_id r = p"
    | (none) "\<not> (\<exists>r \<in> set (peer_target_acl s). l_peer_id r = p)" "\<not> peer_exists p s"
    | (new) "\<not> (\<exists>r \<in> set (peer_target_acl s). l_peer_id r = p)" "peer_exists p s"
    by blast
  then show ?thesis
  proof cases
    case old
    let ?rows = "upd_where (\<lambda>r. l_peer_id r = p) (\<lambda>r. r\<lparr>l_updated_at := now E 0\<rparr>) (peer_target_acl s)"
    have ids: "map l_peer_id ?rows = map l_peer_id (peer_target_acl s)"
      by (rule map_upd_where) simp
    then have ids': "l_peer_id ` set ?rows = l_peer_id ` set (peer_target_acl s)" by (metis set_map)
    have "acl_ok (peer_ids s) ?rows rest" using rest ids ids' by (simp add: acl_ok_def)
    then have "ledger_ok (s\<lparr>peer_target_acl := ?rows, peer_target_acl_targets := rest\<rparr>)"
      using assms by (simp add: ledger_ok_def peer_ids_def)
    moreover have "p \<in> l_peer_id ` set ?rows" using old ids' by blast
    ultimately show ?thesis
      using old unfolding set_target_acl_def
      by (auto simp: Let_def rest_def intro!: insert_acl_targets_ok)
  next
    case none
    with assms show ?thesis by (simp add: set_target_acl_def Let_def)
  next
    case new
    let ?rows = "peer_target_acl s @ [\<lparr>l_peer_id = p, l_created_at = now E 0, l_updated_at = now E 0\<rparr>]"
    have "acl_ok (peer_ids s) ?rows rest"
      using rest new by (auto simp: acl_ok_def peer_exists_iff)
    then have "ledger_ok (s\<lparr>peer_target_acl := ?rows, peer_target_acl_targets := rest\<rparr>)"
      using assms by (simp add: ledger_ok_def peer_ids_def)
    then show ?thesis
      using new unfolding set_target_acl_def
      by (auto simp: Let_def rest_def intro!: insert_acl_targets_ok)
  qed
qed

lemma clear_target_acl_ok:
  assumes "ledger_ok s"
  shows "ledger_ok (clear_target_acl p s)"
proof -
  have "acl_ok (peer_ids s) (filter (\<lambda>r. l_peer_id r \<noteq> p) (peer_target_acl s))
      (filter (\<lambda>r. lt_peer_id r \<noteq> p) (peer_target_acl_targets s))"
    using ledger_ok_parts(4) [OF assms] unfolding acl_ok_def
    by (intro conjI distinct_map_filter; elim conjE) auto
  with assms show ?thesis by (simp add: ledger_ok_def clear_target_acl_def peer_ids_def)
qed

text \<open>Writes to the peers, the tokens or the grants alone.\<close>

lemma ledger_ok_tokens:
  "ledger_ok s \<Longrightarrow> tokens_ok (peer_ids s) rows \<Longrightarrow> ledger_ok (s\<lparr>peer_tokens := rows\<rparr>)"
  by (simp add: ledger_ok_def peer_ids_def)

lemma ledger_ok_grants:
  "ledger_ok s \<Longrightarrow> grants_ok (peer_ids s) rows \<Longrightarrow> ledger_ok (s\<lparr>peer_grants := rows\<rparr>)"
  by (simp add: ledger_ok_def peer_ids_def)

lemma ledger_ok_peers:
  assumes "ledger_ok s" "peers_ok rows" "peer_ids s \<subseteq> p_peer_id ` set rows"
  shows "ledger_ok (s\<lparr>peers := rows\<rparr>)"
proof -
  have "peer_ids (s\<lparr>peers := rows\<rparr>) = p_peer_id ` set rows" by (simp add: peer_ids_def)
  with assms show ?thesis
    by (simp add: ledger_ok_def) (blast intro: tokens_ok_mono grants_ok_mono acl_ok_mono)
qed

lemma ledger_ok_upd_tokens:
  assumes "ledger_ok s"
    and "\<And>r. t_id (f r) = t_id r" "\<And>r. t_token_hash (f r) = t_token_hash r"
      "\<And>r. t_token_id (f r) = t_token_id r" "\<And>r. t_peer_id (f r) = t_peer_id r"
  shows "ledger_ok (s\<lparr>peer_tokens := upd_where Q f (peer_tokens s)\<rparr>)"
  by (rule ledger_ok_tokens [OF assms(1)], rule tokens_ok_update)
    (simp_all add: assms ledger_ok_parts(2))

lemma ledger_ok_new_token:
  assumes "ledger_ok s" "token_conflict digest tid (peer_tokens s) = None" "p \<in> peer_ids s"
  shows "ledger_ok (s\<lparr>peer_tokens := peer_tokens s @
           [new_token_row p digest tid label scope ts (peer_tokens s)]\<rparr>)"
  using assms by (intro ledger_ok_tokens tokens_ok_new ledger_ok_parts(2))

lemma ledger_ok_upd_peers:
  assumes "ledger_ok s" "\<And>r. p_peer_id (f r) = p_peer_id r"
  shows "ledger_ok (s\<lparr>peers := upd_where Q f (peers s)\<rparr>)"
proof (rule ledger_ok_peers [OF assms(1)])
  show "peers_ok (upd_where Q f (peers s))"
    using ledger_ok_parts(1) [OF assms(1)] assms(2) by (rule peers_ok_update)
  show "peer_ids s \<subseteq> p_peer_id ` set (upd_where Q f (peers s))"
    using assms(2) by (simp add: peer_ids_upsert peer_ids_def)
qed

lemma ledger_ok_new_peer:
  assumes "ledger_ok s" "\<not> peer_exists (p_peer_id r) s"
  shows "ledger_ok (s\<lparr>peers := peers s @ [r]\<rparr>)"
  using assms
  by (intro ledger_ok_peers) (auto simp: peers_ok_def peer_ids_def peer_exists_def ledger_ok_def)

lemma add_peer_ok:
  assumes "ledger_ok s"
  shows "ledger_ok (snd (add_peer p token role platform endpoint dc n E s))"
proof (cases "fits64 n")
  case True
  define tok where "tok = (case token of None \<Rightarrow> rnd_token E | Some t \<Rightarrow> t)"
  define s1 where "s1 = (if peer_exists p s
                then s\<lparr>peers := upd_where (\<lambda>r. p_peer_id r = p)
                       (\<lambda>r. r\<lparr>p_token_hash := Some (token_hash tok), p_role := role,
                              p_platform := platform, p_endpoint := endpoint,
                              p_delivery_class := dc, p_ack_timeout_sec := n,
                              p_revoked_at := None\<rparr>) (peers s)\<rparr>
                else s\<lparr>peers := peers s @
                       [\<lparr>p_peer_id = p, p_token_hash = Some (token_hash tok), p_role = role,
                         p_platform = platform, p_endpoint = endpoint, p_delivery_class = dc,
                         p_ack_timeout_sec = n, p_created_at = now E 0, p_revoked_at = None\<rparr>]\<rparr>)"
  define s2 where "s2 = (case token_conflict (token_hash tok) (Some (rnd_uuid E)) (peer_tokens s1) of
                  Some _ \<Rightarrow> s1
                | None \<Rightarrow> s1\<lparr>peer_tokens := peer_tokens s1 @
                    [new_token_row p (token_hash tok) (Some (rnd_uuid E)) (Some (lit ''primary''))
                       (lit ''full'') (now E 1) (peer_tokens s1)]\<rparr>)"
  have s1: "ledger_ok s1"
    unfolding s1_def by (auto intro!: ledger_ok_upd_peers ledger_ok_new_peer assms)
  have p: "p \<in> peer_ids s1"
    by (auto simp: s1_def peer_ids_def peer_exists_def peer_ids_upsert)
  have s2: "ledger_ok s2"
    unfolding s2_def using s1 p by (auto split: option.split intro: ledger_ok_new_token)
  have "ledger_ok (s2\<lparr>peer_tokens := upd_where
                 (\<lambda>r. t_peer_id r = p \<and> t_token_hash r \<noteq> token_hash tok \<and> t_revoked_at r = None \<and>
                      primary_token r)
                 (\<lambda>r. r\<lparr>t_revoked_at := Some (now E 2)\<rparr>) (peer_tokens s2)\<rparr>)"
    by (rule ledger_ok_upd_tokens [OF s2]) simp_all
  then show ?thesis
    using True unfolding add_peer_def Let_def tok_def [symmetric] s1_def [symmetric] s2_def [symmetric]
    by simp
next
  case False
  then show ?thesis using assms by (simp add: add_peer_def Let_def)
qed


lemma rotate_peer_token_ok:
  assumes "ledger_ok s"
  shows "ledger_ok (snd (rotate_peer_token p token grace E s))"
proof -
  define tok where "tok = or_str token (rnd_token E)"
  define s1 where "s1 = s\<lparr>peer_tokens := upd_where
     (\<lambda>r. t_peer_id r = p \<and> t_revoked_at r = None \<and> primary_token r \<and>
          (case t_grace_until r of None \<Rightarrow> True | Some g \<Rightarrow> now E 1 \<le> g))
     (\<lambda>r. r\<lparr>t_grace_until := Some (now_iso (clk E 0 + max 0 grace * 1000000))\<rparr>) (peer_tokens s)\<rparr>"
  have s1: "ledger_ok s1"
    unfolding s1_def by (rule ledger_ok_upd_tokens [OF assms]) simp_all
  have new: "ledger_ok (s1\<lparr>peer_tokens := peer_tokens s1 @
                   [new_token_row p (token_hash tok) (Some (rnd_uuid E)) (Some (lit ''rotation''))
                      (lit ''full'') (now E 2) (peer_tokens s1)],
                 peers := upd_where (\<lambda>r. p_peer_id r = p)
                   (\<lambda>r. r\<lparr>p_token_hash := Some (token_hash tok)\<rparr>) (peers s1)\<rparr>)"
    if "token_conflict (token_hash tok) (Some (rnd_uuid E)) (peer_tokens s1) = None" "peer_exists p s1"
    using ledger_ok_upd_peers [OF ledger_ok_new_token [OF s1 that(1)],
        where f = "\<lambda>r. r\<lparr>p_token_hash := Some (token_hash tok)\<rparr>" and Q = "\<lambda>r. p_peer_id r = p"] that(2)
    by (simp add: peer_exists_iff)
  show ?thesis
    unfolding rotate_peer_token_def Let_def tok_def [symmetric] s1_def [symmetric]
    using assms s1 new by (auto split: option.split)
qed

lemma add_device_token_ok:
  assumes "ledger_ok s"
  shows "ledger_ok (snd (add_device_token p label token scope actor E s))"
  using assms unfolding add_device_token_def Let_def
  by (auto split: option.split intro!: ledger_ok_audit ledger_ok_new_token simp: peer_ids_def)

lemma revoke_device_token_ok:
  assumes "ledger_ok s"
  shows "ledger_ok (snd (revoke_device_token i actor E s))"
  using assms unfolding revoke_device_token_def Let_def
  by (auto split: option.split intro!: ledger_ok_audit ledger_ok_upd_tokens)

lemma add_grant_ok:
  assumes "ledger_ok s"
  shows "ledger_ok (snd (add_grant grantor grantee ct scope vu E s))"
proof -
  have "grants_ok (peer_ids s) (peer_grants s @ [r])"
    if "g_id r = next_id g_id (peer_grants s)" "g_grantor r = grantor" "g_grantee r = grantee"
      "peer_exists grantor s" "peer_exists grantee s" for r
    using ledger_ok_parts(3) [OF assms] that
    by (auto simp: grants_ok_def peer_exists_iff ascending_snoc_next_id simp del: map_append)
  then show ?thesis
    using assms unfolding add_grant_def Let_def by (auto intro!: ledger_ok_grants)
qed

lemma revoke_grant_ok:
  assumes "ledger_ok s"
  shows "ledger_ok (snd (revoke_grant i E s))"
proof -
  let ?rows = "upd_where (\<lambda>r. g_id r = i) (\<lambda>r. r\<lparr>g_revoked_at := Some (now E 0)\<rparr>) (peer_grants s)"
  have "map g_id ?rows = map g_id (peer_grants s)" "map g_grantor ?rows = map g_grantor (peer_grants s)"
    "map g_grantee ?rows = map g_grantee (peer_grants s)"
    by (rule map_upd_where, simp)+
  then have "grants_ok (peer_ids s) ?rows"
    using ledger_ok_parts(3) [OF assms] unfolding grants_ok_def by (metis set_map)
  then show ?thesis
    using assms unfolding revoke_grant_def by (auto intro!: ledger_ok_grants)
qed

lemma ack_ok:
  assumes "ledger_ok s"
  shows "ledger_ok (snd (ack eid agent ty detail E s))"
proof -
  have upd: "acks_ok (events s) (upd_where P (\<lambda>r. r\<lparr>a_ack_at := t, a_detail_json := d\<rparr>) (acks s))"
    for P t d
  proof -
    let ?rows = "upd_where P (\<lambda>r. r\<lparr>a_ack_at := t, a_detail_json := d\<rparr>) (acks s)"
    have "map a_id ?rows = map a_id (acks s)" "map a_event_id ?rows = map a_event_id (acks s)"
      "map a_ack_type ?rows = map a_ack_type (acks s)"
      "map (\<lambda>r. (a_event_id r, a_agent_id r, a_ack_type r)) ?rows =
       map (\<lambda>r. (a_event_id r, a_agent_id r, a_ack_type r)) (acks s)"
      by (rule map_upd_where, simp)+
    then show ?thesis
      using ledger_ok_parts(6) [OF assms] unfolding acks_ok_def by (metis set_map)
  qed
  have new: "acks_ok (events s) (acks s @ [r])"
    if "a_id r = next_id a_id (acks s)" "a_ack_type r \<in> {lit ''received'', lit ''applied''}"
      "a_event_id r \<in> e_event_id ` set (events s)"
      "\<not> (\<exists>x \<in> set (acks s). a_event_id x = a_event_id r \<and> a_agent_id x = a_agent_id r \<and>
             a_ack_type x = a_ack_type r)" for r
    using ledger_ok_parts(6) [OF assms] that
      ascending_snoc_next_id [of a_id "acks s" r] unfolding acks_ok_def by auto
  have "ledger_ok (s\<lparr>acks := rows\<rparr>)" if "acks_ok (events s) rows" for rows
    using assms that by (simp add: ledger_ok_def peer_ids_def)
  then show ?thesis
    using assms upd new unfolding ack_def Let_def by auto
qed

lemma write_probe_ok: "ledger_ok s \<Longrightarrow> ledger_ok (write_probe E s)"
  by (simp add: write_probe_def ledger_ok_def peer_ids_def)


section \<open>Storing an event\<close>

text \<open>
  The outcome of the storing half of \<open>insert_event\<close> for an event id that is not in use:
  either the sequence number cannot be bound or is taken, or the rowids are used up, and
  nothing changes, or the row is appended and returned.
\<close>

definition seq_choice :: "pystr \<Rightarrow> int option \<Rightarrow> 'z ledger_scheme \<Rightarrow> int" where
  "seq_choice source seq s = fst (alloc_seq source seq s)"

lemma seq_choice_simps [simp]:
  "seq_choice source (Some n) s = n"
  "seq_choice source None s = (case source_counters s source of None \<Rightarrow> 1 | Some c \<Rightarrow> c + 1)"
  by (simp_all add: seq_choice_def alloc_seq_def next_seq_def Let_def)

definition stored_row ::
    "pystr \<Rightarrow> pystr \<Rightarrow> pystr \<Rightarrow> (pystr \<times> json) list \<Rightarrow> int option \<Rightarrow> pystr \<Rightarrow> pystr \<Rightarrow> bool \<Rightarrow>
     pystr option \<Rightarrow> pystr option \<Rightarrow> env \<Rightarrow> 'z ledger_scheme \<Rightarrow> event_row" where
  "stored_row source target event_type payload seq event_id created_at requires_ack source_ref
     auth_actor E s =
     \<lparr>e_id = next_id e_id (events s), e_event_id = event_id, e_source = source, e_target = target,
      e_type = event_type, e_seq = seq_choice source seq s, e_created_at = created_at,
      e_stored_at = now E 3, e_payload_json = compact_json (JObj payload),
      e_requires_ack = (if requires_ack then 1 else 0), e_source_ref = source_ref,
      e_auth_actor = auth_actor\<rparr>"

definition counters_after :: "pystr \<Rightarrow> int \<Rightarrow> (pystr \<rightharpoonup> int) \<Rightarrow> (pystr \<rightharpoonup> int)" where
  "counters_after source n C =
     C(source \<mapsto> (case C source of None \<Rightarrow> n | Some c \<Rightarrow> max c n))"

lemma counters_after_mono: "C k = Some c \<Longrightarrow> \<exists>d. counters_after source n C k = Some d \<and> c \<le> d"
  by (auto simp: counters_after_def)

lemma find_last_id:
  assumes "sorted_wrt (<) (map e_id rows)" "e_id r = next_id e_id rows"
  shows "find (\<lambda>x. e_id x = e_id r) (rows @ [r]) = Some r"
proof -
  have "distinct (map e_id (rows @ [r]))"
    using ascending_distinct [OF ascending_snoc_next_id [OF assms]] .
  then show ?thesis by (simp only: find_Some_iff_unique) simp
qed

lemma raise_counter_alloc:
  "source_counters (raise_counter source n (snd (alloc_seq source seq s))) =
     counters_after source n (source_counters s)" if "n = fst (alloc_seq source seq s)"
  using that
  by (cases seq) (auto simp: raise_counter_def alloc_seq_def next_seq_def counters_after_def Let_def
      fun_eq_iff split: option.split)

lemma store_event_cases:
  fixes source target ty payload seq eid created ra ref actor E and s :: "'z ledger_scheme"
  assumes "events_ok (source_counters s) (events s)"
    and fresh: "\<forall>r \<in> set (events s). e_event_id r \<noteq> eid"
  defines "n \<equiv> seq_choice source seq s"
    and "row \<equiv> stored_row source target ty payload seq eid created ra ref actor E s"
  obtains (overflow) "\<not> fits64 n"
      "store_event source target ty payload seq eid created ra ref actor E s = (Inl OverflowError, s)"
    | (full) "fits64 n" "\<not> fits64 (next_id e_id (events s))"
      "store_event source target ty payload seq eid created ra ref actor E s = (Inl DatabaseFull, s)"
    | (taken) "fits64 n" "fits64 (next_id e_id (events s))"
      "\<exists>r \<in> set (events s). e_source r = source \<and> e_seq r = n"
      "store_event source target ty payload seq eid created ra ref actor E s =
         (Inl (IntegrityError (Unique ''events.source, events.seq'')), s)"
    | (stored) s' where "fits64 n" "fits64 (next_id e_id (events s))"
      "\<forall>r \<in> set (events s). e_source r = source \<longrightarrow> e_seq r \<noteq> n"
      "store_event source target ty payload seq eid created ra ref actor E s =
         (Inr (row_to_event row), s')"
      "s' = (let s3 = s\<lparr>events := events s @ [row],
                        source_counters := counters_after source n (source_counters s)\<rparr>
             in if ty = lit ''command''
                then audit (Some source) (lit ''command_accept'') ref (Some target) (Some eid)
                       (lit ''accepted'') None (now E 4) s3
                else s3)"
proof -
  define s1 where "s1 = snd (alloc_seq source seq s)"
  have alloc: "alloc_seq source seq s = (n, s1)"
    by (simp add: n_def s1_def seq_choice_def)
  have ev1: "events s1 = events s"
    by (cases seq) (simp_all add: s1_def alloc_seq_def next_seq_def Let_def)
  define s3 where "s3 = raise_counter source n (s1\<lparr>events := events s1 @ [row]\<rparr>)"
  have s3: "s3 = s\<lparr>events := events s @ [row],
                   source_counters := counters_after source n (source_counters s)\<rparr>"
  proof -
    have "source_counters (raise_counter source n s1) = counters_after source n (source_counters s)"
      unfolding s1_def by (rule raise_counter_alloc) (simp add: n_def seq_choice_def)
    then show ?thesis
      by (cases seq) (simp_all add: s3_def s1_def alloc_seq_def next_seq_def Let_def raise_counter_def)
  qed
  have row_eq: "row = \<lparr>e_id = next_id e_id (events s1), e_event_id = eid, e_source = source,
      e_target = target, e_type = ty, e_seq = n, e_created_at = created,
      e_stored_at = now E 3, e_payload_json = compact_json (JObj payload),
      e_requires_ack = (if ra then 1 else 0), e_source_ref = ref, e_auth_actor = actor\<rparr>"
    by (simp add: row_def stored_row_def ev1 n_def)
  define s4 where "s4 = (if ty = lit ''command''
                then audit (Some source) (lit ''command_accept'') ref (Some target) (Some eid)
                       (lit ''accepted'') None (now E 4) s3 else s3)"
  have ev4: "events s4 = events s @ [row]" by (simp add: s4_def s3)
  have "e_id row = next_id e_id (events s)" by (simp add: row_eq ev1)
  then have get: "get_event_by_id (next_id e_id (events s1)) s4 = Inr (row_to_event row)"
    using find_last_id [of "events s" row] assms(1)
    by (simp add: get_event_by_id_def ev4 ev1 events_ok_def)
  consider "\<not> fits64 n" | "fits64 n" "\<not> fits64 (next_id e_id (events s))"
    | "fits64 n" "fits64 (next_id e_id (events s))" "\<exists>r \<in> set (events s). e_source r = source \<and> e_seq r = n"
    | "fits64 n" "fits64 (next_id e_id (events s))" "\<forall>r \<in> set (events s). e_source r = source \<longrightarrow> e_seq r \<noteq> n"
    by blast
  then show thesis
  proof cases
    case 1
    then show thesis using overflow by (simp add: store_event_def alloc)
  next
    case 2
    then show thesis using full by (simp add: store_event_def alloc ev1)
  next
    case 3
    moreover from 3 fresh have "event_conflict eid source n (events s) = Some ''events.source, events.seq''"
      by (auto simp: event_conflict_def)
    ultimately show thesis using taken by (simp add: store_event_def alloc ev1)
  next
    case 4
    moreover from 4 fresh have "event_conflict eid source n (events s) = None"
      by (auto simp: event_conflict_def)
    ultimately have "store_event source target ty payload seq eid created ra ref actor E s =
         (get_event_by_id (next_id e_id (events s1)) s4, s4)"
      by (simp add: store_event_def alloc ev1 Let_def s4_def s3_def row_eq)
    then have "store_event source target ty payload seq eid created ra ref actor E s =
         (Inr (row_to_event row), s4)"
      by (simp only: get)
    then show thesis using 4 stored [of s4] by (simp add: s4_def s3)
  qed
qed


lemma events_ok_store:
  assumes ok: "events_ok C rows" and "fits64 n" and "e_id r = next_id e_id rows"
    and "fits64 (next_id e_id rows)"
    and "\<forall>x \<in> set rows. e_event_id x \<noteq> e_event_id r"
    and "\<forall>x \<in> set rows. e_source x = e_source r \<longrightarrow> e_seq x \<noteq> n" and "e_seq r = n"
    and "e_payload_json r = JObj kvs"
    and "if e_type r = lit ''command'' then e_auth_actor r = Some (e_source r) \<and> truthy (e_source_ref r)
         else e_auth_actor r = None"
  shows "events_ok (counters_after (e_source r) n C) (rows @ [r])"
proof -
  have "\<forall>x \<in> set rows. event_row_ok (counters_after (e_source r) n C) x"
    using ok by (auto simp: events_ok_def intro: event_row_ok_mono counters_after_mono)
  moreover have "event_row_ok (counters_after (e_source r) n C) r"
    using assms next_id_pos [of e_id rows] by (auto simp: event_row_ok_def counters_after_def split: option.split if_splits)
  moreover have "sorted_wrt (<) (map e_id (rows @ [r]))"
    using ok assms(3) by (intro ascending_snoc_next_id) (simp_all add: events_ok_def)
  ultimately show ?thesis
    using assms by (auto simp: events_ok_def)
qed

lemma compact_json_obj: "compact_json (JObj kvs) = JObj (sort_key fst (sort_keys_items kvs))"
  by (simp add: compact_json_def)

lemma store_event_ok:
  assumes ok: "ledger_ok s" and fresh: "\<forall>r \<in> set (events s). e_event_id r \<noteq> eid"
    and actor: "if ty = lit ''command'' then actor = Some source \<and> truthy ref else actor = None"
  shows "ledger_ok (snd (store_event source target ty payload seq eid created ra ref actor E s))"
  using ledger_ok_parts(5) [OF ok] fresh
proof (cases rule: store_event_cases [where source = source and seq = seq and target = target
      and ty = ty and payload = payload and created = created and ra = ra and ref = ref
      and actor = actor and E = E])
  case overflow
  with ok show ?thesis by simp
next
  case full
  with ok show ?thesis by simp
next
  case taken
  with ok show ?thesis by simp
next
  case (stored s')
  define row where "row = stored_row source target ty payload seq eid created ra ref actor E s"
  define n where "n = seq_choice source seq s"
  have row: "e_id row = next_id e_id (events s)" "e_event_id row = eid" "e_source row = source"
    "e_seq row = n" "e_type row = ty" "e_auth_actor row = actor" "e_source_ref row = ref"
    "e_payload_json row = JObj (sort_key fst (sort_keys_items payload))"
    by (simp_all add: row_def stored_row_def n_def compact_json_obj)
  have "events_ok (counters_after (e_source row) n (source_counters s)) (events s @ [row])"
    using ledger_ok_parts(5) [OF ok] stored(1,2,3) fresh actor
    by (intro events_ok_store) (simp_all add: row n_def)
  then have "ledger_ok (s\<lparr>events := events s @ [row],
      source_counters := counters_after source n (source_counters s)\<rparr>)"
    using ok by (auto simp: ledger_ok_def row peer_ids_def intro: acks_ok_mono)
  then show ?thesis
    using stored(4,5) by (auto simp: row_def n_def Let_def intro: ledger_ok_audit)
qed

text \<open>
  The outcomes of \<open>insert_event\<close>: bad payload, known event id, rejection, or the
  storing half with the checks passed.
\<close>

definition payload_items :: "json option \<Rightarrow> (pystr \<times> json) list option" where
  "payload_items payload =
     (case (case payload of None \<Rightarrow> JObj [] | Some v \<Rightarrow> if py_true v then v else JObj []) of
        JObj kvs \<Rightarrow> Some kvs | _ \<Rightarrow> None)"

definition rejected ::
    "pystr \<Rightarrow> pystr \<Rightarrow> pystr \<Rightarrow> pystr option \<Rightarrow> string \<Rightarrow> env \<Rightarrow> 'z ledger_scheme \<Rightarrow> 'z ledger_scheme" where
  "rejected source target eid source_ref reason E s =
     audit (Some source) (lit ''command_reject'') source_ref (Some target) (Some eid)
       (lit reason) None (now E 4) s"

lemma insert_event_cases:
  fixes s :: "'z ledger_scheme"
    and source target ty payload seq event_id created_at ra ref token E
  assumes ok: "events_ok (source_counters s) (events s)"
  defines "eid \<equiv> or_str event_id (rnd_uuid E)" and "created \<equiv> or_str created_at (now E 0)"
    and "call \<equiv> insert_event source target ty payload seq event_id created_at ra ref token E s"
  obtains (bad_payload) "payload_items payload = None"
      "call = (Inl (ValueError ''payload must be an object''), s)"
    | (no_ref) kvs where "payload_items payload = Some kvs" "ty = lit ''command''" "\<not> truthy ref"
      "call = (Inl (PermissionError ''command requires source_ref''),
               rejected source target eid ref ''missing_source_ref'' E s)"
    | (known) kvs row where "payload_items payload = Some kvs" "ty = lit ''command'' \<longrightarrow> truthy ref"
      "row \<in> set (events s)" "e_event_id row = eid"
      "call = (verify_event_identity (row_to_event row) source target ty, s)"
    | (bad_token) kvs where "payload_items payload = Some kvs" "ty = lit ''command''" "truthy ref"
      "\<forall>r \<in> set (events s). e_event_id r \<noteq> eid" "\<not> validate_token source token (now E 1) s"
      "call = (Inl (PermissionError ''command token rejected''),
               rejected source target eid ref ''invalid_token'' E s)"
    | (no_grant) kvs where "payload_items payload = Some kvs" "ty = lit ''command''" "truthy ref"
      "\<forall>r \<in> set (events s). e_event_id r \<noteq> eid" "validate_token source token (now E 1) s"
      "\<not> command_allowed source target kvs (now E 2) s"
      "call = (Inl (PermissionError ''command grant rejected''),
               rejected source target eid ref ''grant_denied'' E s)"
    | (no_target) kvs where "payload_items payload = Some kvs" "ty \<noteq> lit ''command''"
      "\<forall>r \<in> set (events s). e_event_id r \<noteq> eid" "\<not> target_acl_allows source target s"
      "call = (Inl (PermissionError ''target not allowed''), s)"
    | (command) kvs where "payload_items payload = Some kvs" "ty = lit ''command''" "truthy ref"
      "\<forall>r \<in> set (events s). e_event_id r \<noteq> eid" "validate_token source token (now E 1) s"
      "command_allowed source target kvs (now E 2) s"
      "call = store_event source target ty kvs seq eid created ra ref (Some source) E s"
    | (message) kvs where "payload_items payload = Some kvs" "ty \<noteq> lit ''command''"
      "\<forall>r \<in> set (events s). e_event_id r \<noteq> eid" "target_acl_allows source target s"
      "call = store_event source target ty kvs seq eid created ra ref None E s"
proof (cases "payload_items payload")
  case None
  then show thesis
    using bad_payload
    by (simp add: call_def insert_event_def payload_items_def split: option.splits json.splits if_splits)
next
  case (Some kvs)
  then have norm: "(case payload of None \<Rightarrow> JObj [] | Some v \<Rightarrow> if py_true v then v else JObj []) = JObj kvs"
    by (simp add: payload_items_def split: json.splits)
  have body: "call =
      (if ty = lit ''command'' \<and> \<not> truthy ref
       then (Inl (PermissionError ''command requires source_ref''),
             rejected source target eid ref ''missing_source_ref'' E s)
       else case find (\<lambda>r. e_event_id r = eid) (events s) of
         Some row \<Rightarrow>
              ((case get_event_by_id (e_id row) s of Inl e \<Rightarrow> Inl e
                | Inr ev \<Rightarrow> verify_event_identity ev source target ty), s)
       | None \<Rightarrow>
          if ty = lit ''command'' then
            if \<not> validate_token source token (now E 1) s
            then (Inl (PermissionError ''command token rejected''),
                  rejected source target eid ref ''invalid_token'' E s)
            else if \<not> command_allowed source target kvs (now E 2) s
            then (Inl (PermissionError ''command grant rejected''),
                  rejected source target eid ref ''grant_denied'' E s)
            else store_event source target ty kvs seq eid created ra ref (Some source) E s
          else if \<not> target_acl_allows source target s
          then (Inl (PermissionError ''target not allowed''), s)
          else store_event source target ty kvs seq eid created ra ref None E s)"
    unfolding call_def insert_event_def norm json.case Let_def rejected_def eid_def created_def
    by (rule refl)
  show thesis
  proof (cases "ty = lit ''command'' \<and> \<not> truthy ref")
    case True
    then show thesis using no_ref [OF Some] body by simp
  next
    case ref: False
    show thesis
    proof (cases "find (\<lambda>r. e_event_id r = eid) (events s)")
      case found: (Some row)
      then have row: "row \<in> set (events s)" "e_event_id row = eid" by (auto dest: find_SomeD)
      have "find (\<lambda>r. e_id r = e_id row) (events s) = Some row"
        using ok row(1) ascending_distinct [of e_id "events s"]
        by (simp add: find_Some_iff_unique events_ok_def)
      then have "call = (verify_event_identity (row_to_event row) source target ty, s)"
        unfolding body using ref found by (auto simp: get_event_by_id_def)
      then show thesis using known [OF Some _ row] ref by blast
    next
      case none: None
      then have fresh: "\<forall>r \<in> set (events s). e_event_id r \<noteq> eid" by (simp add: find_None)
      show thesis
      proof (cases "ty = lit ''command''")
        case True
        with ref have r: "truthy ref" by simp
        show thesis
          using bad_token [OF Some True r fresh] no_grant [OF Some True r fresh]
            command [OF Some True r fresh] none ref True by (auto simp: body)
      next
        case False
        then show thesis
          using no_target [OF Some False fresh] message [OF Some False fresh] none by (auto simp: body)
      qed
    qed
  qed
qed

lemma insert_event_ok:
  assumes "ledger_ok s"
  shows "ledger_ok (snd (insert_event source target ty payload seq event_id created_at ra ref token E s))"
  by (cases rule: insert_event_cases [OF ledger_ok_parts(5) [OF assms],
        of payload source target ty seq event_id created_at ra ref token E])
    (simp_all add: assms rejected_def ledger_ok_audit store_event_ok)


section \<open>Start-up migrations\<close>

lemma migrate_peer_token_ok:
  assumes "tokens_ok P rows" "p_peer_id p \<in> P"
  shows "tokens_ok P (migrate_peer_token p rows)"
  using assms by (auto simp: migrate_peer_token_def split: option.split intro: tokens_ok_new)

lemma migrate_peer_tokens_ok:
  assumes "ledger_ok s"
  shows "ledger_ok (migrate_peer_tokens s)"
proof -
  have "tokens_ok P rows \<Longrightarrow> p_peer_id ` set ps \<subseteq> P \<Longrightarrow> tokens_ok P (fold migrate_peer_token ps rows)"
    for P ps rows
    by (induction ps arbitrary: rows) (auto intro: migrate_peer_token_ok)
  from this [OF ledger_ok_parts(2) [OF assms], of "peers s"] show ?thesis
    unfolding migrate_peer_tokens_def by (intro ledger_ok_tokens assms) (simp add: peer_ids_def)
qed

lemma backfill_token_ids_ok:
  "tokens_ok P rows \<Longrightarrow> backfill_token_ids todo rows = Inr rows' \<Longrightarrow> tokens_ok P rows'"
proof (induction todo arbitrary: rows)
  case Nil
  then show ?case by simp
next
  case (Cons row todo)
  define i where "i = legacy_token_id (t_peer_id row) (t_token_hash row)"
  let ?f = "\<lambda>r. r\<lparr>t_token_id := Some i, t_device_label :=
              (case t_device_label r of None \<Rightarrow> Some (lit ''legacy'') | Some l \<Rightarrow> Some l)\<rparr>"
  let ?rows = "upd_where (\<lambda>r. t_id r = t_id row) ?f rows"
  have free: "\<forall>r \<in> set rows. t_id r = t_id row \<or> t_token_id r \<noteq> Some i"
    and rest: "backfill_token_ids todo ?rows = Inr rows'"
    using Cons.prems(2) by (auto simp: Let_def i_def split: if_splits)
  have "map t_id ?rows = map t_id rows" "map t_token_hash ?rows = map t_token_hash rows"
    "map t_peer_id ?rows = map t_peer_id rows"
    by (rule map_upd_where, simp)+
  moreover from this have "t_peer_id ` set ?rows = t_peer_id ` set rows" by (metis set_map)
  moreover have "token_ids_ok ?rows"
    using Cons.prems(1) free by (auto simp: tokens_ok_def token_ids_ok_def set_upd_where)
  ultimately have "tokens_ok P ?rows" using Cons.prems(1) by (simp add: tokens_ok_def)
  then show ?case using rest by (rule Cons.IH)
qed

lemma ensure_token_schema_ok: "ledger_ok s \<Longrightarrow> ledger_ok (snd (ensure_token_schema s))"
  unfolding ensure_token_schema_def
  by (auto split: sum.split intro: ledger_ok_tokens backfill_token_ids_ok [OF ledger_ok_parts(2)])


section \<open>The store as a transition system\<close>

text \<open>
  One step per mutating method of \<open>AtalkStore\<close>, with any arguments and any
  environment; the methods that only read are not steps.
\<close>

inductive ledger_step :: "env \<Rightarrow> 'z ledger_scheme \<Rightarrow> 'z ledger_scheme \<Rightarrow> bool" for E where
  step_set_target_acl: "ledger_step E s (snd (set_target_acl p targets E s))"
| step_clear_target_acl: "ledger_step E s (clear_target_acl p s)"
| step_add_peer: "ledger_step E s (snd (add_peer p token role platform endpoint dc timeout E s))"
| step_rotate_peer_token: "ledger_step E s (snd (rotate_peer_token p token grace E s))"
| step_add_device_token: "ledger_step E s (snd (add_device_token p label token scope actor E s))"
| step_revoke_device_token: "ledger_step E s (snd (revoke_device_token token_id actor E s))"
| step_add_grant: "ledger_step E s (snd (add_grant grantor grantee ct gscope valid_until E s))"
| step_revoke_grant: "ledger_step E s (snd (revoke_grant grant_id E s))"
| step_insert_event: "ledger_step E s
    (snd (insert_event source target ty payload seq event_id created_at ra ref token E s))"
| step_ack: "ledger_step E s (snd (ack event_id agent ack_type detail E s))"
| step_audit: "ledger_step E s (audit actor' action ref target' event_id' result detail (now E 0) s)"
| step_write_probe: "ledger_step E s (write_probe E s)"
| step_migrate_peer_tokens: "ledger_step E s (migrate_peer_tokens s)"
| step_ensure_token_schema: "ledger_step E s (snd (ensure_token_schema s))"

inductive_cases ledger_stepE: "ledger_step E s s'"

definition ledger_next :: "'z ledger_scheme \<Rightarrow> 'z ledger_scheme \<Rightarrow> bool" where
  "ledger_next s s' = (\<exists>E. ledger_step E s s')"

lemmas ledger_ops_ok = set_target_acl_ok clear_target_acl_ok add_peer_ok rotate_peer_token_ok
  add_device_token_ok revoke_device_token_ok add_grant_ok revoke_grant_ok insert_event_ok ack_ok
  ledger_ok_audit write_probe_ok migrate_peer_tokens_ok ensure_token_schema_ok

lemma ledger_step_ok: "ledger_step E s s' \<Longrightarrow> ledger_ok s \<Longrightarrow> ledger_ok s'"
  by (induction rule: ledger_step.induct) (simp_all add: ledger_ops_ok)

interpretation ledger_sys: invariant_system ledger_next ledger_ok
  by unfold_locales (auto simp: ledger_next_def intro: ledger_step_ok)

end
