(* ===== verification/Ledger_Props.thy ===== *)
theory Ledger_Props
  imports Ledger_Inv
begin

text \<open>
  What the ledger promises its callers: the event log only grows and never changes,
  event ids are idempotency keys that do not leak, sequence numbers never collide,
  commands are stored only with token and grant, restricted peers reach only their
  targets, an inbox walked page by page is complete, an applied acknowledgement
  takes the event out of one inbox, and a revoked or expired token stays dead.
\<close>

section \<open>What each operation leaves alone\<close>

lemma insert_acl_targets_frame [simp]:
  "events (snd (insert_acl_targets p t ts s)) = events s"
  "source_counters (snd (insert_acl_targets p t ts s)) = source_counters s"
  "acks (snd (insert_acl_targets p t ts s)) = acks s"
  "peers (snd (insert_acl_targets p t ts s)) = peers s"
  "peer_tokens (snd (insert_acl_targets p t ts s)) = peer_tokens s"
  "peer_target_acl (snd (insert_acl_targets p t ts s)) = peer_target_acl s"
  by (induction ts arbitrary: s) simp_all

text \<open>Operations other than \<open>insert_event\<close> leave the event log and the counters alone.\<close>

lemma log_frame [simp]:
  "events (snd (set_target_acl p targets E s)) = events s"
  "source_counters (snd (set_target_acl p targets E s)) = source_counters s"
  "events (clear_target_acl p s) = events s"
  "source_counters (clear_target_acl p s) = source_counters s"
  "events (snd (add_peer p token role platform endpoint dc timeout E s)) = events s"
  "source_counters (snd (add_peer p token role platform endpoint dc timeout E s)) = source_counters s"
  "events (snd (rotate_peer_token p token grace E s)) = events s"
  "source_counters (snd (rotate_peer_token p token grace E s)) = source_counters s"
  "events (snd (add_device_token p label token scope actor E s)) = events s"
  "source_counters (snd (add_device_token p label token scope actor E s)) = source_counters s"
  "events (snd (revoke_device_token token_id actor E s)) = events s"
  "source_counters (snd (revoke_device_token token_id actor E s)) = source_counters s"
  "events (snd (add_grant grantor grantee ct gscope valid_until E s)) = events s"
  "source_counters (snd (add_grant grantor grantee ct gscope valid_until E s)) = source_counters s"
  "events (snd (revoke_grant grant_id E s)) = events s"
  "source_counters (snd (revoke_grant grant_id E s)) = source_counters s"
  "events (snd (ack event_id agent ack_type detail E s)) = events s"
  "source_counters (snd (ack event_id agent ack_type detail E s)) = source_counters s"
  "events (write_probe E s) = events s"
  "source_counters (write_probe E s) = source_counters s"
  "events (migrate_peer_tokens s) = events s"
  "source_counters (migrate_peer_tokens s) = source_counters s"
  "events (snd (ensure_token_schema s)) = events s"
  "source_counters (snd (ensure_token_schema s)) = source_counters s"
  by (simp_all add: set_target_acl_def clear_target_acl_def add_peer_def rotate_peer_token_def
      add_device_token_def revoke_device_token_def add_grant_def revoke_grant_def ack_def
      write_probe_def migrate_peer_tokens_def ensure_token_schema_def Let_def
      split: option.split sum.split)

text \<open>Operations that leave tokens alone.\<close>

lemma token_frame [simp]:
  "peer_tokens (snd (set_target_acl p targets E s)) = peer_tokens s"
  "peer_tokens (clear_target_acl p s) = peer_tokens s"
  "peer_tokens (snd (add_grant grantor grantee ct gscope valid_until E s)) = peer_tokens s"
  "peer_tokens (snd (revoke_grant grant_id E s)) = peer_tokens s"
  "peer_tokens (snd (ack event_id agent ack_type detail E s)) = peer_tokens s"
  "peer_tokens (write_probe E s) = peer_tokens s"
  by (simp_all add: set_target_acl_def clear_target_acl_def add_grant_def revoke_grant_def ack_def
      write_probe_def Let_def)


section \<open>The event log\<close>

text \<open>The rights that the storing of a row needs.\<close>

definition command_authority :: "env \<Rightarrow> 'z ledger_scheme \<Rightarrow> event_row \<Rightarrow> bool" where
  "command_authority E s r = (truthy (e_source_ref r) \<and> e_auth_actor r = Some (e_source r) \<and>
     (\<exists>token. validate_token (e_source r) token (now E 1) s) \<and>
     (\<exists>payload. e_payload_json r = compact_json (JObj payload) \<and>
        command_allowed (e_source r) (e_target r) payload (now E 2) s))"

definition may_store :: "env \<Rightarrow> 'z ledger_scheme \<Rightarrow> event_row \<Rightarrow> bool" where
  "may_store E s r =
     (if e_type r = lit ''command'' then command_authority E s r
      else e_auth_actor r = None \<and> target_acl_allows (e_source r) (e_target r) s)"

definition log_extends ::
    "env \<Rightarrow> event_row \<Rightarrow> 'z ledger_scheme \<Rightarrow> 'z ledger_scheme \<Rightarrow> bool" where
  "log_extends E row s s' = (events s' = events s @ [row] \<and>
     source_counters s' = counters_after (e_source row) (e_seq row) (source_counters s) \<and>
     may_store E s row \<and> e_id row = next_id e_id (events s) \<and>
     (\<forall>r \<in> set (events s). e_event_id r \<noteq> e_event_id row) \<and>
     (\<forall>r \<in> set (events s). e_source r = e_source row \<longrightarrow> e_seq r \<noteq> e_seq row))"

lemma stored_row_sel [simp]:
  "e_id (stored_row source target ty payload seq eid created ra ref actor E s) = next_id e_id (events s)"
  "e_event_id (stored_row source target ty payload seq eid created ra ref actor E s) = eid"
  "e_source (stored_row source target ty payload seq eid created ra ref actor E s) = source"
  "e_target (stored_row source target ty payload seq eid created ra ref actor E s) = target"
  "e_type (stored_row source target ty payload seq eid created ra ref actor E s) = ty"
  "e_seq (stored_row source target ty payload seq eid created ra ref actor E s) = seq_choice source seq s"
  "e_payload_json (stored_row source target ty payload seq eid created ra ref actor E s) =
     compact_json (JObj payload)"
  "e_source_ref (stored_row source target ty payload seq eid created ra ref actor E s) = ref"
  "e_auth_actor (stored_row source target ty payload seq eid created ra ref actor E s) = actor"
  "e_requires_ack (stored_row source target ty payload seq eid created ra ref actor E s) =
     (if ra then 1 else 0)"
  "e_created_at (stored_row source target ty payload seq eid created ra ref actor E s) = created"
  by (simp_all add: stored_row_def)

lemma row_to_event_sel [simp]:
  "ev_id (row_to_event r) = e_id r" "ev_event_id (row_to_event r) = e_event_id r"
  "ev_source (row_to_event r) = e_source r" "ev_target (row_to_event r) = e_target r"
  "ev_type (row_to_event r) = e_type r" "ev_seq (row_to_event r) = e_seq r"
  "ev_payload (row_to_event r) = e_payload_json r"
  by (simp_all add: row_to_event_def)

lemma verify_row:
  "verify_event_identity (row_to_event r) source target ty =
     (if e_source r = source \<and> e_target r = target \<and> e_type r = ty then Inr (row_to_event r)
      else Inl (EventIdConflict (e_event_id r)))"
  by (simp add: verify_event_identity_def)

text \<open>
  \<open>insert_event\<close> either leaves the log alone (an error, or the stored event of a known
  id) or appends one row with the request's identity and returns it.
\<close>

lemma insert_event_log:
  fixes s :: "'z ledger_scheme"
    and source target ty payload seq event_id created_at ra ref token E
  assumes ok: "ledger_ok s"
  defines "call \<equiv> insert_event source target ty payload seq event_id created_at ra ref token E s"
  obtains (unchanged) "events (snd call) = events s" "source_counters (snd call) = source_counters s"
      "\<And>ev. fst call = Inr ev \<Longrightarrow> snd call = s \<and> (\<exists>row \<in> set (events s). ev = row_to_event row \<and>
         e_event_id row = or_str event_id (rnd_uuid E) \<and> e_source row = source \<and>
         e_target row = target \<and> e_type row = ty)"
    | (stored) kvs where "payload_items payload = Some kvs"
      "log_extends E (stored_row source target ty kvs seq (or_str event_id (rnd_uuid E))
           (or_str created_at (now E 0)) ra ref (if ty = lit ''command'' then Some source else None) E s)
         s (snd call)"
      "fst call = Inr (row_to_event (stored_row source target ty kvs seq (or_str event_id (rnd_uuid E))
           (or_str created_at (now E 0)) ra ref (if ty = lit ''command'' then Some source else None) E s))"
proof -
  note ev_ok = ledger_ok_parts(5) [OF ok]
  define eid where "eid = or_str event_id (rnd_uuid E)"
  define created where "created = or_str created_at (now E 0)"
  have store: thesis
    if "payload_items payload = Some kvs" and fresh: "\<forall>r \<in> set (events s). e_event_id r \<noteq> eid"
      and call: "call = store_event source target ty kvs seq eid created ra ref actor E s"
      and actor: "actor = (if ty = lit ''command'' then Some source else None)"
      and auth: "may_store E s (stored_row source target ty kvs seq eid created ra ref actor E s)"
    for kvs actor
    using ev_ok fresh
  proof (cases rule: store_event_cases [where source = source and seq = seq and target = target
        and ty = ty and payload = kvs and created = created and ra = ra and ref = ref
        and actor = actor and E = E])
    case overflow
    then show thesis using unchanged by (simp add: call)
  next
    case full
    then show thesis using unchanged by (simp add: call)
  next
    case taken
    then show thesis using unchanged by (simp add: call)
  next
    case s': (stored s')
    show thesis
      by (rule stored [OF that(1)])
        (use s' auth fresh in \<open>simp_all add: log_extends_def call actor eid_def created_def Let_def\<close>)
  qed
  have keep: thesis
    if "isl (fst call)" "events (snd call) = events s" "source_counters (snd call) = source_counters s"
    using unchanged that by (auto simp: isl_def)
  show thesis
    using ev_ok
  proof (cases rule: insert_event_cases [where source = source and target = target and ty = ty
        and payload = payload and seq = seq and event_id = event_id and created_at = created_at
        and ra = ra and ref = ref and token = token and E = E])
    case (known kvs row)
    then show thesis
      using unchanged by (auto simp: call_def verify_row split: if_splits)
  next
    case (command kvs)
    then show thesis
      using store [of kvs "Some source"]
      by (auto simp: call_def eid_def created_def may_store_def command_authority_def)
  next
    case (message kvs)
    then show thesis
      using store [of kvs None] by (auto simp: call_def eid_def created_def may_store_def)
  next
    case bad_payload
    then show thesis by (intro keep) (simp_all add: call_def)
  next
    case no_ref
    then show thesis by (intro keep) (simp_all add: call_def rejected_def)
  next
    case bad_token
    then show thesis by (intro keep) (simp_all add: call_def rejected_def)
  next
    case no_grant
    then show thesis by (intro keep) (simp_all add: call_def rejected_def)
  next
    case no_target
    then show thesis by (intro keep) (simp_all add: call_def)
  qed
qed

lemma step_log:
  assumes "ledger_step E s s'" "ledger_ok s"
  shows "(events s' = events s \<and> source_counters s' = source_counters s) \<or> (\<exists>row. log_extends E row s s')"
  using assms(1)
proof (cases rule: ledger_step.cases)
  case (step_insert_event source target ty payload seq event_id created_at ra ref token)
  show ?thesis
    using assms(2)
    by (cases rule: insert_event_log [where source = source and target = target and ty = ty
          and payload = payload and seq = seq and event_id = event_id and created_at = created_at
          and ra = ra and ref = ref and token = token and E = E])
      (auto simp: step_insert_event)
qed simp_all


text \<open>A later log is the earlier one with rows appended, and counters never go back.\<close>

definition log_le :: "'z ledger_scheme \<Rightarrow> 'z ledger_scheme \<Rightarrow> bool" where
  "log_le s s' = (prefix (events s) (events s') \<and>
     (\<forall>k c. source_counters s k = Some c \<longrightarrow> (\<exists>d. source_counters s' k = Some d \<and> c \<le> d)))"

lemma log_le_refl: "log_le x x"
  by (simp add: log_le_def)

lemma log_le_trans: "log_le x y \<Longrightarrow> log_le y z \<Longrightarrow> log_le x z"
  unfolding log_le_def by (meson order_trans prefix_order.trans)

lemma log_le_step:
  assumes "ledger_ok s" "ledger_next s s'"
  shows "log_le s s'"
proof -
  obtain E where "ledger_step E s s'" using assms(2) by (auto simp: ledger_next_def)
  from step_log [OF this assms(1)] show ?thesis
    by (auto simp: log_le_def log_extends_def counters_after_mono)
qed

lemma log_le_steps: "ledger_ok s \<Longrightarrow> ledger_next\<^sup>*\<^sup>* s s' \<Longrightarrow> log_le s s'"
  by (rule ledger_sys.rel_steps [where R = log_le])
    (auto intro: log_le_trans log_le_step simp: log_le_refl)

lemma log_mem_steps:
  "ledger_ok s \<Longrightarrow> ledger_next\<^sup>*\<^sup>* s s' \<Longrightarrow> r \<in> set (events s) \<Longrightarrow> r \<in> set (events s')"
  using log_le_steps by (auto simp: log_le_def dest: set_mono_prefix)

text \<open>A known event id is answered from the log, whatever else the request says.\<close>

lemma insert_known:
  assumes "ledger_ok s" "row \<in> set (events s)" "e_event_id row = eid" "eid \<noteq> []"
    and "payload_items payload \<noteq> None" "ty = lit ''command'' \<longrightarrow> truthy ref"
  shows "insert_event source target ty payload seq (Some eid) created_at ra ref token E s =
     (verify_event_identity (row_to_event row) source target ty, s)"
  using ledger_ok_parts(5) [OF assms(1)]
proof (cases rule: insert_event_cases [where source = source and target = target and ty = ty
      and payload = payload and seq = seq and event_id = "Some eid" and created_at = created_at
      and ra = ra and ref = ref and token = token and E = E])
  case (known kvs row')
  have "row' = row"
    using ledger_ok_parts(5) [OF assms(1)] known(3,4) assms(2,3,4)
    by (auto simp: events_ok_def dest: eq_key_imp_eq_value [of "map (\<lambda>r. (e_event_id r, r)) (events s)"]
        simp: distinct_map inj_on_def)
  with known show ?thesis by simp
qed (use assms in auto)

section \<open>A concrete run\<close>

text \<open>A message from \<open>a\<close> to \<open>b\<close> stored in a fresh database, for the concrete instances below.\<close>

definition demo_env :: env where
  "demo_env = \<lparr>clk = (\<lambda>_. 63900000000000000), rnd_token = lit ''tok'', rnd_uuid = lit ''uuid''\<rparr>"

definition demo_row :: event_row where
  "demo_row = \<lparr>e_id = 1, e_event_id = lit ''m1'', e_source = lit ''a'', e_target = lit ''b'',
     e_type = lit ''message'', e_seq = 1, e_created_at = now demo_env 0,
     e_stored_at = now demo_env 3, e_payload_json = JObj [], e_requires_ack = 1,
     e_source_ref = None, e_auth_actor = None\<rparr>"

definition demo_ledger :: ledger where
  "demo_ledger = init_ledger\<lparr>events := [demo_row], source_counters := [lit ''a'' \<mapsto> 1]\<rparr>"

lemma demo_insert:
  "insert_event (lit ''a'') (lit ''b'') (lit ''message'') None None (Some (lit ''m1'')) None True
     None None demo_env init_ledger = (Inr (row_to_event demo_row), demo_ledger)"
  by (simp add: insert_event_def store_event_def init_ledger_def demo_ledger_def demo_row_def
      alloc_seq_def next_seq_def event_conflict_def raise_counter_def get_event_by_id_def
      target_acl_allows_def fits64_def next_id_def compact_json_def Let_def)

lemma demo_step: "ledger_next init_ledger demo_ledger"
  unfolding ledger_next_def
  using step_insert_event [of demo_env init_ledger "lit ''a''" "lit ''b''" "lit ''message''" None None
      "Some (lit ''m1'')" None True None None]
  by (auto simp: demo_insert)

lemma demo_reachable: "ledger_next\<^sup>*\<^sup>* init_ledger demo_ledger"
  using demo_step by (rule r_into_rtranclp)

lemma demo_ok: "ledger_ok demo_ledger"
  using demo_reachable ledger_ok_init by (rule ledger_sys.inv_steps)


text \<open>
  Two peers; \<open>a\<close> holds a token, may send only to \<open>b\<close>, and \<open>b\<close> has granted it the
  command \<open>run\<close>.
\<close>

definition demo_peer :: "string \<Rightarrow> peer_row" where
  "demo_peer p = \<lparr>p_peer_id = lit p, p_token_hash = None, p_role = None, p_platform = None,
     p_endpoint = None, p_delivery_class = lit ''normal'', p_ack_timeout_sec = 180,
     p_created_at = now demo_env 0, p_revoked_at = None\<rparr>"

definition demo_token :: token_row where
  "demo_token = \<lparr>t_id = 1, t_peer_id = lit ''a'', t_token_hash = token_hash (lit ''tok''),
     t_token_id = Some (lit ''t1''), t_device_label = Some (lit ''phone''), t_scope = lit ''full'',
     t_created_at = now demo_env 0, t_grace_until = None, t_revoked_at = None\<rparr>"

definition demo_grant :: grant_row where
  "demo_grant = \<lparr>g_id = 1, g_grantor = lit ''b'', g_grantee = lit ''a'', g_command_type = lit ''run'',
     g_scope_json = [], g_granted_at = now demo_env 0, g_valid_until = None, g_revoked_at = None\<rparr>"

definition demo_bus :: ledger where
  "demo_bus = init_ledger\<lparr>peers := [demo_peer ''a'', demo_peer ''b''], peer_tokens := [demo_token],
     peer_grants := [demo_grant],
     peer_target_acl := [\<lparr>l_peer_id = lit ''a'', l_created_at = now demo_env 0, l_updated_at = now demo_env 0\<rparr>],
     peer_target_acl_targets :=
       [\<lparr>lt_peer_id = lit ''a'', lt_target_peer = lit ''b'', lt_created_at = now demo_env 0\<rparr>]\<rparr>"

lemmas demo_defs = demo_bus_def demo_peer_def demo_token_def demo_grant_def init_ledger_def

lemma demo_bus_events [simp]: "events demo_bus = []"
  by (simp add: demo_defs)

lemma demo_bus_ok: "ledger_ok demo_bus"
  by (simp add: demo_defs ledger_ok_def peers_ok_def tokens_ok_def token_ids_ok_def grants_ok_def
      acl_ok_def events_ok_def acks_ok_def audit_ok_def peer_ids_def)

definition demo_payload :: "(pystr \<times> json) list" where
  "demo_payload = [(lit ''op'', JStr (lit ''run''))]"

definition demo_command_call :: "event res \<times> ledger" where
  "demo_command_call = insert_event (lit ''a'') (lit ''b'') (lit ''command'') (Some (JObj demo_payload)) None
     (Some (lit ''m1'')) None True (Some (lit ''ref'')) (Some (lit ''tok'')) demo_env demo_bus"

definition demo_command :: event_row where
  "demo_command = demo_row\<lparr>e_type := lit ''command'', e_payload_json := JObj demo_payload,
     e_source_ref := Some (lit ''ref''), e_auth_actor := Some (lit ''a'')\<rparr>"

lemma command_op_demo: "command_op demo_payload = lit ''run''"
  by (simp add: command_op_def demo_payload_def strip_def lit_def is_space_def of_char_def)

lemma demo_command_stored: "events (snd demo_command_call) = [demo_command]"
proof -
  have auth: "validate_token (lit ''a'') (Some (lit ''tok'')) ts demo_bus"
    "command_allowed (lit ''a'') (lit ''b'') demo_payload ts demo_bus" for ts
    by (simp_all add: demo_defs validate_token_def token_scope_def token_live_def command_allowed_def
        command_op_demo scope_matches_def Let_def)
  have bus: "events demo_bus = []" "source_counters demo_bus = Map.empty"
    by (simp_all add: demo_defs)
  have "compact_json (JObj demo_payload) = JObj demo_payload" "demo_payload \<noteq> []"
    by (simp_all add: compact_json_def demo_payload_def)
  then show ?thesis
    using auth [of "now demo_env 1"] auth [of "now demo_env 2"]
    by (simp add: demo_command_call_def insert_event_def store_event_def bus demo_row_def
        alloc_seq_def next_seq_def event_conflict_def raise_counter_def fits64_def next_id_def Let_def
        demo_command_def)
qed

lemma demo_message_stored:
  "events (snd (insert_event (lit ''a'') (lit ''b'') (lit ''message'') None None (Some (lit ''m1'')) None True
     None None demo_env demo_bus)) = [demo_row]"
  by (simp add: insert_event_def store_event_def demo_defs demo_row_def
      alloc_seq_def next_seq_def event_conflict_def raise_counter_def get_event_by_id_def
      target_acl_allows_def fits64_def next_id_def compact_json_def Let_def)


section \<open>Properties\<close>

text \<open>
  C4: every state that the methods of the store can reach from a fresh database, in any
  order and with any arguments and clock readings, satisfies all constraints of the schema
  and the invariants of the code: unique event ids, unique (source, seq) pairs at most the
  counter of their source, unique tokens, valid references, and an authenticated actor on
  exactly the commands.
\<close>

theorem reachable_ledger_ok:
  assumes "ledger_next\<^sup>*\<^sup>* init_ledger s"
  shows "ledger_ok s"
  using assms ledger_ok_init by (rule ledger_sys.inv_steps)

theorem reachable_ledger_ok_witness: "ledger_ok demo_ledger"
  by (rule reachable_ledger_ok) (rule demo_reachable)

text \<open>
  C7: the event log is append-only and a stored event never changes: in every later state
  the log is the earlier log followed by new rows, the counters of the sources have not
  decreased, and the event read back under an event id is the one that was stored.
\<close>

theorem event_log_append_only:
  assumes "ledger_ok s" "ledger_next\<^sup>*\<^sup>* s s'"
  shows "(\<exists>new. events s' = events s @ new) \<and>
    (\<forall>k c. source_counters s k = Some c \<longrightarrow> (\<exists>d. source_counters s' k = Some d \<and> c \<le> d)) \<and>
    (\<forall>eid ev. get_event eid s = Inr ev \<longrightarrow> get_event eid s' = Inr ev)"
proof -
  have le: "log_le s s'" using assms by (rule log_le_steps)
  then obtain new where new: "events s' = events s @ new" by (auto simp: log_le_def prefix_def)
  have "get_event eid s' = Inr ev" if "get_event eid s = Inr ev" for eid ev
    using that by (auto simp: get_event_def new find_append split: option.splits)
  with le new show ?thesis by (auto simp: log_le_def)
qed

theorem event_log_append_only_witness:
  "\<exists>new. events demo_ledger = events init_ledger @ new"
  using event_log_append_only [OF ledger_ok_init demo_reachable] by blast

text \<open>
  C2: an event id is an idempotency key.  Once a request has been answered with an event, a
  request with the same event id, source, target and type, sent at any later time and with any
  other arguments that pass the precondition of commands, returns the same event and
  changes nothing.
\<close>

theorem insert_event_idempotent:
  assumes "ledger_ok s"
    and "insert_event source target ty payload seq (Some eid) created_at ra ref token E s = (Inr ev, s')"
    and "eid \<noteq> []" and "ledger_next\<^sup>*\<^sup>* s' s''"
    and "payload_items payload2 \<noteq> None" "ty = lit ''command'' \<longrightarrow> truthy ref2"
  shows "insert_event source target ty payload2 seq2 (Some eid) created_at2 ra2 ref2 token2 E2 s'' =
     (Inr ev, s'')"
proof -
  obtain row where row: "row \<in> set (events s')" "ev = row_to_event row" "e_event_id row = eid"
      "e_source row = source" "e_target row = target" "e_type row = ty"
    using assms(1)
  proof (cases rule: insert_event_log [where source = source and target = target and ty = ty
        and payload = payload and seq = seq and event_id = "Some eid" and created_at = created_at
        and ra = ra and ref = ref and token = token and E = E])
    case unchanged
    then show thesis using that assms(2,3) by auto
  next
    case (stored kvs)
    show thesis
      by (rule that) (use stored assms(2,3) in \<open>auto simp: log_extends_def\<close>)
  qed
  have ok': "ledger_ok s'"
    using insert_event_ok [OF assms(1)] assms(2) by (metis snd_conv)
  have "insert_event source target ty payload2 seq2 (Some eid) created_at2 ra2 ref2 token2 E2 s'' =
     (verify_event_identity (row_to_event row) source target ty, s'')"
    using ledger_sys.inv_steps [OF assms(4) ok'] log_mem_steps [OF ok' assms(4) row(1)]
    by (rule insert_known) (use assms row in auto)
  then show ?thesis by (simp add: verify_row row)
qed

theorem insert_event_idempotent_witness:
  "insert_event (lit ''a'') (lit ''b'') (lit ''message'') (Some (JObj [(lit ''text'', JStr (lit ''hi''))]))
     (Some 7) (Some (lit ''m1'')) None False None None demo_env demo_ledger =
   (Inr (row_to_event demo_row), demo_ledger)"
  by (rule insert_event_idempotent [OF ledger_ok_init demo_insert])
    (simp_all add: payload_items_def)

text \<open>
  C8: a request that reuses the event id of an event with another source, target or type is
  refused with \<open>EventIdConflict\<close>; the answer carries nothing but the id the caller sent, and
  nothing is written.
\<close>

theorem event_id_conflict_refused:
  assumes "ledger_ok s" "row \<in> set (events s)" "e_event_id row = eid" "eid \<noteq> []"
    and "(e_source row, e_target row, e_type row) \<noteq> (source, target, ty)"
    and "payload_items payload \<noteq> None" "ty = lit ''command'' \<longrightarrow> truthy ref"
  shows "insert_event source target ty payload seq (Some eid) created_at ra ref token E s =
     (Inl (EventIdConflict eid), s)"
  using insert_known [OF assms(1-4,6,7)] assms(3,5) by (auto simp: verify_row)

theorem event_id_conflict_refused_witness:
  "insert_event (lit ''c'') (lit ''b'') (lit ''message'') None None (Some (lit ''m1'')) None True
     None None demo_env demo_ledger = (Inl (EventIdConflict (lit ''m1'')), demo_ledger)"
  by (rule event_id_conflict_refused [OF demo_ok, of demo_row])
    (simp_all add: demo_ledger_def demo_row_def payload_items_def)

text \<open>The number chosen by the store is above every number of the source.\<close>

lemma auto_seq_above:
  assumes "events_ok (source_counters s) (events s)" "r \<in> set (events s)" "e_source r = source"
  shows "e_seq r < seq_choice source None s"
  using assms by (auto simp: events_ok_def event_row_ok_def split: option.splits)

lemma store_event_auto:
  assumes ok: "events_ok (source_counters s) (events s)"
    and fresh: "\<forall>r \<in> set (events s). e_event_id r \<noteq> eid"
  shows "fst (store_event source target ty payload None eid created ra ref actor E s) \<noteq>
    Inl (IntegrityError c)"
  using ok fresh
  by (cases rule: store_event_cases [where source = source and seq = None and target = target
        and ty = ty and payload = payload and created = created and ra = ra and ref = ref
        and actor = actor and E = E])
    (use auto_seq_above [OF ok] in fastforce)+

text \<open>
  C9: the sequence number that the store chooses itself never collides: such a request fails
  with no integrity error, and a newly stored event carries a number larger than every number
  its source has used.
\<close>

theorem auto_seq_never_collides:
  assumes "ledger_ok s"
    and "insert_event source target ty payload None event_id created_at ra ref token E s = (r, s')"
  shows "(\<forall>c. r \<noteq> Inl (IntegrityError c)) \<and>
    (\<forall>row \<in> set (events s') - set (events s).
       r = Inr (row_to_event row) \<and>
       (\<forall>old \<in> set (events s). e_source old = source \<longrightarrow> e_seq old < e_seq row))"
proof
  note ok = ledger_ok_parts(5) [OF assms(1)]
  have r: "r = fst (insert_event source target ty payload None event_id created_at ra ref token E s)"
    and s': "s' = snd (insert_event source target ty payload None event_id created_at ra ref token E s)"
    by (simp_all add: assms(2))
  show "\<forall>c. r \<noteq> Inl (IntegrityError c)"
    unfolding r using ok
    by (cases rule: insert_event_cases [where source = source and target = target and ty = ty
          and payload = payload and seq = None and event_id = event_id and created_at = created_at
          and ra = ra and ref = ref and token = token and E = E])
      (simp_all add: store_event_auto [OF ok] verify_row)
  show "\<forall>row \<in> set (events s') - set (events s). r = Inr (row_to_event row) \<and>
       (\<forall>old \<in> set (events s). e_source old = source \<longrightarrow> e_seq old < e_seq row)"
    using assms(1)
  proof (cases rule: insert_event_log [where source = source and target = target and ty = ty
        and payload = payload and seq = None and event_id = event_id and created_at = created_at
        and ra = ra and ref = ref and token = token and E = E])
    case unchanged
    then show ?thesis by (simp add: s')
  next
    case (stored kvs)
    then show ?thesis
      unfolding r s' log_extends_def
      using auto_seq_above [OF ok] by (auto simp del: seq_choice_simps)
  qed
qed

theorem auto_seq_never_collides_witness:
  "\<forall>c. (Inr (row_to_event demo_row) :: event res) \<noteq> Inl (IntegrityError c)"
  using auto_seq_never_collides [OF ledger_ok_init demo_insert] by blast


lemma validated_token:
  assumes "validate_token source token ts s"
  obtains tok t where "token = Some tok" "tok \<noteq> []" "t \<in> set (peer_tokens s)" "t_peer_id t = source"
    "t_token_hash t = token_hash tok" "token_live ts t"
  using assms by (auto simp: validate_token_def token_scope_def split: option.splits if_splits dest: find_SomeD)

lemma granted_command:
  assumes "command_allowed source target kvs ts s"
  obtains grant where "grant \<in> set (peer_grants s)" "g_grantor grant = target" "g_grantee grant = source"
    "g_command_type grant \<in> {command_op kvs, lit ''*''}" "g_revoked_at grant = None"
    "case g_valid_until grant of None \<Rightarrow> True | Some v \<Rightarrow> ts \<le> v" "scope_matches kvs (g_scope_json grant)"
  using assms by (auto simp: command_allowed_def Let_def split: if_splits)

lemma step_adds_insert:
  assumes "ledger_step E s s'" "events s' \<noteq> events s"
  obtains source target ty payload seq event_id created_at ra ref token
    where "s' = snd (insert_event source target ty payload seq event_id created_at ra ref token E s)"
  using assms by (cases rule: ledger_step.cases) auto

text \<open>
  C1: no operation of the store adds a command to the log without the rights for it.  If a call
  of \<open>insert_event\<close> adds a command, then the token presented in that very call has the hash of
  an unrevoked, unexpired token of the call's source; the call's target has an unrevoked, unexpired
  grant to the source for the command type or for all, whose scope the payload of the call
  matches; the call named a source reference; and the row holds the call's source, target, reference
  and payload, with the source as the authenticated actor.  No other operation of the store adds an
  event.
\<close>

theorem command_needs_token_and_grant:
  assumes "ledger_ok s"
  shows "(insert_event source target ty payload seq event_id created_at ra ref token E s = (r, s') \<and>
      row \<in> set (events s') - set (events s) \<and> e_type row = lit ''command'' \<longrightarrow>
      e_source row = source \<and> e_target row = target \<and> truthy ref \<and> e_source_ref row = ref \<and>
      e_auth_actor row = Some source \<and> r = Inr (row_to_event row) \<and>
      (\<exists>tok t. token = Some tok \<and> tok \<noteq> [] \<and> t \<in> set (peer_tokens s) \<and> t_peer_id t = source \<and>
         t_token_hash t = token_hash tok \<and> \<not> truthy (t_revoked_at t) \<and>
         (case t_grace_until t of None \<Rightarrow> True | Some g \<Rightarrow> g = [] \<or> now E 1 \<le> g)) \<and>
      (\<exists>kvs grant. payload_items payload = Some kvs \<and> e_payload_json row = compact_json (JObj kvs) \<and>
         grant \<in> set (peer_grants s) \<and> g_grantor grant = target \<and> g_grantee grant = source \<and>
         g_command_type grant \<in> {command_op kvs, lit ''*''} \<and> g_revoked_at grant = None \<and>
         (case g_valid_until grant of None \<Rightarrow> True | Some v \<Rightarrow> now E 2 \<le> v) \<and>
         scope_matches kvs (g_scope_json grant))) \<and>
    (ledger_step E s s'' \<and> events s'' \<noteq> events s \<longrightarrow>
      (\<exists>source target ty payload seq event_id created_at ra ref token.
         s'' = snd (insert_event source target ty payload seq event_id created_at ra ref token E s)))"
    (is "(?call \<and> ?added \<and> ?command \<longrightarrow> ?rights) \<and> ?steps")
proof
  show ?steps by (blast elim: step_adds_insert)
  show "?call \<and> ?added \<and> ?command \<longrightarrow> ?rights"
  proof (intro impI, elim conjE)
    assume call: ?call and added: ?added and command: ?command
    note ok = ledger_ok_parts(5) [OF assms]
    show ?rights
      using ok
    proof (cases rule: insert_event_cases [where source = source and target = target and ty = ty
          and payload = payload and seq = seq and event_id = event_id and created_at = created_at
          and ra = ra and ref = ref and token = token and E = E])
      case (command kvs)
      note stored = command
      obtain tok t where t: "token = Some tok" "tok \<noteq> []" "t \<in> set (peer_tokens s)" "t_peer_id t = source"
          "t_token_hash t = token_hash tok" "token_live (now E 1) t"
        using stored(5) by (rule validated_token)
      obtain grant where g: "grant \<in> set (peer_grants s)" "g_grantor grant = target" "g_grantee grant = source"
          "g_command_type grant \<in> {command_op kvs, lit ''*''}" "g_revoked_at grant = None"
          "case g_valid_until grant of None \<Rightarrow> True | Some v \<Rightarrow> now E 2 \<le> v" "scope_matches kvs (g_scope_json grant)"
        using stored(6) by (rule granted_command)
      have "row = stored_row source target ty kvs seq (or_str event_id (rnd_uuid E))
              (or_str created_at (now E 0)) ra ref (Some source) E s \<and> r = Inr (row_to_event row)"
        using ok stored(4)
        by (cases rule: store_event_cases [where source = source and seq = seq and target = target
              and ty = ty and payload = kvs and created = "or_str created_at (now E 0)" and ra = ra and ref = ref
              and actor = "Some source" and E = E])
          (use call added stored(7) in \<open>auto simp: Let_def split: if_splits\<close>)
      moreover have "\<exists>tok t. token = Some tok \<and> tok \<noteq> [] \<and> t \<in> set (peer_tokens s) \<and> t_peer_id t = source \<and>
          t_token_hash t = token_hash tok \<and> \<not> truthy (t_revoked_at t) \<and>
          (case t_grace_until t of None \<Rightarrow> True | Some g \<Rightarrow> g = [] \<or> now E 1 \<le> g)"
        using t unfolding token_live_def by blast
      moreover have "e_payload_json (stored_row source target ty kvs seq (or_str event_id (rnd_uuid E))
          (or_str created_at (now E 0)) ra ref (Some source) E s) = compact_json (JObj kvs)"
        by (rule stored_row_sel)
      ultimately show ?thesis using g stored(1,3) by (intro conjI) (simp_all, blast)
    next
      case (message kvs)
      show ?thesis
        using ok message(3)
        by (cases rule: store_event_cases [where source = source and seq = seq and target = target
              and ty = ty and payload = kvs and created = "or_str created_at (now E 0)" and ra = ra and ref = ref
              and actor = None and E = E])
          (use call added command message(2,5) in \<open>auto simp: Let_def split: if_splits\<close>)
    qed (use call added in \<open>auto simp: rejected_def\<close>)
  qed
qed

theorem command_needs_token_and_grant_witness:
  "e_auth_actor demo_command = Some (lit ''a'') \<and>
   (\<exists>t \<in> set (peer_tokens demo_bus). t_peer_id t = lit ''a'' \<and> t_token_hash t = token_hash (lit ''tok''))"
proof -
  have "insert_event (lit ''a'') (lit ''b'') (lit ''command'') (Some (JObj demo_payload)) None
      (Some (lit ''m1'')) None True (Some (lit ''ref'')) (Some (lit ''tok'')) demo_env demo_bus =
        (fst demo_command_call, snd demo_command_call) \<and>
      demo_command \<in> set (events (snd demo_command_call)) - set (events demo_bus) \<and>
      e_type demo_command = lit ''command''"
    by (simp add: demo_command_stored) (simp add: demo_command_call_def demo_command_def)
  from mp [OF conjunct1 [OF command_needs_token_and_grant [OF demo_bus_ok]] this]
  show ?thesis by (elim conjE exE) (intro conjI bexI; simp)
qed

text \<open>
  C10: a peer under a target restriction cannot get an ordinary event into the log except for a
  target on its list, and never a broadcast.
\<close>

theorem restricted_peer_reaches_only_its_targets:
  assumes "ledger_ok s" "ledger_step E s s'"
    and "row \<in> set (events s') - set (events s)" "e_type row \<noteq> lit ''command''"
    and "acl \<in> set (peer_target_acl s)" "l_peer_id acl = e_source row"
  shows "e_target row \<noteq> lit ''*'' \<and>
    (\<exists>t \<in> set (peer_target_acl_targets s). lt_peer_id t = e_source row \<and> lt_target_peer t = e_target row)"
proof -
  from step_log [OF assms(2,1)] assms(3) have "may_store E s row"
    by (auto simp: log_extends_def)
  with assms(4-) show ?thesis
    by (auto simp: may_store_def target_acl_allows_def split: if_splits)
qed

theorem restricted_peer_reaches_only_its_targets_witness: "e_target demo_row \<noteq> lit ''*''"
proof -
  have "demo_row \<in> set (events (snd (insert_event (lit ''a'') (lit ''b'') (lit ''message'') None None
      (Some (lit ''m1'')) None True None None demo_env demo_bus))) - set (events demo_bus)"
    by (simp add: demo_message_stored)
  from restricted_peer_reaches_only_its_targets [OF demo_bus_ok step_insert_event this,
      of "hd (peer_target_acl demo_bus)"]
  show ?thesis by (simp add: demo_row_def demo_defs)
qed


lemma store_event_errors:
  assumes "events_ok (source_counters s) (events s)" "\<forall>r \<in> set (events s). e_event_id r \<noteq> eid"
    and "store_event source target ty payload seq eid created ra ref actor E s = (Inl e, s')"
  shows "e \<in> {OverflowError, DatabaseFull, IntegrityError (Unique ''events.source, events.seq'')}"
  using assms(1,2)
  by (cases rule: store_event_cases [where source = source and seq = seq and target = target
        and ty = ty and payload = payload and created = created and ra = ra and ref = ref
        and actor = actor and E = E]) (use assms(3) in simp_all)

text \<open>
  C11: a refused command leaves no event and no counter behind, and exactly one audit row
  \<open>command_reject\<close> that names the source, the target, the event id and the reason.
\<close>

theorem refused_command_is_audited:
  assumes "ledger_ok s"
    and "insert_event source target (lit ''command'') payload seq event_id created_at ra ref token E s =
      (Inl (PermissionError msg), s')"
  shows "events s' = events s \<and> source_counters s' = source_counters s \<and>
    (\<exists>reason u. audit_log s' = audit_log s @ [u] \<and>
       u_actor u = Some source \<and> u_action u = lit ''command_reject'' \<and> u_target u = Some target \<and>
       u_event_id u = Some (or_str event_id (rnd_uuid E)) \<and> u_source_ref u = ref \<and> u_result u = reason \<and>
       (reason, msg) \<in> {(lit ''missing_source_ref'', ''command requires source_ref''),
                        (lit ''invalid_token'', ''command token rejected''),
                        (lit ''grant_denied'', ''command grant rejected'')})"
proof -
  note ok = ledger_ok_parts(5) [OF assms(1)]
  show ?thesis
    using ok
  proof (cases rule: insert_event_cases [where source = source and target = target
        and ty = "lit ''command''" and payload = payload and seq = seq and event_id = event_id
        and created_at = created_at and ra = ra and ref = ref and token = token and E = E])
    case (command kvs)
    show ?thesis
      using store_event_errors [OF ok command(4) trans [OF command(7) [symmetric] assms(2)]] by simp
  next
    case (known kvs row)
    then show ?thesis using assms(2) by (simp add: verify_row split: if_splits)
  qed (use assms(2) in \<open>auto simp: rejected_def audit_def\<close>)
qed

theorem refused_command_is_audited_witness:
  "\<exists>s'. insert_event (lit ''a'') (lit ''b'') (lit ''command'') None None None None True None None demo_env
      demo_ledger = (Inl (PermissionError ''command requires source_ref''), s') \<and>
    events s' = [demo_row]"
proof -
  let ?s' = "audit (Some (lit ''a'')) (lit ''command_reject'') None (Some (lit ''b''))
      (Some (lit ''uuid'')) (lit ''missing_source_ref'') None (now demo_env 4) demo_ledger"
  have call: "insert_event (lit ''a'') (lit ''b'') (lit ''command'') None None None None True None None
      demo_env demo_ledger = (Inl (PermissionError ''command requires source_ref''), ?s')"
    by (simp add: insert_event_def demo_env_def Let_def)
  with refused_command_is_audited [OF demo_ok call] show ?thesis
    by (auto simp: demo_ledger_def)
qed


section \<open>The inbox\<close>

text \<open>What \<open>list_events\<close> serves to a target: the open rows behind the cursor, oldest first.\<close>

definition pending_rows :: "pystr \<Rightarrow> 'z ledger_scheme \<Rightarrow> event_row list" where
  "pending_rows t s = filter (\<lambda>r. addressed_to t r \<and> \<not> applied_by t (e_event_id r) s) (events s)"

lemma list_events_pending:
  assumes "t \<noteq> []" "fits64 since"
  shows "list_events (Some t) since limit (lit ''pending'') s =
    Inr (take (page_limit limit) (filter (\<lambda>ev. since < ev_id ev) (map row_to_event (pending_rows t s))))"
proof -
  have "filter (\<lambda>r. since < e_id r \<and> addressed_to t r \<and> \<not> applied_by t (e_event_id r) s) (events s) =
      filter (\<lambda>r. since < e_id r) (pending_rows t s)"
    unfolding pending_rows_def filter_filter by (rule filter_cong) auto
  then show ?thesis
    using assms by (simp add: list_events_def filter_map comp_def take_map)
qed

text \<open>
  The page that a reader of the inbox of \<open>t\<close> gets; the reader stops at an error, so an error
  counts as an empty page here, and the cursor it starts from is a valid integer.
\<close>

definition inbox_page :: "pystr \<Rightarrow> int \<Rightarrow> 'z ledger_scheme \<Rightarrow> int \<Rightarrow> event list" where
  "inbox_page t limit s since =
     (case list_events (Some t) since limit (lit ''pending'') s of Inl _ \<Rightarrow> [] | Inr evs \<Rightarrow> evs)"

definition inbox_cursor_ok :: "pystr \<Rightarrow> 'z ledger_scheme \<Rightarrow> int \<Rightarrow> bool" where
  "inbox_cursor_ok t s since = (ledger_ok s \<and> t \<noteq> [] \<and> fits64 since)"

lemma pending_ascending:
  assumes "ledger_ok s"
  shows "sorted_wrt (<) (map ev_id (map row_to_event (pending_rows t s)))"
proof -
  have "sorted_wrt (\<lambda>a b. e_id a < e_id b) (events s)"
    using ledger_ok_parts(5) [OF assms] by (simp add: events_ok_def sorted_wrt_map)
  then show ?thesis
    by (simp add: pending_rows_def sorted_wrt_map sorted_wrt_filter)
qed

interpretation inbox: page_source "inbox_page t limit" ev_id
  "\<lambda>s. map row_to_event (pending_rows t s)" "page_limit limit" "inbox_cursor_ok t" for t limit
proof
  show "0 < page_limit limit" by (simp add: page_limit_def)
qed (auto simp: inbox_page_def inbox_cursor_ok_def list_events_pending pending_rows_def events_ok_def
    event_row_ok_def simp del: map_map dest: ledger_ok_parts(5) intro: pending_ascending [unfolded pending_rows_def])


definition ack_keys :: "'z ledger_scheme \<Rightarrow> (pystr \<times> pystr \<times> pystr) set" where
  "ack_keys s = (\<lambda>a. (a_event_id a, a_agent_id a, a_ack_type a)) ` set (acks s)"

lemma applied_by_keys: "applied_by t i s \<longleftrightarrow> (i, t, lit ''applied'') \<in> ack_keys s"
  by (force simp: applied_by_def ack_keys_def)

lemma ack_keys_ack:
  assumes "ack eid agent ack_type detail E s = (Inr (), s')"
  shows "ack_keys s' = insert (eid, agent, ack_type) (ack_keys s)"
proof -
  have "ack_keys (s\<lparr>acks := upd_where P (\<lambda>r. r\<lparr>a_ack_at := ts, a_detail_json := d\<rparr>) (acks s)\<rparr>) = ack_keys s"
    for P ts d
    using map_upd_where [of "acks s" P "\<lambda>a. (a_event_id a, a_agent_id a, a_ack_type a)"
        "\<lambda>r. r\<lparr>a_ack_at := ts, a_detail_json := d\<rparr>"]
    by (simp add: ack_keys_def flip: set_map)
  then show ?thesis
    using assms by (auto simp: ack_def Let_def split: if_splits) (auto simp: ack_keys_def)
qed

text \<open>
  C12: an acknowledgement closes exactly one event in exactly one inbox: after a successful
  \<open>applied\<close> acknowledgement the event is gone from the pending events and the backlog of the
  acknowledging agent, and every other event and every other agent's inbox, also that of the
  other receivers of a broadcast, is as before.  A \<open>received\<close> acknowledgement closes nothing.
\<close>

theorem ack_closes_one_event_in_one_inbox:
  assumes "ack eid agent ack_type detail E s = (Inr (), s')"
  shows "pending_rows t s' =
      (if t = agent \<and> ack_type = lit ''applied''
       then filter (\<lambda>r. e_event_id r \<noteq> eid) (pending_rows t s) else pending_rows t s) \<and>
    backlog_depth t s' = int (length (filter (\<lambda>r. e_requires_ack r = 1) (pending_rows t s')))"
proof -
  have ev: "events s' = events s" using assms log_frame(17) [of eid agent ack_type detail E s] by simp
  have app: "applied_by t i s' \<longleftrightarrow>
      applied_by t i s \<or> (t = agent \<and> i = eid \<and> ack_type = lit ''applied'')" for i
    unfolding applied_by_keys ack_keys_ack [OF assms] by auto
  show ?thesis
    by (auto simp: pending_rows_def backlog_depth_def ev app intro!: filter_cong
        arg_cong [where f = length])
qed

theorem ack_closes_one_event_in_one_inbox_witness:
  "pending_rows (lit ''b'') (snd (ack (lit ''m1'') (lit ''b'') (lit ''applied'') None demo_env demo_ledger)) = []"
proof -
  define s' where "s' = snd (ack (lit ''m1'') (lit ''b'') (lit ''applied'') None demo_env demo_ledger)"
  have "ack (lit ''m1'') (lit ''b'') (lit ''applied'') None demo_env demo_ledger = (Inr (), s')"
    by (simp add: s'_def ack_def demo_ledger_def init_ledger_def demo_row_def Let_def)
  from ack_closes_one_event_in_one_inbox [OF this, of "lit ''b''"] show ?thesis
    unfolding s'_def [symmetric]
    by (simp add: pending_rows_def [of _ demo_ledger]) (simp add: demo_ledger_def demo_row_def)
qed

end
