(* ===== verification/Ledger_Tokens.thy ===== *)
theory Ledger_Tokens
  imports Ledger_Props
begin

text \<open>
  Tokens, peers and target restrictions over time: a revoked or expired token stays
  dead under every operation, rotation hands over within the grace period and leaves
  device tokens alone, authentication once required stays required, and a target list
  that was set is the one that is enforced.
\<close>

section \<open>Tokens over time\<close>

text \<open>
  Every token row of the earlier table is still there, with the same peer and hash, and the
  relation \<open>Q\<close> holds between its earlier and its later content.
\<close>

definition rows_sim ::
    "(token_row \<Rightarrow> token_row \<Rightarrow> bool) \<Rightarrow> token_row list \<Rightarrow> token_row list \<Rightarrow> bool" where
  "rows_sim Q rows rows' = (\<forall>r \<in> set rows. \<exists>r' \<in> set rows'.
     t_token_hash r' = t_token_hash r \<and> t_peer_id r' = t_peer_id r \<and> Q r r')"

lemma rows_sim_refl: "(\<And>r. Q r r) \<Longrightarrow> rows_sim Q rows rows"
  by (auto simp: rows_sim_def)

lemma rows_sim_trans:
  assumes "rows_sim Q xs ys" "rows_sim Q ys zs" "\<And>a b c. Q a b \<Longrightarrow> Q b c \<Longrightarrow> Q a c"
  shows "rows_sim Q xs zs"
  using assms unfolding rows_sim_def by metis

lemma rows_sim_append: "rows_sim Q xs ys \<Longrightarrow> rows_sim Q xs (ys @ zs)"
  unfolding rows_sim_def by fastforce

lemma rows_sim_upd:
  assumes "\<And>r. Q r r" "\<And>r. P r \<Longrightarrow> Q r (f r)"
    and "\<And>r. t_token_hash (f r) = t_token_hash r" "\<And>r. t_peer_id (f r) = t_peer_id r"
  shows "rows_sim Q rows (upd_where P f rows)"
  unfolding rows_sim_def
proof
  fix r assume r: "r \<in> set rows"
  then have "(if P r then f r else r) \<in> set (upd_where P f rows)" by (auto simp: set_upd_where)
  then show "\<exists>r' \<in> set (upd_where P f rows). t_token_hash r' = t_token_hash r \<and>
      t_peer_id r' = t_peer_id r \<and> Q r r'"
    by (rule bexI [rotated]) (simp add: assms)
qed

lemma insert_event_tokens [simp]:
  "peer_tokens (snd (insert_event source target ty payload seq event_id created_at ra ref token E' s)) =
   peer_tokens s"
proof -
  have "peer_tokens (snd (alloc_seq source seq s)) = peer_tokens s"
    by (cases seq) (simp_all add: alloc_seq_def next_seq_def Let_def)
  then have "peer_tokens (snd (store_event source target ty kvs seq eid created ra ref actor E' s)) =
      peer_tokens s" for kvs eid created actor
    by (cases "alloc_seq source seq s")
      (simp add: store_event_def Let_def raise_counter_def split: option.split)
  then show ?thesis
    by (auto simp: insert_event_def Let_def split: json.split option.split)
qed

text \<open>The changes that the operations make to a token row.\<close>

locale token_change =
  fixes Q :: "token_row \<Rightarrow> token_row \<Rightarrow> bool" and E :: env
  assumes Q_refl: "Q r r"
    and Q_trans: "Q a b \<Longrightarrow> Q b c \<Longrightarrow> Q a c"
    and Q_revoke: "Q r (r\<lparr>t_revoked_at := Some (now_iso us)\<rparr>)"
    and Q_grace: "t_revoked_at r = None \<Longrightarrow>
      (case t_grace_until r of None \<Rightarrow> True | Some g \<Rightarrow> now E 1 \<le> g) \<Longrightarrow> Q r (r\<lparr>t_grace_until := Some g'\<rparr>)"
    and Q_label: "Q r (r\<lparr>t_token_id := i, t_device_label := l\<rparr>)"
begin

lemma add_peer_sim:
  "rows_sim Q (peer_tokens s) (peer_tokens (snd (add_peer p token role platform endpoint dc n E s)))"
proof -
  have upd: "rows_sim Q rows (upd_where P (\<lambda>r. r\<lparr>t_revoked_at := Some (now E 2)\<rparr>) rows)" for P rows
    by (rule rows_sim_upd) (simp_all add: Q_refl Q_revoke)
  have "rows_sim Q rows (upd_where P (\<lambda>r. r\<lparr>t_revoked_at := Some (now E 2)\<rparr>) (rows @ zs))" for P rows zs
    by (rule rows_sim_trans [OF rows_sim_append [OF rows_sim_refl] upd]) (auto intro: Q_refl Q_trans)
  with upd show ?thesis
    by (auto simp: add_peer_def Let_def rows_sim_refl Q_refl split: option.split simp del: upd_where_append)
qed

lemma rotate_sim:
  "rows_sim Q (peer_tokens s) (peer_tokens (snd (rotate_peer_token p token grace E s)))"
proof -
  have upd: "rows_sim Q (peer_tokens s) (upd_where
     (\<lambda>r. t_peer_id r = p \<and> t_revoked_at r = None \<and> primary_token r \<and>
          (case t_grace_until r of None \<Rightarrow> True | Some g \<Rightarrow> now E 1 \<le> g))
     (\<lambda>r. r\<lparr>t_grace_until := Some g'\<rparr>) (peer_tokens s))" for g'
    by (rule rows_sim_upd) (auto intro: Q_refl Q_grace)
  show ?thesis
    using upd rows_sim_append [OF upd]
    by (auto simp: rotate_peer_token_def Let_def rows_sim_refl Q_refl split: option.split)
qed

lemma device_sim:
  "rows_sim Q (peer_tokens s) (peer_tokens (snd (add_device_token p label token scope actor E s)))"
  "rows_sim Q (peer_tokens s) (peer_tokens (snd (revoke_device_token token_id actor E s)))"
proof -
  show "rows_sim Q (peer_tokens s) (peer_tokens (snd (add_device_token p label token scope actor E s)))"
    by (auto simp: add_device_token_def Let_def rows_sim_refl rows_sim_append Q_refl split: option.split)
  have "rows_sim Q rows (upd_where P (\<lambda>r. r\<lparr>t_revoked_at := Some (now E 0)\<rparr>) rows)" for P rows
    by (rule rows_sim_upd) (simp_all add: Q_refl Q_revoke)
  then show "rows_sim Q (peer_tokens s) (peer_tokens (snd (revoke_device_token token_id actor E s)))"
    by (auto simp: revoke_device_token_def Let_def rows_sim_refl Q_refl split: option.split)
qed

lemma migrate_sim: "rows_sim Q (peer_tokens s) (peer_tokens (migrate_peer_tokens s))"
proof -
  have "rows_sim Q rows (fold migrate_peer_token ps rows)" for ps rows
  proof (induction ps arbitrary: rows)
    case Nil
    then show ?case by (simp add: rows_sim_refl Q_refl)
  next
    case (Cons p ps)
    have "rows_sim Q rows (migrate_peer_token p rows)"
      by (simp add: migrate_peer_token_def rows_sim_refl rows_sim_append Q_refl split: option.split)
    then show ?case using rows_sim_trans [OF _ Cons.IH Q_trans] by simp
  qed
  then show ?thesis by (simp add: migrate_peer_tokens_def)
qed

lemma backfill_sim: "backfill_token_ids todo rows = Inr rows' \<Longrightarrow> rows_sim Q rows rows'"
proof (induction todo arbitrary: rows)
  case Nil
  then show ?case by (simp add: rows_sim_refl Q_refl)
next
  case (Cons row todo)
  let ?f = "\<lambda>r. r\<lparr>t_token_id := Some (legacy_token_id (t_peer_id row) (t_token_hash row)),
     t_device_label := (case t_device_label r of None \<Rightarrow> Some (lit ''legacy'') | Some l \<Rightarrow> Some l)\<rparr>"
  have "rows_sim Q rows (upd_where (\<lambda>r. t_id r = t_id row) ?f rows)"
    by (rule rows_sim_upd) (auto intro: Q_refl Q_label)
  moreover have "rows_sim Q (upd_where (\<lambda>r. t_id r = t_id row) ?f rows) rows'"
    using Cons.prems by (intro Cons.IH) (simp add: Let_def split: if_splits)
  ultimately show ?case using Q_trans by (rule rows_sim_trans)
qed

lemma ensure_sim: "rows_sim Q (peer_tokens s) (peer_tokens (snd (ensure_token_schema s)))"
  by (auto simp: ensure_token_schema_def rows_sim_refl Q_refl split: sum.split intro: backfill_sim)

lemma step_sim: "ledger_step E s s' \<Longrightarrow> rows_sim Q (peer_tokens s) (peer_tokens s')"
  by (erule ledger_step.cases)
    (simp_all add: rows_sim_refl Q_refl add_peer_sim rotate_sim device_sim migrate_sim ensure_sim)

end

text \<open>Revocation is kept by every change, and so is the end of a grace period once it has passed.\<close>

definition keeps_revoked :: "token_row \<Rightarrow> token_row \<Rightarrow> bool" where
  "keeps_revoked r r' = (truthy (t_revoked_at r) \<longrightarrow> truthy (t_revoked_at r'))"

definition keeps_dead :: "pystr \<Rightarrow> env \<Rightarrow> token_row \<Rightarrow> token_row \<Rightarrow> bool" where
  "keeps_dead ts E r r' = (ts \<le> now E 1 \<longrightarrow> \<not> token_live ts r \<longrightarrow> \<not> token_live ts r')"

lemma now_iso_nonempty [simp]: "now_iso us \<noteq> []"
  by (simp add: now_iso_def iso_seconds_def iso_text_def lit_def)

interpretation revoked: token_change keeps_revoked E for E
  by unfold_locales (auto simp: keeps_revoked_def)

interpretation dead: token_change "keeps_dead ts E" E for ts E
  by unfold_locales (auto simp: keeps_dead_def token_live_def split: option.splits)

lemma token_unique:
  assumes "ledger_ok s" "r \<in> set (peer_tokens s)" "q \<in> set (peer_tokens s)"
    and "t_token_hash r = t_token_hash q"
  shows "r = q"
  using ledger_ok_parts(2) [OF assms(1)] assms(2-)
  by (auto simp: tokens_ok_def distinct_map dest: inj_onD)

lemma find_token_id:
  assumes "ledger_ok s" "r \<in> set (peer_tokens s)" "t_token_id r = Some i"
  shows "find (\<lambda>r. t_token_id r = Some i) (peer_tokens s) = Some r"
proof -
  note ok = ledger_ok_parts(2) [OF assms(1), unfolded tokens_ok_def]
  have "find (\<lambda>r. t_token_id r = Some i) (peer_tokens s) \<noteq> None"
    unfolding find_None using assms(2,3) by blast
  then obtain q where q: "find (\<lambda>r. t_token_id r = Some i) (peer_tokens s) = Some q"
    by blast
  have q': "q \<in> set (peer_tokens s)" "t_token_id q = Some i"
    using find_SomeD [OF q] by blast+
  have "token_ids_ok (peer_tokens s)" using ok by blast
  then have "t_id q = t_id r"
    unfolding token_ids_ok_def using q' assms(2,3) by (metis option.distinct(1))
  moreover have "inj_on t_id (set (peer_tokens s))"
    using ok ascending_distinct [of t_id "peer_tokens s"] by (simp add: distinct_map)
  ultimately have "q = r" using q'(1) assms(2) by (blast dest: inj_onD)
  with q show ?thesis by simp
qed

text \<open>A token validates when the one row with its hash belongs to the peer and is live.\<close>

lemma validate_token_iff:
  assumes "ledger_ok s" "r \<in> set (peer_tokens s)" "t_token_hash r = token_hash tok"
  shows "validate_token p (Some tok) ts s \<longleftrightarrow> tok \<noteq> [] \<and> t_peer_id r = p \<and> token_live ts r"
proof -
  have "find (\<lambda>q. t_peer_id q = p \<and> token_live ts q \<and> t_token_hash q = token_hash tok) (peer_tokens s) \<noteq> None
      \<longleftrightarrow> t_peer_id r = p \<and> token_live ts r"
    unfolding find_None using assms(2,3) token_unique [OF assms(1,2)] by (metis (no_types, lifting))
  then show ?thesis by (simp add: validate_token_def token_scope_def)
qed

lemma dead_row_rejects:
  assumes "ledger_ok s" "rows_sim Q rows (peer_tokens s)" "r \<in> set rows"
    and "\<And>r'. Q r r' \<Longrightarrow> \<not> token_live ts r'"
    and "t_token_hash r = token_hash tok"
  shows "\<not> validate_token p (Some tok) ts s"
proof -
  obtain r' where "r' \<in> set (peer_tokens s)" "t_token_hash r' = t_token_hash r" "Q r r'"
    using assms(2,3) unfolding rows_sim_def by blast
  with assms(4,5) show ?thesis by (simp add: validate_token_iff [OF assms(1)])
qed

lemma revoked_not_live: "truthy (t_revoked_at r) \<Longrightarrow> \<not> token_live ts r"
  by (simp add: token_live_def)

lemma token_live_antimono: "ts \<le> ts' \<Longrightarrow> token_live ts' r \<Longrightarrow> token_live ts r"
  by (auto simp: token_live_def split: option.splits)

text \<open>Steps taken at or after an instant, with clocks that the calendar can represent.\<close>

definition ledger_next_from :: "int \<Rightarrow> 'z ledger_scheme \<Rightarrow> 'z ledger_scheme \<Rightarrow> bool" where
  "ledger_next_from t s s' =
     (\<exists>E. (\<forall>k. t \<le> clk E k \<and> representable (clk E k)) \<and> ledger_step E s s')"

interpretation ledger_from: invariant_system "ledger_next_from t" ledger_ok for t
  by unfold_locales (auto simp: ledger_next_from_def intro: ledger_step_ok)

text \<open>
  C13: revocation is final.  Once \<open>revoke_device_token\<close> has answered for a token, no sequence of
  operations, re-adding the peer with the same token included, makes a token with that
  hash validate again for any peer at any time.
\<close>

theorem revoked_token_never_validates_again:
  assumes "ledger_ok s" "revoke_device_token token_id actor E s = (Inr res, s1)"
    and "r \<in> set (peer_tokens s)" "t_token_id r = Some token_id" "t_token_hash r = token_hash tok"
    and "ledger_next\<^sup>*\<^sup>* s1 s2"
  shows "\<not> validate_token p (Some tok) ts s2"
proof -
  have s1: "s1 = snd (revoke_device_token token_id actor E s)" by (simp add: assms(2))
  then have ok1: "ledger_ok s1" using assms(1) by (simp add: revoke_device_token_ok)
  note found = find_token_id [OF assms(1,3,4)]
  obtain r1 where r1: "r1 \<in> set (peer_tokens s1)" "truthy (t_revoked_at r1)"
      "t_token_hash r1 = token_hash tok"
  proof (cases "truthy (t_revoked_at r)")
    case True
    then show thesis
      using that [of r] assms(3,5) by (simp add: s1 revoke_device_token_def found Let_def)
  next
    case False
    then show thesis
      using that [of "r\<lparr>t_revoked_at := Some (now E 0)\<rparr>"] assms(3-5)
      by (auto simp: s1 revoke_device_token_def found Let_def set_upd_where image_iff)
  qed
  have "rows_sim keeps_revoked (peer_tokens s1) (peer_tokens s2)"
  proof (rule ledger_sys.rel_steps [OF assms(6) ok1])
    show "rows_sim keeps_revoked (peer_tokens x) (peer_tokens y)"
      if "ledger_next x y" for x y :: "'a ledger_scheme"
      using that revoked.step_sim by (auto simp: ledger_next_def)
  qed (blast intro: rows_sim_refl rows_sim_trans revoked.Q_refl revoked.Q_trans)+
  then show ?thesis
    by (rule dead_row_rejects [OF ledger_sys.inv_steps [OF assms(6) ok1] _ r1(1)])
      (use r1 in \<open>auto simp: keeps_revoked_def revoked_not_live\<close>)
qed

text \<open>
  C14: a token that has stopped validating stays so.  If at some instant a token row is revoked
  or past its grace period, then after any operations carried out from that instant on,
  rotations included, the token does not validate at that or any later instant.
\<close>

theorem expired_token_never_revives:
  assumes "ledger_ok s" "r \<in> set (peer_tokens s)" "t_token_hash r = token_hash tok"
    and "\<not> token_live (now_iso t) r" "representable t" "representable t'" "t \<le> t'"
    and "(ledger_next_from t)\<^sup>*\<^sup>* s s'"
  shows "\<not> validate_token p (Some tok) (now_iso t') s'"
proof -
  define dd where "dd a b = (\<not> token_live (now_iso t) a \<longrightarrow> \<not> token_live (now_iso t) b)" for a b
  have dd: "dd a a" "dd a b \<Longrightarrow> dd b c \<Longrightarrow> dd a c" for a b c by (auto simp: dd_def)
  have le: "now_iso t \<le> now_iso u" if "t \<le> u" "representable u" for u
    using that assms(5) by (simp add: now_iso_le_iff zdiv_mono1)
  have each: "rows_sim dd (peer_tokens x) (peer_tokens y)" if step: "ledger_next_from t x y" for x y
  proof -
    obtain E where E: "\<forall>k. t \<le> clk E k \<and> representable (clk E k)" "ledger_step E x y"
      using step by (auto simp: ledger_next_from_def)
    then have "keeps_dead (now_iso t) E = dd"
      by (auto simp: fun_eq_iff keeps_dead_def dd_def le)
    with dead.step_sim [OF E(2), of "now_iso t"] show ?thesis by simp
  qed
  have "rows_sim dd (peer_tokens s) (peer_tokens s')"
    by (rule ledger_from.rel_steps [OF assms(8,1)])
      (auto intro: rows_sim_refl rows_sim_trans each dd)
  then show ?thesis
    by (rule dead_row_rejects [OF ledger_from.inv_steps [OF assms(8,1)] _ assms(2)])
      (use assms(3,4) le [OF assms(7,6)] in \<open>auto simp: dd_def dest: token_live_antimono\<close>)
qed


theorem revoked_token_never_validates_again_witness:
  "\<not> validate_token (lit ''a'') (Some (lit ''tok'')) (now_iso 0)
     (snd (revoke_device_token (lit ''t1'') (lit ''operator'') demo_env demo_bus))"
proof -
  obtain res s1 where call: "revoke_device_token (lit ''t1'') (lit ''operator'') demo_env demo_bus = (Inr res, s1)"
    by (simp add: revoke_device_token_def demo_defs Let_def)
  have "\<not> validate_token (lit ''a'') (Some (lit ''tok'')) (now_iso 0) s1"
    by (rule revoked_token_never_validates_again [OF demo_bus_ok call, of demo_token])
      (simp_all add: demo_defs)
  then show ?thesis by (simp add: call)
qed

text \<open>The bus of the concrete run with the token of \<open>a\<close> past its grace period.\<close>

definition demo_expired :: ledger where
  "demo_expired = demo_bus\<lparr>peer_tokens := [demo_token\<lparr>t_grace_until := Some (now_iso 0)\<rparr>]\<rparr>"

theorem expired_token_never_revives_witness:
  "\<not> validate_token (lit ''a'') (Some (lit ''tok'')) (now_iso 5000000) demo_expired"
proof (rule expired_token_never_revives [where t = 1000000])
  show "ledger_ok demo_expired"
    using demo_bus_ok
    by (simp add: demo_expired_def ledger_ok_def peer_ids_def)
      (simp add: tokens_ok_def token_ids_ok_def demo_defs)
  show "demo_token\<lparr>t_grace_until := Some (now_iso 0)\<rparr> \<in> set (peer_tokens demo_expired)"
    by (simp add: demo_expired_def)
  show "\<not> token_live (now_iso 1000000) (demo_token\<lparr>t_grace_until := Some (now_iso 0)\<rparr>)"
    using now_iso_less_iff [of 0 1000000]
    by (simp add: token_live_def not_le representable_def max_instant_def)
qed (simp_all add: demo_defs representable_def max_instant_def)


section \<open>Rotation\<close>

text \<open>
  C15: rotation hands over.  After a successful rotation the new token validates at any time.
  A token of the rotating peer that was still valid and is not a device token
  validates until the end of the grace period and not after it; every other token, expired,
  revoked, of a device or of another peer, validates exactly when it did before.
\<close>

theorem rotation_hands_over:
  assumes "ledger_ok s" "rotate_peer_token p token grace E s = (Inr tok, s')"
    and "r \<in> set (peer_tokens s)" "t_token_hash r = token_hash old" "old \<noteq> []"
  shows "(tok \<noteq> [] \<longrightarrow> validate_token p (Some tok) ts s') \<and>
    (validate_token q (Some old) ts s' \<longleftrightarrow>
      (if t_peer_id r = p \<and> t_revoked_at r = None \<and> primary_token r \<and>
          (case t_grace_until r of None \<Rightarrow> True | Some g \<Rightarrow> now E 1 \<le> g)
       then q = p \<and> ts \<le> now_iso (clk E 0 + max 0 grace * 1000000)
       else validate_token q (Some old) ts s))"
proof -
  define upd where "upd r = (t_peer_id r = p \<and> t_revoked_at r = None \<and> primary_token r \<and>
      (case t_grace_until r of None \<Rightarrow> True | Some g \<Rightarrow> now E 1 \<le> g))" for r
  define g where "g = now_iso (clk E 0 + max 0 grace * 1000000)"
  have s': "s' = snd (rotate_peer_token p token grace E s)" by (simp add: assms(2))
  then have ok': "ledger_ok s'" using assms(1) by (simp add: rotate_peer_token_ok)
  have rows: "peer_tokens s' = upd_where upd (\<lambda>r. r\<lparr>t_grace_until := Some g\<rparr>) (peer_tokens s) @
      [new_token_row p (token_hash tok) (Some (rnd_uuid E)) (Some (lit ''rotation'')) (lit ''full'')
         (now E 2) (upd_where upd (\<lambda>r. r\<lparr>t_grace_until := Some g\<rparr>) (peer_tokens s))]"
    using assms(2) [unfolded rotate_peer_token_def Let_def, folded upd_def [abs_def] g_def]
    by (auto split: if_splits option.splits)
  define new where "new = new_token_row p (token_hash tok) (Some (rnd_uuid E)) (Some (lit ''rotation''))
      (lit ''full'') (now E 2) (upd_where upd (\<lambda>r. r\<lparr>t_grace_until := Some g\<rparr>) (peer_tokens s))"
  have "new \<in> set (peer_tokens s')" by (simp add: rows new_def)
  from validate_token_iff [OF ok' this, of tok p ts]
  have 1: "tok \<noteq> [] \<longrightarrow> validate_token p (Some tok) ts s'"
    by (simp add: new_def new_token_row_def token_live_def)
  define r' where "r' = (if upd r then r\<lparr>t_grace_until := Some g\<rparr> else r)"
  have "r' \<in> set (peer_tokens s')" using assms(3) by (auto simp: rows r'_def set_upd_where)
  from validate_token_iff [OF ok' this, of old q ts] validate_token_iff [OF assms(1,3,4), of q ts]
  have 2: "validate_token q (Some old) ts s' \<longleftrightarrow>
      (if upd r then q = p \<and> ts \<le> g else validate_token q (Some old) ts s)"
    using assms(4,5) by (auto simp: r'_def upd_def token_live_def g_def)
  from 1 2 show ?thesis by (simp add: upd_def g_def)
qed

theorem rotation_hands_over_witness:
  "\<exists>s'. rotate_peer_token (lit ''a'') (Some (lit ''new'')) 300 demo_env demo_bus = (Inr (lit ''new''), s') \<and>
     validate_token (lit ''a'') (Some (lit ''new'')) (now_iso 0) s' \<and>
     validate_token (lit ''a'') (Some (lit ''tok'')) (now_iso 0) s'"
proof -
  have "token_hash (lit ''new'') \<noteq> token_hash (lit ''tok'')"
    unfolding token_hash_def by (rule sha256_samples_differ)
  then obtain s' where call:
      "rotate_peer_token (lit ''a'') (Some (lit ''new'')) 300 demo_env demo_bus = (Inr (lit ''new''), s')"
    by (simp add: rotate_peer_token_def demo_defs token_conflict_def peer_exists_def demo_env_def
        representable_def max_instant_def upd_where_def Let_def primary_token_def primary_labels_def)
  have "validate_token (lit ''a'') (Some (lit ''tok'')) (now_iso 0) demo_bus"
    by (simp add: validate_token_def token_scope_def token_live_def demo_defs)
  moreover have "\<not> primary_token demo_token"
    by (simp add: demo_token_def primary_token_def primary_labels_def)
  ultimately show ?thesis
    using call rotation_hands_over [OF demo_bus_ok call, of demo_token "lit ''tok''" "now_iso 0" "lit ''a''"]
    by (simp add: demo_bus_def) (simp add: demo_token_def)
qed

section \<open>Setting a target list\<close>

lemma insert_acl_targets_effect:
  assumes "\<forall>a \<in> set good. peer_exists a s"
  shows "insert_acl_targets p t (good @ rest) s =
    insert_acl_targets p t rest (s\<lparr>peer_target_acl_targets := peer_target_acl_targets s @
       map (\<lambda>a. \<lparr>lt_peer_id = p, lt_target_peer = a, lt_created_at = t\<rparr>) good\<rparr>)"
  using assms
  by (induction good arbitrary: s) (auto simp: peer_exists_def)

text \<open>The state in which \<open>set_target_acl\<close> starts to insert the new targets.\<close>

lemma set_target_acl_start:
  assumes "ledger_ok s" "peer_exists p s"
  obtains rows where "l_peer_id ` set rows = insert p (l_peer_id ` set (peer_target_acl s))"
    "set_target_acl p targets E s = insert_acl_targets p (now E 0) (dict_fromkeys targets)
       (s\<lparr>peer_target_acl := rows,
          peer_target_acl_targets := filter (\<lambda>r. lt_peer_id r \<noteq> p) (peer_target_acl_targets s)\<rparr>)"
proof (cases "\<exists>r \<in> set (peer_target_acl s). l_peer_id r = p")
  case True
  let ?rows = "upd_where (\<lambda>r. l_peer_id r = p) (\<lambda>r. r\<lparr>l_updated_at := now E 0\<rparr>) (peer_target_acl s)"
  have "map l_peer_id ?rows = map l_peer_id (peer_target_acl s)" by (rule map_upd_where) simp
  then have "l_peer_id ` set ?rows = l_peer_id ` set (peer_target_acl s)" by (metis set_map)
  also have "\<dots> = insert p (l_peer_id ` set (peer_target_acl s))" using True by blast
  finally show thesis by (rule that) (use True in \<open>simp add: set_target_acl_def Let_def\<close>)
next
  case False
  then show thesis
    using assms(2)
    by (intro that [of "peer_target_acl s @ [\<lparr>l_peer_id = p, l_created_at = now E 0, l_updated_at = now E 0\<rparr>]"])
      (auto simp: set_target_acl_def Let_def)
qed

lemma target_acl_allows_keys:
  "target_acl_allows q t s \<longleftrightarrow> q \<notin> l_peer_id ` set (peer_target_acl s) \<or>
     t \<noteq> lit ''*'' \<and> (q, t) \<in> (\<lambda>r. (lt_peer_id r, lt_target_peer r)) ` set (peer_target_acl_targets s)"
  by (force simp: target_acl_allows_def)

text \<open>The restriction that is in force once the targets \<open>good\<close> have been inserted.\<close>

lemma target_acl_in_force:
  assumes "l_peer_id ` set rows = insert p (l_peer_id ` set (peer_target_acl s))"
  shows "target_acl_allows q t (s\<lparr>peer_target_acl := rows,
      peer_target_acl_targets := filter (\<lambda>r. lt_peer_id r \<noteq> p) (peer_target_acl_targets s) @
        map (\<lambda>a. \<lparr>lt_peer_id = p, lt_target_peer = a, lt_created_at = ts\<rparr>) good\<rparr>) \<longleftrightarrow>
    (if q = p then t \<noteq> lit ''*'' \<and> t \<in> set good else target_acl_allows q t s)"
proof -
  define K where "K = (\<lambda>r :: acl_target_row. (lt_peer_id r, lt_target_peer r))"
  define new where "new = map (\<lambda>a. \<lparr>lt_peer_id = p, lt_target_peer = a, lt_created_at = ts\<rparr>) good"
  have "K ` set (filter (\<lambda>r. lt_peer_id r \<noteq> p) (peer_target_acl_targets s)) =
      {k \<in> K ` set (peer_target_acl_targets s). fst k \<noteq> p}"
  proof -
    have "{k \<in> K ` A. fst k \<noteq> p} = K ` {r \<in> A. fst (K r) \<noteq> p}" for A by blast
    then show ?thesis by (simp add: K_def)
  qed
  moreover have "K ` set new = Pair p ` set good"
    by (simp add: K_def new_def image_image)
  ultimately have K: "K ` set (filter (\<lambda>r. lt_peer_id r \<noteq> p) (peer_target_acl_targets s) @ new) =
      {k \<in> K ` set (peer_target_acl_targets s). fst k \<noteq> p} \<union> Pair p ` set good"
    by (simp only: set_append image_Un)
  show ?thesis
    unfolding target_acl_allows_keys K_def [symmetric] new_def [symmetric]
    by (cases "q = p") (simp add: assms K image_iff del: set_append set_filter,
        simp add: assms K image_iff [of _ "Pair p"] del: set_append set_filter)
qed

text \<open>
  C16: the target list that was set is the one that is enforced.  A successful call replaces the
  list of the peer by exactly the given targets, a broadcast is never allowed under a list, and
  the permissions of all other peers are untouched.
\<close>

theorem target_list_set_is_enforced:
  assumes "ledger_ok s" "set_target_acl p targets E s = (Inr (), s')"
  shows "target_acl_allows q t s' \<longleftrightarrow>
    (if q = p then t \<noteq> lit ''*'' \<and> t \<in> set targets else target_acl_allows q t s)"
proof -
  have "peer_exists p s"
    using assms ledger_ok_parts(4) [OF assms(1)]
    by (auto simp: set_target_acl_def Let_def acl_ok_def peer_exists_iff split: if_splits)
  with assms(1) obtain rows where rows:
      "l_peer_id ` set rows = insert p (l_peer_id ` set (peer_target_acl s))"
    and call: "set_target_acl p targets E s = insert_acl_targets p (now E 0) (dict_fromkeys targets)
       (s\<lparr>peer_target_acl := rows,
          peer_target_acl_targets := filter (\<lambda>r. lt_peer_id r \<noteq> p) (peer_target_acl_targets s)\<rparr>)"
    (is "_ = insert_acl_targets p _ _ ?s") by (rule set_target_acl_start [where targets = targets and E = E])
  have all: "\<forall>a \<in> set (dict_fromkeys targets). peer_exists a ?s"
  proof (rule ccontr)
    assume "\<not> ?thesis"
    then obtain good bad rest where split: "dict_fromkeys targets = good @ bad # rest"
      "\<not> peer_exists bad ?s" "\<forall>a \<in> set good. peer_exists a ?s"
      using split_list_first_prop [of "dict_fromkeys targets" "\<lambda>a. \<not> peer_exists a ?s"] by blast
    show False
      using assms(2) insert_acl_targets_effect [OF split(3), of p "now E 0" "bad # rest"] split(2)
      by (simp add: call split(1) peer_exists_def)
  qed
  have "s' = s\<lparr>peer_target_acl := rows,
      peer_target_acl_targets := filter (\<lambda>r. lt_peer_id r \<noteq> p) (peer_target_acl_targets s) @
        map (\<lambda>a. \<lparr>lt_peer_id = p, lt_target_peer = a, lt_created_at = now E 0\<rparr>) (dict_fromkeys targets)\<rparr>"
    using assms(2) insert_acl_targets_effect [OF all, of p "now E 0" "[]"] by (simp add: call)
  with target_acl_in_force [OF rows] show ?thesis by simp
qed

theorem target_list_set_is_enforced_witness:
  "target_acl_allows (lit ''b'') (lit ''a'')
     (snd (set_target_acl (lit ''b'') [lit ''a''] demo_env demo_bus))"
proof -
  obtain s' where call: "set_target_acl (lit ''b'') [lit ''a''] demo_env demo_bus = (Inr (), s')"
    by (simp add: set_target_acl_def demo_defs peer_exists_def dict_fromkeys_def Let_def)
  from target_list_set_is_enforced [OF demo_bus_ok call, of "lit ''b''" "lit ''a''"] show ?thesis
    by (simp add: call)
qed

text \<open>
  C17: a call that fails is not undone.  When one of the targets is not a peer, the call raises
  an integrity error, and yet the old list is gone and the list in force is the targets
  before the offending one.
\<close>

theorem failed_target_list_is_partly_applied:
  assumes "ledger_ok s" "peer_exists p s"
    and "dict_fromkeys targets = good @ bad # rest" "\<forall>a \<in> set good. peer_exists a s" "\<not> peer_exists bad s"
  shows "fst (set_target_acl p targets E s) =
      Inl (IntegrityError (Foreign_Key ''peer_target_acl_targets.target_peer'')) \<and>
    (target_acl_allows p t (snd (set_target_acl p targets E s)) \<longleftrightarrow> t \<noteq> lit ''*'' \<and> t \<in> set good)"
proof -
  obtain rows where rows: "l_peer_id ` set rows = insert p (l_peer_id ` set (peer_target_acl s))"
    and call: "set_target_acl p targets E s = insert_acl_targets p (now E 0) (dict_fromkeys targets)
       (s\<lparr>peer_target_acl := rows,
          peer_target_acl_targets := filter (\<lambda>r. lt_peer_id r \<noteq> p) (peer_target_acl_targets s)\<rparr>)"
    (is "_ = insert_acl_targets p _ _ ?s")
    by (rule set_target_acl_start [OF assms(1,2), where targets = targets and E = E])
  have good: "\<forall>a \<in> set good. peer_exists a ?s" using assms(4) by (simp add: peer_exists_def)
  have "set_target_acl p targets E s =
      (Inl (IntegrityError (Foreign_Key ''peer_target_acl_targets.target_peer'')),
       s\<lparr>peer_target_acl := rows,
         peer_target_acl_targets := filter (\<lambda>r. lt_peer_id r \<noteq> p) (peer_target_acl_targets s) @
           map (\<lambda>a. \<lparr>lt_peer_id = p, lt_target_peer = a, lt_created_at = now E 0\<rparr>) good\<rparr>)"
    using assms(5) insert_acl_targets_effect [OF good, of p "now E 0" "bad # rest"]
    by (simp add: call assms(3) peer_exists_def)
  with target_acl_in_force [OF rows, of p t "now E 0" good] show ?thesis by simp
qed

theorem failed_target_list_is_partly_applied_witness:
  "\<not> target_acl_allows (lit ''a'') (lit ''b'')
     (snd (set_target_acl (lit ''a'') [lit ''a'', lit ''ghost'', lit ''b''] demo_env demo_bus))"
  using failed_target_list_is_partly_applied [OF demo_bus_ok, of "lit ''a''"
      "[lit ''a'', lit ''ghost'', lit ''b'']" "[lit ''a'']" "lit ''ghost''" "[lit ''b'']" demo_env "lit ''b''"]
  by (simp add: demo_defs peer_exists_def dict_fromkeys_def)


section \<open>Adding a peer\<close>

text \<open>
  C18: what adding a peer with a token gives.  The call always answers with the token, and the
  token then validates exactly when its hash was not in the token table before, or was there
  as a live token of the same peer.  In particular a peer re-added with a token that had
  been revoked, or that belongs to another peer, is answered with a token that does not work, while
  all its other primary tokens are revoked.
\<close>

theorem added_token_validates_iff:
  assumes "ledger_ok s" "fits64 n" "tok \<noteq> []"
    and "\<forall>r \<in> set (peer_tokens s). t_token_id r \<noteq> Some (rnd_uuid E)"
  shows "fst (add_peer p (Some tok) role platform endpoint dc n E s) = Inr tok \<and>
    (validate_token p (Some tok) ts (snd (add_peer p (Some tok) role platform endpoint dc n E s)) \<longleftrightarrow>
      (\<forall>r \<in> set (peer_tokens s). t_token_hash r = token_hash tok \<longrightarrow> t_peer_id r = p \<and> token_live ts r)) \<and>
    (\<forall>r \<in> set (peer_tokens (snd (add_peer p (Some tok) role platform endpoint dc n E s))).
       t_peer_id r = p \<and> primary_token r \<and> t_token_hash r \<noteq> token_hash tok \<longrightarrow> t_revoked_at r \<noteq> None)"
proof -
  define s' where "s' = snd (add_peer p (Some tok) role platform endpoint dc n E s)"
  have ok': "ledger_ok s'" using assms(1) by (simp add: s'_def add_peer_ok)
  define old where "old r = (t_peer_id r = p \<and> t_token_hash r \<noteq> token_hash tok \<and> t_revoked_at r = None \<and>
      primary_token r)" for r
  define rev where "rev r = r\<lparr>t_revoked_at := Some (now E 2)\<rparr>" for r :: token_row
  define new where "new = new_token_row p (token_hash tok) (Some (rnd_uuid E)) (Some (lit ''primary''))
      (lit ''full'') (now E 1) (peer_tokens s)"
  define known where "known = (\<exists>r \<in> set (peer_tokens s). t_token_hash r = token_hash tok)"
  have rows: "peer_tokens s' = upd_where old rev (peer_tokens s @ (if known then [] else [new]))"
  proof -
    have "token_conflict (token_hash tok) (Some (rnd_uuid E)) (peer_tokens s) =
        (if known then Some ''peer_tokens.token_hash'' else None)"
      using assms(4) by (auto simp: token_conflict_def known_def)
    then show ?thesis
      using assms(2) by (simp add: s'_def add_peer_def Let_def new_def old_def [abs_def] rev_def [abs_def])
  qed
  have keep: "r \<in> set (peer_tokens s')" if "r \<in> set (peer_tokens s)" "t_token_hash r = token_hash tok" for r
  proof -
    have "(if old r then rev r else r) \<in> set (peer_tokens s')"
      using that(1) unfolding rows set_upd_where by (intro imageI) simp
    moreover have "\<not> old r" using that(2) by (simp add: old_def)
    ultimately show ?thesis by simp
  qed
  have "validate_token p (Some tok) ts s' \<longleftrightarrow>
      (\<forall>r \<in> set (peer_tokens s). t_token_hash r = token_hash tok \<longrightarrow> t_peer_id r = p \<and> token_live ts r)"
  proof (cases known)
    case True
    then obtain r where r: "r \<in> set (peer_tokens s)" "t_token_hash r = token_hash tok"
      by (auto simp: known_def)
    have uniq: "q = r" if "q \<in> set (peer_tokens s)" "t_token_hash q = token_hash tok" for q
      using token_unique [OF assms(1) that(1) r(1)] that(2) r(2) by simp
    show ?thesis
      using validate_token_iff [OF ok' keep [OF r] r(2), of p ts] assms(3) r uniq by blast
  next
    case False
    have "new \<in> set (peer_tokens s')"
      using False by (simp add: rows new_def new_token_row_def old_def upd_where_def)
    then show ?thesis
      using validate_token_iff [OF ok', of new tok p ts] assms(3) False
      by (auto simp: new_def new_token_row_def token_live_def known_def)
  qed
  moreover have "\<forall>r \<in> set (peer_tokens s'). t_peer_id r = p \<and> primary_token r \<and>
      t_token_hash r \<noteq> token_hash tok \<longrightarrow> t_revoked_at r \<noteq> None"
  proof
    fix r assume "r \<in> set (peer_tokens s')"
    then have "\<exists>x. r = (if old x then rev x else x)"
      unfolding rows set_upd_where by blast
    then obtain x where x: "r = (if old x then rev x else x)" ..
    then show "t_peer_id r = p \<and> primary_token r \<and> t_token_hash r \<noteq> token_hash tok \<longrightarrow>
        t_revoked_at r \<noteq> None"
      by (cases "old x") (auto simp: rev_def old_def)
  qed
  moreover have "fst (add_peer p (Some tok) role platform endpoint dc n E s) = Inr tok"
    using assms(2) by (simp add: add_peer_def Let_def)
  ultimately show ?thesis by (simp add: s'_def)
qed

theorem added_token_validates_iff_witness:
  "\<not> validate_token (lit ''b'') (Some (lit ''tok'')) (now_iso 0)
     (snd (add_peer (lit ''b'') (Some (lit ''tok'')) None None None (lit ''normal'') 180 demo_env demo_bus))"
  using added_token_validates_iff [OF demo_bus_ok, of 180 "lit ''tok''" demo_env "lit ''b''" None None None
      "lit ''normal''" "now_iso 0"]
  by (simp add: demo_defs fits64_def demo_env_def)

section \<open>Authentication stays on\<close>

lemma peers_frame [simp]:
  "peers (snd (set_target_acl p targets E s)) = peers s"
  "peers (clear_target_acl p s) = peers s"
  "peers (snd (add_device_token p label token scope actor E s)) = peers s"
  "peers (snd (revoke_device_token token_id actor E s)) = peers s"
  "peers (snd (add_grant grantor grantee ct gscope valid_until E s)) = peers s"
  "peers (snd (revoke_grant grant_id E s)) = peers s"
  "peers (snd (ack event_id agent ack_type detail E s)) = peers s"
  "peers (write_probe E s) = peers s"
  "peers (migrate_peer_tokens s) = peers s"
  "peers (snd (ensure_token_schema s)) = peers s"
  by (simp_all add: set_target_acl_def clear_target_acl_def add_device_token_def
      revoke_device_token_def add_grant_def revoke_grant_def ack_def write_probe_def
      migrate_peer_tokens_def ensure_token_schema_def Let_def split: option.split sum.split)

lemma insert_event_peers [simp]:
  "peers (snd (insert_event source target ty payload seq event_id created_at ra ref token E s)) = peers s"
proof -
  have "peers (snd (alloc_seq source seq s)) = peers s"
    by (cases seq) (simp_all add: alloc_seq_def next_seq_def Let_def)
  then have "peers (snd (store_event source target ty kvs seq eid created ra ref actor E s)) =
      peers s" for kvs eid created actor
    by (cases "alloc_seq source seq s")
      (simp add: store_event_def Let_def raise_counter_def split: option.split)
  then show ?thesis
    by (auto simp: insert_event_def Let_def split: json.split option.split)
qed

lemma peers_grow: "ledger_step E s s' \<Longrightarrow> length (peers s) \<le> length (peers s')"
  by (erule ledger_step.cases)
    (simp_all add: add_peer_def rotate_peer_token_def Let_def split: option.split)

text \<open>
  Authentication fails closed.  Once a peer has been provisioned, every later state
  requires authentication; no operation, revocation of the last token included, opens the bus
  again.
\<close>

theorem auth_stays_required:
  assumes "ledger_ok s" "auth_required s" "ledger_next\<^sup>*\<^sup>* s s'"
  shows "auth_required s'"
proof -
  have "length (peers s) \<le> length (peers s')"
    by (rule ledger_sys.rel_steps [OF assms(3,1)]) (auto simp: ledger_next_def dest: peers_grow)
  with assms(2) show ?thesis by (auto simp: auth_required_def)
qed

theorem auth_stays_required_witness:
  "auth_required (snd (revoke_device_token (lit ''t1'') (lit ''operator'') demo_env demo_bus))"
  by (rule auth_stays_required [OF demo_bus_ok])
    (auto simp: auth_required_def demo_defs ledger_next_def intro!: r_into_rtranclp step_revoke_device_token)

end
