(* ===== verification/Fed_Store.thy ===== *)
theory Fed_Store
  imports Ledger_Tokens
begin

text \<open>
  The federation tables and the operations of \<open>FederationStore\<close>
  (\<open>federation/store.py\<close>).  The federation state extends the ledger record, because the
  store writes both sets of tables in one SQLite transaction: receiving an event inserts the
  dedup row and the local event together, and acknowledging one inserts the acknowledgement
  and the intent to send a receipt together.  Each mutating method owns one transaction, so
  it is one function; an exception inside restores the state before it.

  The column \<open>signed_json\<close> holds the value of its JSON text, and the texts that the
  code only carries around (signatures, addresses, hashes) are strings.
\<close>

section \<open>Rows\<close>

datatype send_status = Pending | Sent | Failed_Permanent

record outbound_row =
  o_id :: int
  o_event_id :: pystr
  o_origin :: pystr
  o_origin_key_id :: pystr
  o_source_local :: pystr
  o_source_addr :: pystr
  o_target :: pystr
  o_target_family :: pystr
  o_type :: pystr
  o_signed_json :: json
  o_sig :: pystr
  o_envelope_json :: bytes
  o_notify_intent_id :: pystr
  o_status :: send_status
  o_attempts :: int
  o_next_retry_at :: "pystr option"
  o_last_error :: "pystr option"
  o_created_at :: pystr
  o_updated_at :: pystr

datatype delivery_state = Delivery_Pending | Delivered

record inbound_row =
  i_id :: int
  i_origin :: pystr
  i_event_id :: pystr
  i_target :: pystr
  i_event_jcs :: bytes
  i_signed_json :: json
  i_sig :: pystr
  i_reg_family :: pystr
  i_reg_key_id :: pystr
  i_reg_public_key :: pystr
  i_local_event_id :: pystr
  i_delivery_state :: delivery_state
  i_created_at :: pystr

record conflict_row =
  c_id :: int
  c_origin :: pystr
  c_event_id :: pystr
  c_event_jcs :: bytes
  c_signed_json :: json
  c_sig :: pystr
  c_reason :: pystr
  c_seen_at :: pystr

record receipt_out_row =
  ro_id :: int
  ro_event_id :: pystr
  ro_agent :: pystr
  ro_ack_type :: pystr
  ro_at :: pystr
  ro_origin :: pystr
  ro_origin_event_sig_hash :: pystr
  ro_issuer :: pystr
  ro_issuer_key_id :: pystr
  ro_signed_json :: "json option"
  ro_sig :: "pystr option"
  ro_status :: send_status
  ro_attempts :: int
  ro_next_retry_at :: "pystr option"
  ro_last_error :: "pystr option"
  ro_created_at :: pystr
  ro_updated_at :: pystr

record original_row =
  ri_id :: int
  ri_event_id :: pystr
  ri_agent :: pystr
  ri_ack_type :: pystr
  ri_issuer :: pystr
  ri_issuer_key_id :: pystr
  ri_signed_json :: json
  ri_sig :: pystr
  ri_is_variant :: bool
  ri_first_seen_at :: pystr

record receipt_in_row =
  rs_event_id :: pystr
  rs_agent :: pystr
  rs_ack_type :: pystr
  rs_issuer :: pystr
  rs_original_id :: int
  rs_updated_at :: pystr

record notification_row =
  n_intent_id :: pystr
  n_kind :: pystr
  n_agent :: "pystr option"
  n_event_id :: "pystr option"
  n_detail_json :: json
  n_hint_sent :: bool
  n_acked :: bool
  n_created_at :: pystr

record fed = ledger +
  federation_outbound :: "outbound_row list"
  federation_inbound :: "inbound_row list"
  federation_inbound_conflicts :: "conflict_row list"
  federation_receipt_out :: "receipt_out_row list"
  federation_receipt_in_originals :: "original_row list"
  federation_receipt_in :: "receipt_in_row list"
  federation_notifications :: "notification_row list"

definition init_fed :: fed where
  "init_fed = ledger.extend init_ledger
     (fed.fields [] [] [] [] [] [] [])"

definition stable_intent_id :: "pystr list \<Rightarrow> pystr" where
  "stable_intent_id parts = uuid5_url (lit ''atalk-fed-notify:'' @ join_with (lit '':'') parts)"


section \<open>Notifications\<close>

record notification =
  nt_intent_id :: pystr
  nt_kind :: pystr
  nt_agent :: "pystr option"
  nt_event_id :: "pystr option"
  nt_detail :: json

definition insert_notification ::
    "pystr \<Rightarrow> pystr \<Rightarrow> pystr option \<Rightarrow> pystr option \<Rightarrow> json \<Rightarrow> pystr \<Rightarrow> 'z fed_scheme \<Rightarrow>
     notification option \<times> 'z fed_scheme" where
  "insert_notification intent_id kind agent event_id detail ts s =
     (if \<exists>r \<in> set (federation_notifications s). n_intent_id r = intent_id then (None, s)
      else (Some \<lparr>nt_intent_id = intent_id, nt_kind = kind, nt_agent = agent, nt_event_id = event_id,
                  nt_detail = detail\<rparr>,
            s\<lparr>federation_notifications := federation_notifications s @
                [\<lparr>n_intent_id = intent_id, n_kind = kind, n_agent = agent, n_event_id = event_id,
                  n_detail_json = sort_keys detail, n_hint_sent = False, n_acked = False,
                  n_created_at = ts\<rparr>]\<rparr>))"

definition notification_order :: "notification_row \<Rightarrow> pystr \<times> pystr" where
  "notification_order r = (n_created_at r, n_intent_id r)"

definition by_created_and_intent :: "notification_row list \<Rightarrow> notification_row list" where
  "by_created_and_intent rows = sort_key n_created_at (sort_key n_intent_id rows)"

definition behind_cursor :: "(pystr \<times> pystr) option \<Rightarrow> notification_row \<Rightarrow> bool" where
  "behind_cursor after r =
     (case after of None \<Rightarrow> True
      | Some (created_at, intent_id) \<Rightarrow>
          created_at < n_created_at r \<or> (n_created_at r = created_at \<and> intent_id < n_intent_id r))"

definition undelivered_notification_hints ::
    "(pystr \<times> pystr) option \<Rightarrow> nat \<Rightarrow> 'z fed_scheme \<Rightarrow> notification_row list" where
  "undelivered_notification_hints after limit s =
     take limit (by_created_and_intent (filter
       (\<lambda>r. \<not> n_hint_sent r \<and> \<not> n_acked r \<and> n_agent r \<noteq> None \<and> behind_cursor after r)
       (federation_notifications s)))"

definition mark_notification_hint_sent :: "pystr \<Rightarrow> 'z fed_scheme \<Rightarrow> 'z fed_scheme" where
  "mark_notification_hint_sent intent_id s =
     s\<lparr>federation_notifications := upd_where (\<lambda>r. n_intent_id r = intent_id)
         (\<lambda>r. r\<lparr>n_hint_sent := True\<rparr>) (federation_notifications s)\<rparr>"

definition notification_hints_for :: "pystr \<Rightarrow> nat \<Rightarrow> 'z fed_scheme \<Rightarrow> notification_row list" where
  "notification_hints_for agent limit s =
     take limit (by_created_and_intent (filter (\<lambda>r. \<not> n_acked r \<and> n_agent r = Some agent)
       (federation_notifications s)))"

definition operator_notification_hints :: "nat \<Rightarrow> 'z fed_scheme \<Rightarrow> notification_row list" where
  "operator_notification_hints limit s =
     take limit (by_created_and_intent (filter (\<lambda>r. \<not> n_acked r \<and> n_agent r = None)
       (federation_notifications s)))"

definition ack_notification_hints ::
    "pystr list \<Rightarrow> pystr option \<Rightarrow> 'z fed_scheme \<Rightarrow> int \<times> 'z fed_scheme" where
  "ack_notification_hints intent_ids agent s =
     (if intent_ids = [] then (0, s)
      else let hit = (\<lambda>r. \<not> n_acked r \<and> n_intent_id r \<in> set intent_ids \<and> n_agent r = agent) in
      (int (length (filter hit (federation_notifications s))),
       s\<lparr>federation_notifications := upd_where hit (\<lambda>r. r\<lparr>n_acked := True\<rparr>)
           (federation_notifications s)\<rparr>))"


section \<open>Outbound events\<close>

datatype enqueue_result = Queued | Existing

definition enqueue_outbound ::
    "pystr \<Rightarrow> pystr \<Rightarrow> pystr \<Rightarrow> pystr \<Rightarrow> pystr \<Rightarrow> pystr \<Rightarrow> pystr \<Rightarrow> pystr \<Rightarrow> json \<Rightarrow> pystr \<Rightarrow> bytes \<Rightarrow>
     int \<Rightarrow> env \<Rightarrow> 'z fed_scheme \<Rightarrow> enqueue_result res \<times> 'z fed_scheme" where
  "enqueue_outbound event_id origin origin_key_id source_local source_addr target target_family ty
     signed_json sig envelope_json outbox_cap E s =
     (if \<exists>r \<in> set (federation_outbound s). o_event_id r = event_id then (Inr Existing, s)
      else if outbox_cap \<le> int (length (filter (\<lambda>r. o_status r = Pending) (federation_outbound s)))
      then (Inl OutboxFull, s)
      else
      (Inr Queued,
       s\<lparr>federation_outbound := federation_outbound s @
          [\<lparr>o_id = next_id o_id (federation_outbound s), o_event_id = event_id, o_origin = origin,
            o_origin_key_id = origin_key_id, o_source_local = source_local,
            o_source_addr = source_addr, o_target = target, o_target_family = target_family,
            o_type = ty, o_signed_json = signed_json, o_sig = sig, o_envelope_json = envelope_json,
            o_notify_intent_id = stable_intent_id [lit ''send_failed'', event_id],
            o_status = Pending, o_attempts = 0, o_next_retry_at = None, o_last_error = None,
            o_created_at = now E 0, o_updated_at = now E 0\<rparr>]\<rparr>))"

definition get_outbound :: "pystr \<Rightarrow> 'z fed_scheme \<Rightarrow> outbound_row option" where
  "get_outbound event_id s = find (\<lambda>r. o_event_id r = event_id) (federation_outbound s)"

definition due :: "pystr \<Rightarrow> pystr option \<Rightarrow> bool" where
  "due ts next_retry_at = (case next_retry_at of None \<Rightarrow> True | Some t \<Rightarrow> t \<le> ts)"

definition due_outbound :: "pystr \<Rightarrow> nat \<Rightarrow> 'z fed_scheme \<Rightarrow> outbound_row list" where
  "due_outbound ts limit s =
     take limit (filter (\<lambda>r. o_status r = Pending \<and> due ts (o_next_retry_at r)) (federation_outbound s))"

definition mark_outbound_sent :: "pystr \<Rightarrow> env \<Rightarrow> 'z fed_scheme \<Rightarrow> 'z fed_scheme" where
  "mark_outbound_sent event_id E s =
     s\<lparr>federation_outbound := upd_where (\<lambda>r. o_event_id r = event_id \<and> o_status r = Pending)
         (\<lambda>r. r\<lparr>o_status := Sent, o_attempts := o_attempts r + 1, o_last_error := None,
                o_updated_at := now E 0\<rparr>) (federation_outbound s)\<rparr>"

definition mark_outbound_retry ::
    "pystr \<Rightarrow> int \<Rightarrow> pystr \<Rightarrow> pystr \<Rightarrow> env \<Rightarrow> 'z fed_scheme \<Rightarrow> 'z fed_scheme" where
  "mark_outbound_retry event_id attempts next_retry_at last_error E s =
     s\<lparr>federation_outbound := upd_where (\<lambda>r. o_event_id r = event_id \<and> o_status r = Pending)
         (\<lambda>r. r\<lparr>o_attempts := attempts, o_next_retry_at := Some next_retry_at,
                o_last_error := Some last_error, o_updated_at := now E 0\<rparr>) (federation_outbound s)\<rparr>"

definition fail_outbound_permanent ::
    "pystr \<Rightarrow> pystr \<Rightarrow> env \<Rightarrow> 'z fed_scheme \<Rightarrow> notification option \<times> 'z fed_scheme" where
  "fail_outbound_permanent event_id error E s =
     (case find (\<lambda>r. o_event_id r = event_id \<and> o_status r = Pending) (federation_outbound s) of
        None \<Rightarrow> (None, s)
      | Some row \<Rightarrow>
          insert_notification (o_notify_intent_id row) (lit ''send_failed'') (Some (o_source_local row))
            (Some event_id)
            (JObj [(lit ''target'', JStr (o_target row)),
                   (lit ''target_family'', JStr (o_target_family row)), (lit ''error'', JStr error)])
            (now E 1)
            (s\<lparr>federation_outbound := upd_where (\<lambda>r. o_id r = o_id row)
                (\<lambda>r. r\<lparr>o_status := Failed_Permanent, o_attempts := o_attempts r + 1,
                       o_last_error := Some error, o_updated_at := now E 0\<rparr>) (federation_outbound s)\<rparr>))"


section \<open>Inbound events\<close>

text \<open>
  The commit of a received event.  The dedup row and the local event are inserted in one
  transaction; the constraint that refuses either of them rolls both back, and the refusal is
  then classified.  The sequence number is the next one of the foreign source address.
\<close>

datatype receive_result =
    Receive_Stored inbound_row
  | Receive_Duplicate inbound_row
  | Receive_Conflict pystr

definition reply_link :: "json \<Rightarrow> json" where
  "reply_link signed_obj =
     (case signed_obj of
        JObj kvs \<Rightarrow> (case obj_get kvs (lit ''event'') of JObj ev \<Rightarrow> obj_get ev (lit ''in_reply_to'') | _ \<Rightarrow> JNull)
      | _ \<Rightarrow> JNull)"

definition dict_set :: "(pystr \<times> json) list \<Rightarrow> pystr \<Rightarrow> json \<Rightarrow> (pystr \<times> json) list" where
  "dict_set kvs key v =
     (if key \<in> set (map fst kvs) then map (\<lambda>(k, w). (k, if k = key then v else w)) kvs
      else kvs @ [(key, v)])"

definition payload_local :: "(pystr \<times> json) list \<Rightarrow> json \<Rightarrow> (pystr \<times> json) list" where
  "payload_local payload signed_obj =
     (if py_true (reply_link signed_obj) then dict_set payload (lit ''in_reply_to'') (reply_link signed_obj)
      else payload)"

definition receive_conflict ::
    "pystr \<Rightarrow> pystr \<Rightarrow> bytes \<Rightarrow> json \<Rightarrow> pystr \<Rightarrow> env \<Rightarrow> 'z fed_scheme \<Rightarrow>
     receive_result res \<times> 'z fed_scheme" where
  "receive_conflict origin event_id event_jcs signed_json sig E s =
     (let existing = find (\<lambda>r. i_origin r = origin \<and> i_event_id r = event_id) (federation_inbound s);
          audit_conflict = (\<lambda>reason.
            (Inr (Receive_Conflict reason),
             s\<lparr>federation_inbound_conflicts := federation_inbound_conflicts s @
                [\<lparr>c_id = next_id c_id (federation_inbound_conflicts s), c_origin = origin,
                  c_event_id = event_id, c_event_jcs = event_jcs, c_signed_json = signed_json,
                  c_sig = sig, c_reason = reason, c_seen_at = now E 0\<rparr>]\<rparr>))
      in case existing of
           None \<Rightarrow> audit_conflict (lit ''local_event_id_collision'')
         | Some row \<Rightarrow>
             if i_event_jcs row = event_jcs then (Inr (Receive_Duplicate row), s)
             else audit_conflict (lit ''same_id_different_content''))"

definition receive_event ::
    "pystr \<Rightarrow> pystr \<Rightarrow> bytes \<Rightarrow> json \<Rightarrow> pystr \<Rightarrow> pystr \<Rightarrow> pystr \<Rightarrow> pystr \<Rightarrow> pystr \<Rightarrow> pystr \<Rightarrow> pystr \<Rightarrow>
     pystr \<Rightarrow> (pystr \<times> json) list \<Rightarrow> pystr \<Rightarrow> env \<Rightarrow> 'z fed_scheme \<Rightarrow>
     receive_result res \<times> 'z fed_scheme" where
  "receive_event origin event_id event_jcs signed_json sig reg_family reg_key_id reg_public_key
     source_addr target_addr target_local ty payload created_at E s =
     (if \<exists>r \<in> set (federation_inbound s). i_origin r = origin \<and> i_event_id r = event_id
      then receive_conflict origin event_id event_jcs signed_json sig E s
      else
      let row = \<lparr>i_id = next_id i_id (federation_inbound s), i_origin = origin, i_event_id = event_id,
                 i_target = target_addr, i_event_jcs = event_jcs, i_signed_json = signed_json,
                 i_sig = sig, i_reg_family = reg_family, i_reg_key_id = reg_key_id,
                 i_reg_public_key = reg_public_key, i_local_event_id = event_id,
                 i_delivery_state = Delivery_Pending, i_created_at = now E 0\<rparr>;
          (seq, s1) = next_seq source_addr (s\<lparr>federation_inbound := federation_inbound s @ [row]\<rparr>)
      in if \<not> fits64 seq then (Inl OverflowError, s)
      else if \<not> fits64 (next_id e_id (events s1)) then (Inl DatabaseFull, s)
      else case event_conflict event_id source_addr seq (events s1) of
        Some _ \<Rightarrow> receive_conflict origin event_id event_jcs signed_json sig E s
      | None \<Rightarrow>
          (Inr (Receive_Stored row),
           s1\<lparr>events := events s1 @
              [\<lparr>e_id = next_id e_id (events s1), e_event_id = event_id, e_source = source_addr,
                e_target = target_local, e_type = ty, e_seq = seq, e_created_at = created_at,
                e_stored_at = now E 0,
                e_payload_json = sort_keys (JObj (payload_local payload signed_json)),
                e_requires_ack = 1, e_source_ref = None, e_auth_actor = None\<rparr>]\<rparr>))"

definition get_inbound :: "pystr option \<Rightarrow> pystr \<Rightarrow> 'z fed_scheme \<Rightarrow> inbound_row option" where
  "get_inbound origin event_id s =
     (case origin of
        Some f \<Rightarrow> find (\<lambda>r. i_origin r = f \<and> i_event_id r = event_id) (federation_inbound s)
      | None \<Rightarrow> find (\<lambda>r. i_event_id r = event_id) (federation_inbound s))"

definition is_local_member :: "pystr \<Rightarrow> 'z fed_scheme \<Rightarrow> bool" where
  "is_local_member agent s = (\<exists>r \<in> set (peers s). p_peer_id r = agent \<and> p_revoked_at r = None)"

definition pending_delivery :: "nat \<Rightarrow> 'z fed_scheme \<Rightarrow> inbound_row list" where
  "pending_delivery limit s =
     take limit (filter (\<lambda>r. i_delivery_state r = Delivery_Pending) (federation_inbound s))"

definition mark_delivered :: "pystr \<Rightarrow> pystr \<Rightarrow> 'z fed_scheme \<Rightarrow> 'z fed_scheme" where
  "mark_delivered origin event_id s =
     s\<lparr>federation_inbound := upd_where (\<lambda>r. i_origin r = origin \<and> i_event_id r = event_id)
         (\<lambda>r. r\<lparr>i_delivery_state := Delivered\<rparr>) (federation_inbound s)\<rparr>"

definition conflicts_for :: "pystr \<Rightarrow> pystr \<Rightarrow> 'z fed_scheme \<Rightarrow> conflict_row list" where
  "conflicts_for origin event_id s =
     filter (\<lambda>r. c_origin r = origin \<and> c_event_id r = event_id) (federation_inbound_conflicts s)"


section \<open>Acknowledgements with a receipt\<close>

text \<open>
  The upsert of the acknowledgement, as in \<open>ack\<close> but guarded by the CHECK constraint
  instead of a test, and the insertion of the receipt intent, which the first acknowledgement
  wins.
\<close>

definition upsert_ack ::
    "pystr \<Rightarrow> pystr \<Rightarrow> pystr \<Rightarrow> json option \<Rightarrow> pystr \<Rightarrow> 'z ledger_scheme \<Rightarrow> unit res \<times> 'z ledger_scheme" where
  "upsert_ack event_id agent_id ack_type detail ts s =
     (let d = sort_keys (case detail of None \<Rightarrow> JObj [] | Some v \<Rightarrow> if py_true v then v else JObj []);
          same = (\<lambda>r. a_event_id r = event_id \<and> a_agent_id r = agent_id \<and> a_ack_type r = ack_type)
      in if ack_type \<notin> {lit ''received'', lit ''applied''}
         then (Inl (IntegrityError (Check ''acks.ack_type'')), s)
         else if \<exists>r \<in> set (acks s). same r
         then (Inr (), s\<lparr>acks := upd_where same (\<lambda>r. r\<lparr>a_ack_at := ts, a_detail_json := d\<rparr>) (acks s)\<rparr>)
         else if \<not> (\<exists>r \<in> set (events s). e_event_id r = event_id)
         then (Inl (IntegrityError (Foreign_Key ''acks.event_id'')), s)
         else (Inr (), s\<lparr>acks := acks s @
                [\<lparr>a_id = next_id a_id (acks s), a_event_id = event_id, a_agent_id = agent_id,
                  a_ack_type = ack_type, a_ack_at = ts, a_detail_json = d\<rparr>]\<rparr>))"

definition ack_with_receipt_intent ::
    "pystr \<Rightarrow> pystr \<Rightarrow> pystr \<Rightarrow> json option \<Rightarrow> pystr \<Rightarrow> pystr \<Rightarrow> pystr \<Rightarrow> pystr \<Rightarrow> pystr \<Rightarrow> env \<Rightarrow>
     'z fed_scheme \<Rightarrow> unit res \<times> 'z fed_scheme" where
  "ack_with_receipt_intent event_id agent_id ack_type detail receipt_agent origin
     origin_event_sig_hash issuer issuer_key_id E s =
     (case upsert_ack event_id agent_id ack_type detail (now E 0) s of
        (Inl e, _) \<Rightarrow> (Inl e, s)
      | (Inr _, s1) \<Rightarrow>
          (Inr (),
           if \<exists>r \<in> set (federation_receipt_out s1). ro_event_id r = event_id \<and>
                 ro_agent r = receipt_agent \<and> ro_ack_type r = ack_type
           then s1
           else s1\<lparr>federation_receipt_out := federation_receipt_out s1 @
             [\<lparr>ro_id = next_id ro_id (federation_receipt_out s1), ro_event_id = event_id,
               ro_agent = receipt_agent, ro_ack_type = ack_type, ro_at = now E 0, ro_origin = origin,
               ro_origin_event_sig_hash = origin_event_sig_hash, ro_issuer = issuer,
               ro_issuer_key_id = issuer_key_id, ro_signed_json = None, ro_sig = None,
               ro_status = Pending, ro_attempts = 0, ro_next_retry_at = None, ro_last_error = None,
               ro_created_at = now E 0, ro_updated_at = now E 0\<rparr>]\<rparr>))"

definition receipt_key :: "receipt_out_row \<Rightarrow> pystr \<times> pystr \<times> pystr" where
  "receipt_key r = (ro_event_id r, ro_agent r, ro_ack_type r)"

definition get_receipt_out :: "pystr \<Rightarrow> pystr \<Rightarrow> pystr \<Rightarrow> 'z fed_scheme \<Rightarrow> receipt_out_row option" where
  "get_receipt_out event_id agent ack_type s =
     find (\<lambda>r. receipt_key r = (event_id, agent, ack_type)) (federation_receipt_out s)"

definition due_receipts :: "pystr \<Rightarrow> nat \<Rightarrow> 'z fed_scheme \<Rightarrow> receipt_out_row list" where
  "due_receipts ts limit s =
     take limit (filter (\<lambda>r. ro_status r = Pending \<and> due ts (ro_next_retry_at r)) (federation_receipt_out s))"

definition materialize_receipt ::
    "pystr \<Rightarrow> pystr \<Rightarrow> pystr \<Rightarrow> json \<Rightarrow> pystr \<Rightarrow> env \<Rightarrow> 'z fed_scheme \<Rightarrow> bool \<times> 'z fed_scheme" where
  "materialize_receipt event_id agent ack_type signed_json sig E s =
     (let hit = (\<lambda>r. receipt_key r = (event_id, agent, ack_type) \<and> ro_signed_json r = None \<and>
                     ro_status r = Pending)
      in (\<exists>r \<in> set (federation_receipt_out s). hit r,
          s\<lparr>federation_receipt_out := upd_where hit
              (\<lambda>r. r\<lparr>ro_signed_json := Some signed_json, ro_sig := Some sig, ro_updated_at := now E 0\<rparr>)
              (federation_receipt_out s)\<rparr>))"

definition mark_receipt_sent :: "pystr \<Rightarrow> pystr \<Rightarrow> pystr \<Rightarrow> env \<Rightarrow> 'z fed_scheme \<Rightarrow> 'z fed_scheme" where
  "mark_receipt_sent event_id agent ack_type E s =
     s\<lparr>federation_receipt_out := upd_where
         (\<lambda>r. receipt_key r = (event_id, agent, ack_type) \<and> ro_status r = Pending)
         (\<lambda>r. r\<lparr>ro_status := Sent, ro_attempts := ro_attempts r + 1, ro_last_error := None,
                ro_updated_at := now E 0\<rparr>) (federation_receipt_out s)\<rparr>"

definition mark_receipt_retry ::
    "pystr \<Rightarrow> pystr \<Rightarrow> pystr \<Rightarrow> int \<Rightarrow> pystr \<Rightarrow> pystr \<Rightarrow> env \<Rightarrow> 'z fed_scheme \<Rightarrow> 'z fed_scheme" where
  "mark_receipt_retry event_id agent ack_type attempts next_retry_at last_error E s =
     s\<lparr>federation_receipt_out := upd_where
         (\<lambda>r. receipt_key r = (event_id, agent, ack_type) \<and> ro_status r = Pending)
         (\<lambda>r. r\<lparr>ro_attempts := attempts, ro_next_retry_at := Some next_retry_at,
                ro_last_error := Some last_error, ro_updated_at := now E 0\<rparr>) (federation_receipt_out s)\<rparr>"

definition fail_receipt_permanent ::
    "pystr \<Rightarrow> pystr \<Rightarrow> pystr \<Rightarrow> pystr \<Rightarrow> env \<Rightarrow> 'z fed_scheme \<Rightarrow> notification option \<times> 'z fed_scheme" where
  "fail_receipt_permanent event_id agent ack_type error E s =
     (case find (\<lambda>r. receipt_key r = (event_id, agent, ack_type) \<and> ro_status r = Pending)
             (federation_receipt_out s) of
        None \<Rightarrow> (None, s)
      | Some row \<Rightarrow>
          insert_notification
            (stable_intent_id [lit ''receipt_send_failed'', event_id, agent, ack_type])
            (lit ''receipt_send_failed'') None (Some event_id)
            (JObj [(lit ''agent'', JStr agent), (lit ''ack_type'', JStr ack_type), (lit ''error'', JStr error)])
            (now E 1)
            (s\<lparr>federation_receipt_out := upd_where (\<lambda>r. ro_id r = ro_id row)
                (\<lambda>r. r\<lparr>ro_status := Failed_Permanent, ro_attempts := ro_attempts r + 1,
                       ro_last_error := Some error, ro_updated_at := now E 0\<rparr>)
                (federation_receipt_out s)\<rparr>))"


section \<open>Received receipts\<close>

definition original_key :: "original_row \<Rightarrow> pystr \<times> pystr \<times> pystr" where
  "original_key r = (ri_event_id r, ri_agent r, ri_ack_type r)"

definition state_key :: "receipt_in_row \<Rightarrow> pystr \<times> pystr \<times> pystr" where
  "state_key r = (rs_event_id r, rs_agent r, rs_ack_type r)"

datatype receipt_result = Receipt_Stored | Receipt_Duplicate

text \<open>\<open>INSERT OR IGNORE\<close> of the original: the table after it and the id of the original.\<close>

definition insert_original ::
    "pystr \<Rightarrow> pystr \<Rightarrow> pystr \<Rightarrow> pystr \<Rightarrow> pystr \<Rightarrow> json \<Rightarrow> pystr \<Rightarrow> pystr \<Rightarrow> original_row list \<Rightarrow>
     bool \<times> int \<times> original_row list" where
  "insert_original event_id agent ack_type issuer issuer_key_id signed_json sig ts rows =
     (let key = (event_id, agent, ack_type);
          is_variant = (\<exists>r \<in> set rows. original_key r = key)
      in case find (\<lambda>r. original_key r = key \<and> ri_sig r = sig) rows of
           Some r \<Rightarrow> (False, ri_id r, rows)
         | None \<Rightarrow>
             (True, next_id ri_id rows,
              rows @ [\<lparr>ri_id = next_id ri_id rows, ri_event_id = event_id, ri_agent = agent,
                       ri_ack_type = ack_type, ri_issuer = issuer, ri_issuer_key_id = issuer_key_id,
                       ri_signed_json = signed_json, ri_sig = sig, ri_is_variant = is_variant,
                       ri_first_seen_at = ts\<rparr>]))"

definition record_receipt_in ::
    "pystr \<Rightarrow> pystr \<Rightarrow> pystr \<Rightarrow> pystr \<Rightarrow> pystr \<Rightarrow> json \<Rightarrow> pystr \<Rightarrow> pystr option \<Rightarrow>
     (pystr \<times> json) list \<Rightarrow> env \<Rightarrow> 'z fed_scheme \<Rightarrow>
     (receipt_result \<times> notification option) res \<times> 'z fed_scheme" where
  "record_receipt_in event_id agent ack_type issuer issuer_key_id signed_json sig notify_agent
     notify_detail E s =
     (let (inserted, original_id, originals) =
            insert_original event_id agent ack_type issuer issuer_key_id signed_json sig (now E 0)
              (federation_receipt_in_originals s);
          key = (event_id, agent, ack_type);
          s1 = s\<lparr>federation_receipt_in_originals := originals\<rparr>
      in if ack_type \<notin> {lit ''received'', lit ''applied''}
         then (Inl (IntegrityError (Check ''federation_receipt_in.ack_type'')), s)
         else
         let s2 = (if \<exists>r \<in> set (federation_receipt_in s1). state_key r = key then s1
                   else s1\<lparr>federation_receipt_in := federation_receipt_in s1 @
                     [\<lparr>rs_event_id = event_id, rs_agent = agent, rs_ack_type = ack_type,
                       rs_issuer = issuer, rs_original_id = original_id, rs_updated_at = now E 0\<rparr>]\<rparr>)
         in if inserted then
              (let (notification, s3) =
                     insert_notification (stable_intent_id [lit ''receipt'', event_id, agent, ack_type])
                       (lit ''receipt_received'') notify_agent (Some event_id)
                       (JObj (dict_set (dict_set (dict_set notify_detail (lit ''agent'') (JStr agent))
                          (lit ''ack_type'') (JStr ack_type)) (lit ''issuer'') (JStr issuer)))
                       (now E 1) s2
               in (Inr (Receipt_Stored, notification), s3))
            else (Inr (Receipt_Duplicate, None), s2))"

definition receipt_stage :: "pystr \<Rightarrow> pystr \<Rightarrow> 'z fed_scheme \<Rightarrow> pystr option" where
  "receipt_stage event_id agent s =
     (let types = rs_ack_type ` {r \<in> set (federation_receipt_in s).
                                  rs_event_id r = event_id \<and> rs_agent r = agent}
      in if lit ''applied'' \<in> types then Some (lit ''applied'')
         else if lit ''received'' \<in> types then Some (lit ''received'')
         else None)"

definition receipt_originals ::
    "pystr \<Rightarrow> pystr option \<Rightarrow> pystr option \<Rightarrow> 'z fed_scheme \<Rightarrow> original_row list" where
  "receipt_originals event_id agent ack_type s =
     filter (\<lambda>r. ri_event_id r = event_id \<and>
                (case agent of None \<Rightarrow> True | Some a \<Rightarrow> ri_agent r = a) \<and>
                (case ack_type of None \<Rightarrow> True | Some t \<Rightarrow> ri_ack_type r = t))
       (federation_receipt_in_originals s)"

end
