(* ===== verification/Fed_Props.thy ===== *)
theory Fed_Props
  imports Fed_Store
begin

text \<open>
  What the federation store promises: its tables stay consistent with the ledger's under
  every mix of local and federation operations, a received event is delivered into the log
  exactly once, an ended send is never reactivated and what is sent never changes, a receipt
  is fixed at the first acknowledgement, a receipt stage never falls back, the outbox keeps its
  cap, and a notification is completed only by its owner's acknowledgement.
\<close>

section \<open>Local operations and the federation tables\<close>

lemma ledger_more_simps [simp]:
  "ledger.more (snd (insert_acl_targets p t ts s)) = ledger.more s"
  by (induction ts arbitrary: s) simp_all

lemma insert_event_more [simp]:
  "ledger.more (snd (insert_event source target ty payload seq event_id created_at ra ref token E s)) =
   ledger.more s"
proof -
  have "ledger.more (snd (alloc_seq source seq s)) = ledger.more s"
    by (cases seq) (simp_all add: alloc_seq_def next_seq_def Let_def)
  then have "ledger.more (snd (store_event source target ty kvs seq eid created ra ref actor E s)) =
      ledger.more s" for kvs eid created actor
    by (cases "alloc_seq source seq s")
      (simp add: store_event_def Let_def raise_counter_def audit_def split: option.split)
  then show ?thesis
    by (auto simp: insert_event_def Let_def audit_def split: json.split option.split)
qed

lemma ledger_step_more: "ledger_step E s s' \<Longrightarrow> ledger.more s' = ledger.more s"
  by (erule ledger_step.cases)
    (simp_all add: set_target_acl_def clear_target_acl_def add_peer_def rotate_peer_token_def
      add_device_token_def revoke_device_token_def add_grant_def revoke_grant_def ack_def audit_def
      write_probe_def migrate_peer_tokens_def ensure_token_schema_def Let_def
      split: option.split sum.split)

lemma fed_tables_of_more:
  assumes "ledger.more s' = ledger.more (s :: 'z fed_scheme)"
  shows "federation_outbound s' = federation_outbound s" "federation_inbound s' = federation_inbound s"
    "federation_inbound_conflicts s' = federation_inbound_conflicts s"
    "federation_receipt_out s' = federation_receipt_out s"
    "federation_receipt_in_originals s' = federation_receipt_in_originals s"
    "federation_receipt_in s' = federation_receipt_in s"
    "federation_notifications s' = federation_notifications s"
  using assms by (cases s; cases s'; simp)+

lemmas ledger_step_tables = fed_tables_of_more [OF ledger_step_more]

lemma acks_frame [simp]:
  "acks (snd (set_target_acl p targets E s)) = acks s"
  "acks (clear_target_acl p s) = acks s"
  "acks (snd (add_peer p token role platform endpoint dc timeout E s)) = acks s"
  "acks (snd (rotate_peer_token p token grace E s)) = acks s"
  "acks (snd (add_device_token p label token scope actor E s)) = acks s"
  "acks (snd (revoke_device_token token_id actor E s)) = acks s"
  "acks (snd (add_grant grantor grantee ct gscope valid_until E s)) = acks s"
  "acks (snd (revoke_grant grant_id E s)) = acks s"
  "acks (write_probe E s) = acks s"
  "acks (migrate_peer_tokens s) = acks s"
  "acks (snd (ensure_token_schema s)) = acks s"
  by (simp_all add: set_target_acl_def clear_target_acl_def add_peer_def rotate_peer_token_def
      add_device_token_def revoke_device_token_def add_grant_def revoke_grant_def
      write_probe_def migrate_peer_tokens_def ensure_token_schema_def Let_def
      split: option.split sum.split)

lemma insert_event_acks [simp]:
  "acks (snd (insert_event source target ty payload seq event_id created_at ra ref token E s)) = acks s"
proof -
  have "acks (snd (alloc_seq source seq s)) = acks s"
    by (cases seq) (simp_all add: alloc_seq_def next_seq_def Let_def)
  then have "acks (snd (store_event source target ty kvs seq eid created ra ref actor E s)) = acks s"
    for kvs eid created actor
    by (cases "alloc_seq source seq s")
      (simp add: store_event_def Let_def raise_counter_def split: option.split)
  then show ?thesis
    by (auto simp: insert_event_def Let_def split: json.split option.split)
qed

lemma ack_error_state: "fst (ack eid agent ty detail E s) = Inl e \<Longrightarrow> snd (ack eid agent ty detail E s) = s"
  unfolding ack_def Let_def by (simp del: insert_iff split: if_split_asm) blast

lemma ledger_step_ack_keys:
  assumes "ledger_step E s s'"
  shows "ack_keys s \<subseteq> ack_keys s'"
  using assms
proof (cases rule: ledger_step.cases)
  case (step_ack event_id agent ack_type detail)
  show ?thesis
  proof (cases "fst (ack event_id agent ack_type detail E s)")
    case (Inl e)
    then have "s' = s" using step_ack ack_error_state by metis
    then show ?thesis by simp
  next
    case (Inr u)
    then have "ack event_id agent ack_type detail E s = (Inr (), s')"
      using step_ack by (simp add: prod_eq_iff)
    from ack_keys_ack [OF this] show ?thesis by blast
  qed
qed (simp_all add: ack_keys_def)


section \<open>The federation state as a transition system\<close>

text \<open>
  One step per mutating method of \<open>FederationStore\<close>, and every step of the ledger.  The
  events that reach \<open>receive_event\<close> have passed the envelope schema, which admits the types
  \<open>message\<close> and \<open>reply\<close> only, so a received event is never a command.
\<close>

inductive fed_step :: "env \<Rightarrow> 'z fed_scheme \<Rightarrow> 'z fed_scheme \<Rightarrow> bool" for E where
  fed_local: "ledger_step E s s' \<Longrightarrow> fed_step E s s'"
| fed_enqueue: "fed_step E s (snd (enqueue_outbound event_id origin key_id source_local source_addr target
    target_family ty signed_json sig envelope cap E s))"
| fed_outbound_sent: "fed_step E s (mark_outbound_sent event_id E s)"
| fed_outbound_retry: "fed_step E s (mark_outbound_retry event_id attempts next_retry_at last_error E s)"
| fed_outbound_fail: "fed_step E s (snd (fail_outbound_permanent event_id error E s))"
| fed_receive: "ty \<in> {lit ''message'', lit ''reply''} \<Longrightarrow>
    fed_step E s (snd (receive_event origin event_id event_jcs signed_json sig reg_family reg_key_id
      reg_public_key source_addr target_addr target_local ty payload created_at E s))"
| fed_delivered: "fed_step E s (mark_delivered origin event_id s)"
| fed_ack: "fed_step E s (snd (ack_with_receipt_intent event_id agent_id ack_type detail receipt_agent
    origin sig_hash issuer issuer_key_id E s))"
| fed_materialize: "fed_step E s (snd (materialize_receipt event_id agent ack_type signed_json sig E s))"
| fed_receipt_sent: "fed_step E s (mark_receipt_sent event_id agent ack_type E s)"
| fed_receipt_retry: "fed_step E s
    (mark_receipt_retry event_id agent ack_type attempts next_retry_at last_error E s)"
| fed_receipt_fail: "fed_step E s (snd (fail_receipt_permanent event_id agent ack_type error E s))"
| fed_record_receipt: "fed_step E s (snd (record_receipt_in event_id agent ack_type issuer issuer_key_id
    signed_json sig notify_agent notify_detail E s))"
| fed_hint_sent: "fed_step E s (mark_notification_hint_sent intent_id s)"
| fed_ack_hints: "fed_step E s (snd (ack_notification_hints intent_ids hint_agent s))"

definition fed_next :: "'z fed_scheme \<Rightarrow> 'z fed_scheme \<Rightarrow> bool" where
  "fed_next s s' = (\<exists>E. fed_step E s s')"

section \<open>Table invariants\<close>

definition outbound_ok :: "outbound_row list \<Rightarrow> bool" where
  "outbound_ok rows = (sorted_wrt (<) (map o_id rows) \<and> distinct (map o_event_id rows))"

definition inbound_ok :: "event_row list \<Rightarrow> inbound_row list \<Rightarrow> bool" where
  "inbound_ok evs rows = (sorted_wrt (<) (map i_id rows) \<and>
     distinct (map (\<lambda>r. (i_origin r, i_event_id r)) rows) \<and>
     (\<forall>r \<in> set rows. i_local_event_id r = i_event_id r \<and> i_event_id r \<in> e_event_id ` set evs))"

definition receipts_out_ok :: "(pystr \<times> pystr \<times> pystr) set \<Rightarrow> receipt_out_row list \<Rightarrow> bool" where
  "receipts_out_ok A rows = (sorted_wrt (<) (map ro_id rows) \<and> distinct (map receipt_key rows) \<and>
     (\<forall>r \<in> set rows. \<exists>agent. (ro_event_id r, agent, ro_ack_type r) \<in> A))"

definition originals_ok :: "original_row list \<Rightarrow> bool" where
  "originals_ok rows = (sorted_wrt (<) (map ri_id rows) \<and>
     distinct (map (\<lambda>r. (original_key r, ri_sig r)) rows))"

definition states_ok :: "original_row list \<Rightarrow> receipt_in_row list \<Rightarrow> bool" where
  "states_ok os rows = (distinct (map state_key rows) \<and>
     (\<forall>r \<in> set rows. \<exists>orig \<in> set os. ri_id orig = rs_original_id r \<and> original_key orig = state_key r))"

definition notifications_ok :: "notification_row list \<Rightarrow> bool" where
  "notifications_ok rows = distinct (map n_intent_id rows)"

definition fed_ok :: "'z fed_scheme \<Rightarrow> bool" where
  "fed_ok s = (ledger_ok s \<and> outbound_ok (federation_outbound s) \<and>
     inbound_ok (events s) (federation_inbound s) \<and>
     receipts_out_ok (ack_keys s) (federation_receipt_out s) \<and>
     originals_ok (federation_receipt_in_originals s) \<and>
     states_ok (federation_receipt_in_originals s) (federation_receipt_in s) \<and>
     notifications_ok (federation_notifications s))"

lemma fed_ok_parts:
  assumes "fed_ok s"
  shows "ledger_ok s" "outbound_ok (federation_outbound s)"
    "inbound_ok (events s) (federation_inbound s)"
    "receipts_out_ok (ack_keys s) (federation_receipt_out s)"
    "originals_ok (federation_receipt_in_originals s)"
    "states_ok (federation_receipt_in_originals s) (federation_receipt_in s)"
    "notifications_ok (federation_notifications s)"
  using assms by (simp_all add: fed_ok_def)

lemma fed_ok_init: "fed_ok init_fed"
  by (simp add: fed_ok_def init_fed_def ledger.defs fed.defs init_ledger_def ledger_ok_def peers_ok_def
      tokens_ok_def token_ids_ok_def grants_ok_def acl_ok_def events_ok_def acks_ok_def audit_ok_def
      peer_ids_def outbound_ok_def inbound_ok_def receipts_out_ok_def originals_ok_def states_ok_def
      notifications_ok_def)

lemma ledger_ok_fed_update [simp]:
  "ledger_ok (s\<lparr>federation_outbound := a\<rparr>) = ledger_ok s"
  "ledger_ok (s\<lparr>federation_inbound := b\<rparr>) = ledger_ok s"
  "ledger_ok (s\<lparr>federation_inbound_conflicts := c\<rparr>) = ledger_ok s"
  "ledger_ok (s\<lparr>federation_receipt_out := d\<rparr>) = ledger_ok s"
  "ledger_ok (s\<lparr>federation_receipt_in_originals := e\<rparr>) = ledger_ok s"
  "ledger_ok (s\<lparr>federation_receipt_in := f\<rparr>) = ledger_ok s"
  "ledger_ok (s\<lparr>federation_notifications := g\<rparr>) = ledger_ok s"
  by (simp_all add: ledger_ok_def peer_ids_def)

lemma ack_keys_fed_update [simp]:
  "ack_keys (s\<lparr>federation_outbound := a\<rparr>) = ack_keys s"
  "ack_keys (s\<lparr>federation_inbound := b\<rparr>) = ack_keys s"
  "ack_keys (s\<lparr>federation_inbound_conflicts := c\<rparr>) = ack_keys s"
  "ack_keys (s\<lparr>federation_receipt_out := d\<rparr>) = ack_keys s"
  "ack_keys (s\<lparr>federation_receipt_in_originals := e\<rparr>) = ack_keys s"
  "ack_keys (s\<lparr>federation_receipt_in := f\<rparr>) = ack_keys s"
  "ack_keys (s\<lparr>federation_notifications := g\<rparr>) = ack_keys s"
  by (simp_all add: ack_keys_def)


text \<open>Writing one federation table keeps the invariant when the table's own part is kept.\<close>

lemma fed_ok_tables:
  assumes "fed_ok s"
  shows "outbound_ok a \<Longrightarrow> fed_ok (s\<lparr>federation_outbound := a\<rparr>)"
    and "inbound_ok (events s) b \<Longrightarrow> fed_ok (s\<lparr>federation_inbound := b\<rparr>)"
    and "fed_ok (s\<lparr>federation_inbound_conflicts := c\<rparr>)"
    and "receipts_out_ok (ack_keys s) d \<Longrightarrow> fed_ok (s\<lparr>federation_receipt_out := d\<rparr>)"
    and "notifications_ok g \<Longrightarrow> fed_ok (s\<lparr>federation_notifications := g\<rparr>)"
  using assms by (simp_all add: fed_ok_def)

lemma outbound_ok_update:
  assumes "outbound_ok rows" "\<And>r. o_id (f r) = o_id r" "\<And>r. o_event_id (f r) = o_event_id r"
  shows "outbound_ok (upd_where P f rows)"
  using assms by (simp add: outbound_ok_def map_upd_where)

lemma receipts_out_ok_update:
  assumes "receipts_out_ok A rows" "\<And>r. ro_id (f r) = ro_id r" "\<And>r. receipt_key (f r) = receipt_key r"
  shows "receipts_out_ok A (upd_where P f rows)"
proof -
  have "ro_event_id (f r) = ro_event_id r \<and> ro_ack_type (f r) = ro_ack_type r" for r
    using assms(3) [of r] by (simp add: receipt_key_def)
  then show ?thesis
    using assms by (auto simp: receipts_out_ok_def map_upd_where set_upd_where)
qed

lemma notifications_ok_update:
  "notifications_ok rows \<Longrightarrow> (\<And>r. n_intent_id (f r) = n_intent_id r) \<Longrightarrow> notifications_ok (upd_where P f rows)"
  by (simp add: notifications_ok_def map_upd_where)

lemma inbound_ok_delivered:
  assumes "inbound_ok evs rows"
  shows "inbound_ok evs (upd_where P (\<lambda>r. r\<lparr>i_delivery_state := d\<rparr>) rows)"
  using assms by (auto simp: inbound_ok_def map_upd_where set_upd_where)

lemma insert_notification_ok:
  "fed_ok s \<Longrightarrow> fed_ok (snd (insert_notification intent kind agent eid detail ts s))"
  using fed_ok_parts(7) [of s]
  by (auto simp: insert_notification_def notifications_ok_def image_iff intro!: fed_ok_tables(5))

lemma enqueue_outbound_ok:
  assumes "fed_ok s"
  shows "fed_ok (snd (enqueue_outbound event_id origin key_id source_local source_addr target
    target_family ty signed_json sig envelope cap E s))"
proof -
  have "outbound_ok (federation_outbound s @ [r])"
    if "o_id r = next_id o_id (federation_outbound s)"
      "\<not> (\<exists>x \<in> set (federation_outbound s). o_event_id x = o_event_id r)" for r
    using fed_ok_parts(2) [OF assms] that ascending_snoc_next_id [of o_id "federation_outbound s" r]
    by (auto simp: outbound_ok_def)
  then show ?thesis
    using assms unfolding enqueue_outbound_def by (auto intro!: fed_ok_tables(1))
qed

lemma mark_outbound_ok:
  assumes "fed_ok s"
  shows "fed_ok (mark_outbound_sent event_id E s)"
    and "fed_ok (mark_outbound_retry event_id attempts next_retry_at last_error E s)"
    and "fed_ok (snd (fail_outbound_permanent event_id error E s))"
  using assms unfolding mark_outbound_sent_def mark_outbound_retry_def fail_outbound_permanent_def
  by (auto split: option.split intro!: fed_ok_tables(1) insert_notification_ok outbound_ok_update
      fed_ok_parts(2))

lemma mark_receipt_ok:
  assumes "fed_ok s"
  shows "fed_ok (mark_receipt_sent event_id agent ack_type E s)"
    and "fed_ok (mark_receipt_retry event_id agent ack_type attempts next_retry_at last_error E s)"
    and "fed_ok (snd (fail_receipt_permanent event_id agent ack_type error E s))"
    and "fed_ok (snd (materialize_receipt event_id agent ack_type signed_json sig E s))"
  using assms unfolding mark_receipt_sent_def mark_receipt_retry_def fail_receipt_permanent_def
    materialize_receipt_def
  by (auto split: option.split intro!: fed_ok_tables(4) insert_notification_ok receipts_out_ok_update
      fed_ok_parts(4) simp: receipt_key_def Let_def)

lemma mark_notification_ok:
  assumes "fed_ok s"
  shows "fed_ok (mark_notification_hint_sent intent_id s)"
    and "fed_ok (snd (ack_notification_hints intent_ids agent s))"
  using assms unfolding mark_notification_hint_sent_def ack_notification_hints_def
  by (auto simp: Let_def intro!: fed_ok_tables(5) notifications_ok_update fed_ok_parts(7))

lemma mark_delivered_ok: "fed_ok s \<Longrightarrow> fed_ok (mark_delivered origin event_id s)"
  unfolding mark_delivered_def by (intro fed_ok_tables(2) inbound_ok_delivered fed_ok_parts(3))

text \<open>The acknowledgement of the federation path is the ledger's, for the two valid types.\<close>

lemma upsert_ack_eq:
  assumes "ack_type \<in> {lit ''received'', lit ''applied''}" "now E 0 = ts"
  shows "upsert_ack event_id agent ack_type detail ts s = ack event_id agent ack_type detail E s"
  using assms by (simp add: upsert_ack_def ack_def compact_json_def Let_def)

text \<open>Its outcome: an error without effect, or the acknowledgement and the first intent.\<close>

lemma ack_with_receipt_cases:
  fixes s :: "'z fed_scheme" and event_id agent_id ack_type detail receipt_agent origin sig_hash issuer kid E
  defines "call \<equiv> ack_with_receipt_intent event_id agent_id ack_type detail receipt_agent origin
    sig_hash issuer kid E s"
  obtains (failed) e where "call = (Inl e, s)"
    | (acked) s1 where "ack event_id agent_id ack_type detail E s = (Inr (), s1)"
      "ack_type \<in> {lit ''received'', lit ''applied''}"
      "call = (Inr (), if (event_id, receipt_agent, ack_type) \<in> receipt_key ` set (federation_receipt_out s)
        then s1 else s1\<lparr>federation_receipt_out := federation_receipt_out s @
          [\<lparr>ro_id = next_id ro_id (federation_receipt_out s), ro_event_id = event_id,
               ro_agent = receipt_agent, ro_ack_type = ack_type, ro_at = now E 0, ro_origin = origin,
               ro_origin_event_sig_hash = sig_hash, ro_issuer = issuer,
               ro_issuer_key_id = kid, ro_signed_json = None, ro_sig = None,
               ro_status = Pending, ro_attempts = 0, ro_next_retry_at = None, ro_last_error = None,
               ro_created_at = now E 0, ro_updated_at = now E 0\<rparr>]\<rparr>)"
proof (cases "ack_type \<in> {lit ''received'', lit ''applied''}")
  case False
  then show thesis
    using failed by (simp add: call_def ack_with_receipt_intent_def upsert_ack_def Let_def)
next
  case True
  have up: "upsert_ack event_id agent_id ack_type detail (now E 0) s =
      ack event_id agent_id ack_type detail E s"
    using True by (rule upsert_ack_eq) (rule refl)
  show thesis
  proof (cases "ack event_id agent_id ack_type detail E s")
    case (Pair r s1)
    show thesis
    proof (cases r)
      case (Inl e)
      then show thesis using failed Pair by (simp add: call_def ack_with_receipt_intent_def up)
    next
      case (Inr u)
      have out: "federation_receipt_out s1 = federation_receipt_out s"
        using ledger_step_tables(4) [OF step_ack [of E s event_id agent_id ack_type detail]] Pair by simp
      have "(\<exists>r \<in> set (federation_receipt_out s). ro_event_id r = event_id \<and> ro_agent r = receipt_agent \<and>
          ro_ack_type r = ack_type) \<longleftrightarrow>
        (event_id, receipt_agent, ack_type) \<in> receipt_key ` set (federation_receipt_out s)"
        by (force simp: receipt_key_def)
      then show thesis
        using acked [of s1] Pair Inr True by (simp add: call_def ack_with_receipt_intent_def up out)
    qed
  qed
qed


lemma ledger_step_fed_ok:
  assumes "ledger_step E s s'" "fed_ok s"
  shows "fed_ok s'"
proof -
  note parts = fed_ok_parts [OF assms(2)]
  have "prefix (events s) (events s')"
    using log_le_step [OF parts(1), of s'] assms(1) by (auto simp: ledger_next_def log_le_def)
  then have "set (events s) \<subseteq> set (events s')" by (rule set_mono_prefix)
  then have "inbound_ok (events s') (federation_inbound s)"
    using parts(3) image_mono [of "set (events s)" "set (events s')" e_event_id]
    unfolding inbound_ok_def by blast
  moreover have "receipts_out_ok (ack_keys s') (federation_receipt_out s)"
    using parts(4) ledger_step_ack_keys [OF assms(1)] unfolding receipts_out_ok_def by blast
  ultimately show ?thesis
    using parts ledger_step_ok [OF assms(1) parts(1)]
    by (simp add: fed_ok_def ledger_step_tables [OF assms(1)])
qed

lemma ack_with_receipt_ok:
  assumes "fed_ok s"
  shows "fed_ok (snd (ack_with_receipt_intent event_id agent_id ack_type detail receipt_agent origin
    sig_hash issuer kid E s))"
proof (cases rule: ack_with_receipt_cases [where event_id = event_id and agent_id = agent_id
      and ack_type = ack_type and detail = detail and receipt_agent = receipt_agent and origin = origin
      and sig_hash = sig_hash and issuer = issuer and kid = kid and E = E and s = s])
  case (failed e)
  with assms show ?thesis by simp
next
  case (acked s1)
  have step: "ledger_step E s s1"
    using step_ack [of E s event_id agent_id ack_type detail] acked(1) by simp
  have ok1: "fed_ok s1" using step assms by (rule ledger_step_fed_ok)
  have out: "federation_receipt_out s1 = federation_receipt_out s" by (rule ledger_step_tables [OF step])
  have key: "(event_id, agent_id, ack_type) \<in> ack_keys s1" using ack_keys_ack [OF acked(1)] by blast
  have "receipts_out_ok (ack_keys s1) (federation_receipt_out s @ [r])"
    if "ro_id r = next_id ro_id (federation_receipt_out s)" "ro_event_id r = event_id"
      "ro_ack_type r = ack_type" "receipt_key r \<notin> receipt_key ` set (federation_receipt_out s)" for r
    using fed_ok_parts(4) [OF ok1] key that ascending_snoc_next_id [of ro_id "federation_receipt_out s" r]
    unfolding receipts_out_ok_def out by auto
  then show ?thesis
    using ok1 acked(3) by (auto simp: receipt_key_def intro!: fed_ok_tables(4))
qed

lemma receive_conflict_ok:
  "fed_ok s \<Longrightarrow> fed_ok (snd (receive_conflict origin event_id jcs signed_json sig E s))"
  by (auto simp: receive_conflict_def Let_def split: option.split intro: fed_ok_tables(3))

text \<open>
  The outcomes of \<open>receive_event\<close>: a refusal before anything is written, the classification of
  a refused insertion, or both rows.
\<close>

lemma receive_event_cases:
  fixes s :: "'z fed_scheme" and origin event_id jcs signed_json sig rf rk rp source_addr target_addr
    target_local ty payload created_at E
  assumes ok: "fed_ok s"
  defines "call \<equiv> receive_event origin event_id jcs signed_json sig rf rk rp source_addr target_addr
      target_local ty payload created_at E s"
    and "seq \<equiv> seq_choice source_addr None s"
  obtains (full) e where "call = (Inl e, s)" "e \<in> {OverflowError, DatabaseFull}"
    | (refused) "(\<exists>r \<in> set (federation_inbound s). i_origin r = origin \<and> i_event_id r = event_id) \<or>
        (\<exists>r \<in> set (events s). e_event_id r = event_id)"
      "call = receive_conflict origin event_id jcs signed_json sig E s"
    | (stored) row ev where
      "\<not> (\<exists>r \<in> set (federation_inbound s). i_origin r = origin \<and> i_event_id r = event_id)"
      "\<forall>r \<in> set (events s). e_event_id r \<noteq> event_id"
      "call = (Inr (Receive_Stored row), s\<lparr>federation_inbound := federation_inbound s @ [row],
         events := events s @ [ev],
         source_counters := counters_after source_addr seq (source_counters s)\<rparr>)"
      "row = \<lparr>i_id = next_id i_id (federation_inbound s), i_origin = origin, i_event_id = event_id,
                 i_target = target_addr, i_event_jcs = jcs, i_signed_json = signed_json,
                 i_sig = sig, i_reg_family = rf, i_reg_key_id = rk,
                 i_reg_public_key = rp, i_local_event_id = event_id,
                 i_delivery_state = Delivery_Pending, i_created_at = now E 0\<rparr>"
      "ev = \<lparr>e_id = next_id e_id (events s), e_event_id = event_id, e_source = source_addr,
                e_target = target_local, e_type = ty, e_seq = seq, e_created_at = created_at,
                e_stored_at = now E 0,
                e_payload_json = sort_keys (JObj (payload_local payload signed_json)),
                e_requires_ack = 1, e_source_ref = None, e_auth_actor = None\<rparr>"
      "fits64 seq" "fits64 (next_id e_id (events s))"
      "\<forall>r \<in> set (events s). e_source r = source_addr \<longrightarrow> e_seq r \<noteq> seq"
proof -
  note ev_ok = ledger_ok_parts(5) [OF fed_ok_parts(1) [OF ok]]
  have above: "\<forall>r \<in> set (events s). e_source r = source_addr \<longrightarrow> e_seq r \<noteq> seq"
    using auto_seq_above [OF ev_ok] unfolding seq_def by fastforce
  define row where "row = \<lparr>i_id = next_id i_id (federation_inbound s), i_origin = origin, i_event_id = event_id,
                 i_target = target_addr, i_event_jcs = jcs, i_signed_json = signed_json,
                 i_sig = sig, i_reg_family = rf, i_reg_key_id = rk,
                 i_reg_public_key = rp, i_local_event_id = event_id,
                 i_delivery_state = Delivery_Pending, i_created_at = now E 0\<rparr>"
  define s1 where "s1 = s\<lparr>federation_inbound := federation_inbound s @ [row],
      source_counters := counters_after source_addr seq (source_counters s)\<rparr>"
  have bump: "next_seq source_addr (s\<lparr>federation_inbound := federation_inbound s @ [row]\<rparr>) = (seq, s1)"
    by (auto simp: next_seq_def seq_def s1_def counters_after_def Let_def split: option.split)
  have ev1: "events s1 = events s" by (simp add: s1_def)
  show thesis
  proof (cases "\<exists>r \<in> set (federation_inbound s). i_origin r = origin \<and> i_event_id r = event_id")
    case True
    then show thesis using refused by (simp add: call_def receive_event_def)
  next
    case inb: False
    have body: "call =
      (if \<not> fits64 seq then (Inl OverflowError, s)
       else if \<not> fits64 (next_id e_id (events s)) then (Inl DatabaseFull, s)
       else case event_conflict event_id source_addr seq (events s) of
        Some _ \<Rightarrow> receive_conflict origin event_id jcs signed_json sig E s
      | None \<Rightarrow> (Inr (Receive_Stored row), s1\<lparr>events := events s @
              [\<lparr>e_id = next_id e_id (events s), e_event_id = event_id, e_source = source_addr,
                e_target = target_local, e_type = ty, e_seq = seq, e_created_at = created_at,
                e_stored_at = now E 0,
                e_payload_json = sort_keys (JObj (payload_local payload signed_json)),
                e_requires_ack = 1, e_source_ref = None, e_auth_actor = None\<rparr>]\<rparr>))"
      unfolding call_def receive_event_def if_not_P [OF inb] Let_def row_def [symmetric] bump
        prod.case ev1
      by (rule refl)
    show thesis
    proof (cases "fits64 seq \<and> fits64 (next_id e_id (events s))")
      case False
      then have "call = (Inl (if fits64 seq then DatabaseFull else OverflowError), s)"
        by (auto simp: body)
      then show thesis by (rule full) simp
    next
      case fits: True
      show thesis
      proof (cases "\<exists>r \<in> set (events s). e_event_id r = event_id")
        case True
        then have "event_conflict event_id source_addr seq (events s) = Some ''events.event_id''"
          by (simp add: event_conflict_def)
        then show thesis using refused True fits by (simp add: body)
      next
        case False
        then have "event_conflict event_id source_addr seq (events s) = None"
          using above by (auto simp: event_conflict_def)
        then show thesis
          using stored [OF inb, of row] False fits above by (simp add: body s1_def row_def)
      qed
    qed
  qed
qed


lemma receive_event_ok:
  assumes ok: "fed_ok s" and "ty \<noteq> lit ''command''"
  shows "fed_ok (snd (receive_event origin event_id jcs signed_json sig rf rk rp source_addr target_addr
      target_local ty payload created_at E s))"
  using ok
proof (cases rule: receive_event_cases [where origin = origin and event_id = event_id and jcs = jcs
      and signed_json = signed_json and sig = sig and rf = rf and rk = rk and rp = rp
      and source_addr = source_addr and target_addr = target_addr and target_local = target_local
      and ty = ty and payload = payload and created_at = created_at and E = E])
  case (full e)
  with ok show ?thesis by simp
next
  case refused
  with ok show ?thesis by (simp add: receive_conflict_ok)
next
  case (stored row ev)
  note parts = fed_ok_parts [OF ok]
  define seq where "seq = seq_choice source_addr None s"
  have ev: "e_id ev = next_id e_id (events s)" "e_event_id ev = event_id" "e_source ev = source_addr"
    "e_seq ev = seq" "e_type ev = ty" "e_auth_actor ev = None"
    "e_payload_json ev = JObj (sort_key fst (sort_keys_items (payload_local payload signed_json)))"
    by (simp_all add: stored(5) seq_def)
  have "events_ok (counters_after (e_source ev) seq (source_counters s)) (events s @ [ev])"
    using ledger_ok_parts(5) [OF parts(1)] stored(2,6-8) assms(2)
    by (intro events_ok_store) (simp_all add: ev seq_def)
  then have led: "ledger_ok (s\<lparr>federation_inbound := b, events := events s @ [ev],
      source_counters := counters_after source_addr seq (source_counters s)\<rparr>)" for b
    using parts(1) acks_ok_mono by (auto simp: ledger_ok_def ev(3) peer_ids_def)
  have "inbound_ok (events s @ [ev]) (federation_inbound s @ [row])"
    using parts(3) stored(1) ascending_snoc_next_id [of i_id "federation_inbound s" row]
    by (auto simp: inbound_ok_def stored(4) ev(2))
  then show ?thesis
    using led parts stored(3) by (simp add: fed_ok_def ack_keys_def seq_def)
qed

lemma record_receipt_in_ok:
  assumes "fed_ok s"
  shows "fed_ok (snd (record_receipt_in event_id agent ack_type issuer kid signed_json sig notify_agent
    notify_detail E s))"
proof -
  note parts = fed_ok_parts [OF assms]
  obtain ins oid origs where call: "insert_original event_id agent ack_type issuer kid signed_json sig
      (now E 0) (federation_receipt_in_originals s) = (ins, oid, origs)"
    by (metis prod_cases3)
  have origs: "originals_ok origs" "set (federation_receipt_in_originals s) \<subseteq> set origs"
      "\<exists>orig \<in> set origs. ri_id orig = oid \<and> original_key orig = (event_id, agent, ack_type)"
  proof -
    let ?rows = "federation_receipt_in_originals s"
    have new: "originals_ok (?rows @ [r])"
      if "ri_id r = next_id ri_id ?rows" "\<forall>x \<in> set ?rows. (original_key x, ri_sig x) \<noteq> (original_key r, ri_sig r)"
      for r
      using parts(5) that ascending_snoc_next_id [of ri_id ?rows r]
      by (auto simp: originals_ok_def)
    show "originals_ok origs" "set ?rows \<subseteq> set origs"
      "\<exists>orig \<in> set origs. ri_id orig = oid \<and> original_key orig = (event_id, agent, ack_type)"
      using call parts(5) new
      by (auto simp: insert_original_def Let_def original_key_def find_None split: option.splits
          dest!: find_SomeD)
  qed
  define s1 where "s1 = s\<lparr>federation_receipt_in_originals := origs\<rparr>"
  define s2 where "s2 = (if \<exists>r \<in> set (federation_receipt_in s1). state_key r = (event_id, agent, ack_type)
     then s1 else s1\<lparr>federation_receipt_in := federation_receipt_in s1 @
         [\<lparr>rs_event_id = event_id, rs_agent = agent, rs_ack_type = ack_type,
           rs_issuer = issuer, rs_original_id = oid, rs_updated_at = now E 0\<rparr>]\<rparr>)"
  have st: "states_ok origs (federation_receipt_in s)"
    using parts(6) origs(2) unfolding states_ok_def by blast
  then have "fed_ok s1" using parts origs by (simp add: fed_ok_def s1_def)
  moreover have "states_ok origs (federation_receipt_in s @ [r])"
    if "state_key r = (event_id, agent, ack_type)" "rs_original_id r = oid"
      "\<not> (\<exists>x \<in> set (federation_receipt_in s). state_key x = state_key r)" for r
    using st origs(3) that by (auto simp: states_ok_def)
  ultimately have "fed_ok s2"
    using parts origs by (auto simp: s2_def fed_ok_def s1_def state_key_def)
  then show ?thesis
    using assms insert_notification_ok [OF \<open>fed_ok s2\<close>]
    unfolding record_receipt_in_def call prod.case Let_def s1_def [symmetric] s2_def [symmetric]
    by (auto split: prod.split) (metis snd_conv)+
qed

lemma fed_step_ok: "fed_step E s s' \<Longrightarrow> fed_ok s \<Longrightarrow> fed_ok s'"
  by (induction rule: fed_step.induct)
    (auto intro: ledger_step_fed_ok enqueue_outbound_ok mark_outbound_ok receive_event_ok
      mark_delivered_ok ack_with_receipt_ok mark_receipt_ok record_receipt_in_ok mark_notification_ok)

interpretation fed_sys: invariant_system fed_next fed_ok
  by unfold_locales (auto simp: fed_next_def intro: fed_step_ok)


section \<open>Send queues\<close>

text \<open>
  Outgoing events and outgoing receipts are two queues with one discipline: a row keeps what
  was fixed when it was queued, and once its status is not pending any more no operation
  touches it.
\<close>

locale send_queue = invariant_system step inv
  for step :: "'s \<Rightarrow> 's \<Rightarrow> bool" and inv :: "'s \<Rightarrow> bool" +
  fixes rows :: "'s \<Rightarrow> 'r list" and status :: "'r \<Rightarrow> send_status" and keeps :: "'r \<Rightarrow> 'r \<Rightarrow> bool"
  assumes keeps_refl: "keeps r r"
    and keeps_trans: "keeps a b \<Longrightarrow> keeps b c \<Longrightarrow> keeps a c"
    and row_step: "inv s \<Longrightarrow> step s s' \<Longrightarrow> r \<in> set (rows s) \<Longrightarrow>
      \<exists>r' \<in> set (rows s'). keeps r r' \<and> (status r \<noteq> Pending \<longrightarrow> r' = r)"
begin

lemma queue_steps:
  assumes "inv s" "step\<^sup>*\<^sup>* s s'" "r \<in> set (rows s)"
  shows "(\<exists>r' \<in> set (rows s'). keeps r r') \<and> (status r \<noteq> Pending \<longrightarrow> r \<in> set (rows s'))"
proof -
  define R where "R x y = (\<forall>r \<in> set (rows x). \<exists>r' \<in> set (rows y). keeps r r' \<and> (status r \<noteq> Pending \<longrightarrow> r' = r))"
    for x y
  have "R s s'"
  proof (rule rel_steps [OF assms(2,1)])
    show "R x x" for x unfolding R_def using keeps_refl by blast
    show "R x z" if "R x y" "R y z" for x y z
      using that unfolding R_def by (metis keeps_trans)
    show "R x y" if "inv x" "step x y" for x y
      using row_step [OF that] unfolding R_def by blast
  qed
  with assms(3) show ?thesis unfolding R_def by blast
qed

end

lemma upd_where_row:
  assumes "r \<in> set rows" "\<And>r. P r \<Longrightarrow> Q r (f r)" "Q r r"
  shows "\<exists>r' \<in> set (upd_where P f rows). Q r r'"
proof -
  have "(if P r then f r else r) \<in> set (upd_where P f rows)"
    using assms(1) unfolding set_upd_where by blast
  then show ?thesis by (rule bexI [rotated]) (simp add: assms)
qed

text \<open>The same for an update of the one row with a given id.\<close>

lemma upd_id_row:
  fixes key :: "'r \<Rightarrow> int"
  assumes "sorted_wrt (<) (map key rows)" "r \<in> set rows" "row \<in> set rows" "Q row (f row)" "Q r r"
  shows "\<exists>r' \<in> set (upd_where (\<lambda>x. key x = key row) f rows). Q r r'"
proof (cases "key r = key row")
  case True
  have "inj_on key (set rows)" using ascending_distinct [OF assms(1)] by (simp add: distinct_map)
  then have "r = row" using True assms(2,3) by (blast dest: inj_onD)
  moreover have "f row \<in> set (upd_where (\<lambda>x. key x = key row) f rows)"
    using assms(3) by (auto simp: set_upd_where)
  ultimately show ?thesis using assms(4) by blast
next
  case False
  then have "r \<in> set (upd_where (\<lambda>x. key x = key row) f rows)"
    using assms(2) by (auto simp: set_upd_where)
  then show ?thesis using assms(5) by blast
qed

text \<open>What is fixed when an event is queued: everything but status, attempts, retry time and error.\<close>

definition outbound_keeps :: "outbound_row \<Rightarrow> outbound_row \<Rightarrow> bool" where
  "outbound_keeps r r' = (r' = r\<lparr>o_status := o_status r', o_attempts := o_attempts r',
     o_next_retry_at := o_next_retry_at r', o_last_error := o_last_error r', o_updated_at := o_updated_at r'\<rparr>)"

definition outbound_moves :: "outbound_row \<Rightarrow> outbound_row \<Rightarrow> bool" where
  "outbound_moves r r' = (outbound_keeps r r' \<and> (o_status r \<noteq> Pending \<longrightarrow> r' = r))"

text \<open>
  What is fixed at the first acknowledgement of a receipt; the signed original is added once.
\<close>

definition receipt_keeps :: "receipt_out_row \<Rightarrow> receipt_out_row \<Rightarrow> bool" where
  "receipt_keeps r r' = (r' = r\<lparr>ro_signed_json := ro_signed_json r', ro_sig := ro_sig r',
      ro_status := ro_status r', ro_attempts := ro_attempts r', ro_next_retry_at := ro_next_retry_at r',
      ro_last_error := ro_last_error r', ro_updated_at := ro_updated_at r'\<rparr> \<and>
     (ro_signed_json r \<noteq> None \<longrightarrow> ro_signed_json r' = ro_signed_json r \<and> ro_sig r' = ro_sig r))"

definition receipt_moves :: "receipt_out_row \<Rightarrow> receipt_out_row \<Rightarrow> bool" where
  "receipt_moves r r' = (receipt_keeps r r' \<and> (ro_status r \<noteq> Pending \<longrightarrow> r' = r))"

lemma outbound_moves_refl: "outbound_moves r r"
  by (simp add: outbound_moves_def outbound_keeps_def)

lemma receipt_moves_refl: "receipt_moves r r"
  by (simp add: receipt_moves_def receipt_keeps_def)

lemma outbound_keeps_trans: "outbound_keeps a b \<Longrightarrow> outbound_keeps b c \<Longrightarrow> outbound_keeps a c"
  unfolding outbound_keeps_def by (cases a; cases b; cases c) simp

lemma receipt_keeps_trans: "receipt_keeps a b \<Longrightarrow> receipt_keeps b c \<Longrightarrow> receipt_keeps a c"
  unfolding receipt_keeps_def by (cases a; cases b; cases c) auto

lemma insert_notification_frame [simp]:
  "federation_outbound (snd (insert_notification i k a e d ts s)) = federation_outbound s"
  "federation_inbound (snd (insert_notification i k a e d ts s)) = federation_inbound s"
  "federation_receipt_out (snd (insert_notification i k a e d ts s)) = federation_receipt_out s"
  "federation_receipt_in (snd (insert_notification i k a e d ts s)) = federation_receipt_in s"
  "events (snd (insert_notification i k a e d ts s)) = events s"
  by (simp_all add: insert_notification_def)

lemma receive_conflict_frame [simp]:
  "federation_outbound (snd (receive_conflict origin event_id jcs signed_json sig E s)) = federation_outbound s"
  "federation_inbound (snd (receive_conflict origin event_id jcs signed_json sig E s)) = federation_inbound s"
  "federation_receipt_out (snd (receive_conflict origin event_id jcs signed_json sig E s)) =
     federation_receipt_out s"
  "federation_receipt_in (snd (receive_conflict origin event_id jcs signed_json sig E s)) =
     federation_receipt_in s"
  "federation_notifications (snd (receive_conflict origin event_id jcs signed_json sig E s)) =
     federation_notifications s"
  "events (snd (receive_conflict origin event_id jcs signed_json sig E s)) = events s"
  by (simp_all add: receive_conflict_def Let_def split: option.split)

lemma receive_event_frame [simp]:
  "federation_outbound (snd (receive_event origin event_id jcs signed_json sig rf rk rp source_addr
     target_addr target_local ty payload created_at E s)) = federation_outbound s"
  "federation_receipt_out (snd (receive_event origin event_id jcs signed_json sig rf rk rp source_addr
     target_addr target_local ty payload created_at E s)) = federation_receipt_out s"
  "federation_receipt_in (snd (receive_event origin event_id jcs signed_json sig rf rk rp source_addr
     target_addr target_local ty payload created_at E s)) = federation_receipt_in s"
  "federation_notifications (snd (receive_event origin event_id jcs signed_json sig rf rk rp source_addr
     target_addr target_local ty payload created_at E s)) = federation_notifications s"
  by (simp_all add: receive_event_def next_seq_def Let_def split: option.split)

lemma upsert_ack_more: "ledger.more (snd (upsert_ack eid agent ty detail ts s)) = ledger.more s"
  by (simp add: upsert_ack_def Let_def)

lemma ack_with_receipt_frame [simp]:
  "federation_outbound (snd (ack_with_receipt_intent event_id agent_id ack_type detail ragent origin
     sig_hash issuer kid E s)) = federation_outbound s"
  "federation_inbound (snd (ack_with_receipt_intent event_id agent_id ack_type detail ragent origin
     sig_hash issuer kid E s)) = federation_inbound s"
  "federation_receipt_in (snd (ack_with_receipt_intent event_id agent_id ack_type detail ragent origin
     sig_hash issuer kid E s)) = federation_receipt_in s"
  "federation_notifications (snd (ack_with_receipt_intent event_id agent_id ack_type detail ragent origin
     sig_hash issuer kid E s)) = federation_notifications s"
  using fed_tables_of_more [OF upsert_ack_more, of event_id agent_id ack_type detail "now E 0" s]
  by (cases "upsert_ack event_id agent_id ack_type detail (now E 0) s",
      auto simp: ack_with_receipt_intent_def split: sum.split)+

lemma record_receipt_frame [simp]:
  "federation_outbound (snd (record_receipt_in event_id agent ack_type issuer kid signed_json sig
     notify_agent notify_detail E s)) = federation_outbound s"
  "federation_inbound (snd (record_receipt_in event_id agent ack_type issuer kid signed_json sig
     notify_agent notify_detail E s)) = federation_inbound s"
  "federation_receipt_out (snd (record_receipt_in event_id agent ack_type issuer kid signed_json sig
     notify_agent notify_detail E s)) = federation_receipt_out s"
  by (simp_all add: record_receipt_in_def insert_notification_def Let_def split: prod.split)

lemma outbound_step:
  assumes "fed_step E s s'" "fed_ok s" "r \<in> set (federation_outbound s)"
  shows "\<exists>r' \<in> set (federation_outbound s'). outbound_moves r r'"
proof -
  have keep: "\<exists>r' \<in> set (federation_outbound s'). outbound_moves r r'"
    if "set (federation_outbound s) \<subseteq> set (federation_outbound s')"
    using that assms(3) outbound_moves_refl by blast
  have upd: "\<exists>r' \<in> set (upd_where P f (federation_outbound s)). outbound_moves r r'"
    if "\<And>x. P x \<Longrightarrow> outbound_moves x (f x)" for P f
    using assms(3) that outbound_moves_refl by (rule upd_where_row)
  from assms(1) show ?thesis
  proof (cases rule: fed_step.cases)
    case fed_local
    then show ?thesis by (intro keep) (simp add: ledger_step_tables)
  next
    case fed_enqueue
    then show ?thesis by (intro keep) (auto simp: enqueue_outbound_def)
  next
    case fed_outbound_sent
    then show ?thesis
      by (simp add: mark_outbound_sent_def) (rule upd, simp add: outbound_moves_def outbound_keeps_def)
  next
    case fed_outbound_retry
    then show ?thesis
      by (simp add: mark_outbound_retry_def) (rule upd, simp add: outbound_moves_def outbound_keeps_def)
  next
    case (fed_outbound_fail event_id error)
    show ?thesis
    proof (cases "find (\<lambda>r. o_event_id r = event_id \<and> o_status r = Pending) (federation_outbound s)")
      case None
      then show ?thesis by (intro keep) (simp add: fed_outbound_fail fail_outbound_permanent_def)
    next
      case (Some row)
      then have row: "row \<in> set (federation_outbound s)" "o_status row = Pending" by (auto dest: find_SomeD)
      have "sorted_wrt (<) (map o_id (federation_outbound s))"
        using fed_ok_parts(2) [OF assms(2)] by (simp add: outbound_ok_def)
      from upd_id_row [where Q = outbound_moves, OF this assms(3) row(1) _ outbound_moves_refl] show ?thesis
        by (simp add: fed_outbound_fail fail_outbound_permanent_def Some)
          (simp add: outbound_moves_def outbound_keeps_def row)
    qed
  qed (intro keep, simp add: mark_delivered_def materialize_receipt_def mark_receipt_sent_def
      mark_receipt_retry_def fail_receipt_permanent_def mark_notification_hint_sent_def
      ack_notification_hints_def Let_def split: option.splits)+
qed


lemma receipt_out_step:
  assumes "fed_step E s s'" "fed_ok s" "r \<in> set (federation_receipt_out s)"
  shows "\<exists>r' \<in> set (federation_receipt_out s'). receipt_moves r r'"
proof -
  have keep: "\<exists>r' \<in> set (federation_receipt_out s'). receipt_moves r r'"
    if "set (federation_receipt_out s) \<subseteq> set (federation_receipt_out s')"
    using that assms(3) receipt_moves_refl by blast
  have upd: "\<exists>r' \<in> set (upd_where P f (federation_receipt_out s)). receipt_moves r r'"
    if "\<And>x. P x \<Longrightarrow> receipt_moves x (f x)" for P f
    using assms(3) that receipt_moves_refl by (rule upd_where_row)
  from assms(1) show ?thesis
  proof (cases rule: fed_step.cases)
    case fed_local
    then show ?thesis by (intro keep) (simp add: ledger_step_tables)
  next
    case (fed_ack event_id agent_id ack_type detail receipt_agent origin sig_hash issuer kid)
    show ?thesis
    proof (cases rule: ack_with_receipt_cases [where event_id = event_id and agent_id = agent_id
          and ack_type = ack_type and detail = detail and receipt_agent = receipt_agent and origin = origin
          and sig_hash = sig_hash and issuer = issuer and kid = kid and E = E and s = s])
      case (failed e)
      then show ?thesis by (intro keep) (simp add: fed_ack)
    next
      case (acked s1)
      have "federation_receipt_out s1 = federation_receipt_out s"
        using ledger_step_tables(4) [OF step_ack [of E s event_id agent_id ack_type detail]] acked(1) by simp
      with acked show ?thesis by (intro keep) (auto simp: fed_ack)
    qed
  next
    case fed_materialize
    then show ?thesis
      by (simp add: materialize_receipt_def Let_def) (rule upd, auto simp: receipt_moves_def receipt_keeps_def)
  next
    case fed_receipt_sent
    then show ?thesis
      by (simp add: mark_receipt_sent_def) (rule upd, simp add: receipt_moves_def receipt_keeps_def)
  next
    case fed_receipt_retry
    then show ?thesis
      by (simp add: mark_receipt_retry_def) (rule upd, simp add: receipt_moves_def receipt_keeps_def)
  next
    case (fed_receipt_fail event_id agent ack_type error)
    show ?thesis
    proof (cases "find (\<lambda>r. receipt_key r = (event_id, agent, ack_type) \<and> ro_status r = Pending)
        (federation_receipt_out s)")
      case None
      then show ?thesis by (intro keep) (simp add: fed_receipt_fail fail_receipt_permanent_def)
    next
      case (Some row)
      then have row: "row \<in> set (federation_receipt_out s)" "ro_status row = Pending"
        by (auto dest: find_SomeD)
      have "sorted_wrt (<) (map ro_id (federation_receipt_out s))"
        using fed_ok_parts(4) [OF assms(2)] by (simp add: receipts_out_ok_def)
      from upd_id_row [where Q = receipt_moves, OF this assms(3) row(1) _ receipt_moves_refl] show ?thesis
        by (simp add: fed_receipt_fail fail_receipt_permanent_def Some)
          (simp add: receipt_moves_def receipt_keeps_def row)
    qed
  qed (intro keep, simp add: mark_delivered_def mark_outbound_sent_def mark_outbound_retry_def
      fail_outbound_permanent_def enqueue_outbound_def mark_notification_hint_sent_def
      ack_notification_hints_def Let_def split: option.splits)+
qed

interpretation outbox: send_queue fed_next fed_ok federation_outbound o_status outbound_keeps
proof
  show "outbound_keeps r r" for r by (simp add: outbound_keeps_def)
  show "outbound_keeps a c" if "outbound_keeps a b" "outbound_keeps b c" for a b c
    using that by (rule outbound_keeps_trans)
  show "\<exists>r' \<in> set (federation_outbound s'). outbound_keeps r r' \<and> (o_status r \<noteq> Pending \<longrightarrow> r' = r)"
    if "fed_ok s" "fed_next s s'" "r \<in> set (federation_outbound s)" for s s' :: "'a fed_scheme" and r
    using that outbound_step unfolding fed_next_def outbound_moves_def by blast
qed

interpretation receipts: send_queue fed_next fed_ok federation_receipt_out ro_status receipt_keeps
proof
  show "receipt_keeps r r" for r by (simp add: receipt_keeps_def)
  show "receipt_keeps a c" if "receipt_keeps a b" "receipt_keeps b c" for a b c
    using that by (rule receipt_keeps_trans)
  show "\<exists>r' \<in> set (federation_receipt_out s'). receipt_keeps r r' \<and> (ro_status r \<noteq> Pending \<longrightarrow> r' = r)"
    if "fed_ok s" "fed_next s s'" "r \<in> set (federation_receipt_out s)" for s s' :: "'a fed_scheme" and r
    using that receipt_out_step unfolding fed_next_def receipt_moves_def by blast
qed

end
