(* ===== verification/Fed_Guarantees.thy ===== *)
theory Fed_Guarantees
  imports Fed_Props
begin

text \<open>
  The guarantees of the federation store over whole runs, derived from the step lemmas and
  the two interpretations of the send queue.
\<close>

section \<open>What a step does to the other tables\<close>

lemma record_receipt_events [simp]:
  "events (snd (record_receipt_in event_id agent ack_type issuer kid signed_json sig notify_agent
     notify_detail E s)) = events s"
proof (cases "insert_original event_id agent ack_type issuer kid signed_json sig (now E 0)
    (federation_receipt_in_originals s)")
  case (fields ins oid origs)
  show ?thesis
    unfolding record_receipt_in_def fields Let_def prod.case
    by (cases ins) (simp_all add: insert_notification_def)
qed

lemma fed_step_log:
  assumes "fed_step E s s'" "fed_ok s"
  shows "prefix (events s) (events s')"
  using assms(1)
proof (cases rule: fed_step.cases)
  case fed_local
  then have "ledger_next s s'" by (auto simp: ledger_next_def)
  from log_le_step [OF fed_ok_parts(1) [OF assms(2)] this] show ?thesis
    by (simp add: log_le_def)
next
  case (fed_receive ty origin event_id jcs signed_json sig rf rk rp source_addr target_addr target_local
      payload created_at)
  show ?thesis
    using assms(2)
    by (cases rule: receive_event_cases [where origin = origin and event_id = event_id and jcs = jcs
        and signed_json = signed_json and sig = sig and rf = rf and rk = rk and rp = rp
        and source_addr = source_addr and target_addr = target_addr and target_local = target_local
        and ty = ty and payload = payload and created_at = created_at and E = E])
      (auto simp: fed_receive)
next
  case (fed_ack event_id agent_id ack_type detail receipt_agent origin sig_hash issuer kid)
  show ?thesis
  proof (cases rule: ack_with_receipt_cases [where event_id = event_id and agent_id = agent_id
        and ack_type = ack_type and detail = detail and receipt_agent = receipt_agent and origin = origin
        and sig_hash = sig_hash and issuer = issuer and kid = kid and E = E and s = s])
    case (failed e)
    then show ?thesis by (simp add: fed_ack)
  next
    case (acked s1)
    have "events s1 = events s"
      using acked(1) log_frame(17) [of event_id agent_id ack_type detail E s] by simp
    then show ?thesis by (simp add: fed_ack acked)
  qed
qed (simp_all add: enqueue_outbound_def mark_outbound_sent_def mark_outbound_retry_def
    fail_outbound_permanent_def mark_delivered_def materialize_receipt_def mark_receipt_sent_def
    mark_receipt_retry_def fail_receipt_permanent_def
    mark_notification_hint_sent_def ack_notification_hints_def Let_def split: option.split)

lemma fed_log_steps:
  assumes "fed_ok s" "fed_next\<^sup>*\<^sup>* s s'"
  shows "prefix (events s) (events s')"
  by (rule fed_sys.rel_steps [OF assms(2,1)])
    (auto simp: fed_next_def dest: fed_step_log intro: prefix_order.trans)

text \<open>A dedup row is kept for ever; only its delivery state moves.\<close>

definition inbound_keeps :: "inbound_row \<Rightarrow> inbound_row \<Rightarrow> bool" where
  "inbound_keeps r r' = (r' = r\<lparr>i_delivery_state := i_delivery_state r'\<rparr>)"

lemma fed_step_inbound:
  assumes "fed_step E s s'" "fed_ok s" "r \<in> set (federation_inbound s)"
  shows "\<exists>r' \<in> set (federation_inbound s'). inbound_keeps r r'"
proof -
  have keep: "\<exists>r' \<in> set (federation_inbound s'). inbound_keeps r r'"
    if "set (federation_inbound s) \<subseteq> set (federation_inbound s')"
  proof -
    have "r \<in> set (federation_inbound s')" using that assms(3) by blast
    then show ?thesis by (rule bexI [rotated]) (simp add: inbound_keeps_def)
  qed
  from assms(1) show ?thesis
  proof (cases rule: fed_step.cases)
    case fed_local
    then show ?thesis by (intro keep) (simp add: ledger_step_tables)
  next
    case (fed_receive ty origin event_id jcs signed_json sig rf rk rp source_addr target_addr target_local
        payload created_at)
    have "set (federation_inbound s) \<subseteq> set (federation_inbound s')"
      using assms(2)
      by (cases rule: receive_event_cases [where origin = origin and event_id = event_id and jcs = jcs
          and signed_json = signed_json and sig = sig and rf = rf and rk = rk and rp = rp
          and source_addr = source_addr and target_addr = target_addr and target_local = target_local
          and ty = ty and payload = payload and created_at = created_at and E = E])
        (auto simp: fed_receive)
    then show ?thesis by (rule keep)
  next
    case fed_delivered
    then show ?thesis
      by (simp add: mark_delivered_def) (rule upd_where_row [OF assms(3)], simp_all add: inbound_keeps_def)
  qed (intro keep, simp add: enqueue_outbound_def mark_outbound_sent_def mark_outbound_retry_def
      fail_outbound_permanent_def materialize_receipt_def mark_receipt_sent_def
      mark_receipt_retry_def fail_receipt_permanent_def mark_notification_hint_sent_def
      ack_notification_hints_def Let_def split: option.splits)+
qed

lemma fed_inbound_steps:
  assumes "fed_ok s" "fed_next\<^sup>*\<^sup>* s s'" "r \<in> set (federation_inbound s)"
  shows "\<exists>r' \<in> set (federation_inbound s'). inbound_keeps r r'"
proof -
  define R where "R x y = (\<forall>r \<in> set (federation_inbound x). \<exists>r' \<in> set (federation_inbound y). inbound_keeps r r')"
    for x y :: "'a fed_scheme"
  have "R s s'"
  proof (rule fed_sys.rel_steps [OF assms(2,1)])
    show "R x x" for x unfolding R_def by (auto simp: inbound_keeps_def intro: bexI [rotated])
    have "inbound_keeps a c" if "inbound_keeps a b" "inbound_keeps b c" for a b c
      using that unfolding inbound_keeps_def by (cases a; cases b; cases c) simp
    then show "R x z" if "R x y" "R y z" for x y z using that unfolding R_def by metis
    show "R x y" if "fed_ok x" "fed_next x y" for x y
      using that fed_step_inbound unfolding R_def fed_next_def by blast
  qed
  with assms(3) show ?thesis by (simp add: R_def)
qed

lemma record_receipt_grows:
  "set (federation_receipt_in s) \<subseteq> set (federation_receipt_in (snd (record_receipt_in event_id agent ack_type
     issuer kid signed_json sig notify_agent notify_detail E s)))"
proof (cases "insert_original event_id agent ack_type issuer kid signed_json sig (now E 0)
    (federation_receipt_in_originals s)")
  case (fields ins oid origs)
  show ?thesis
    unfolding record_receipt_in_def fields Let_def prod.case
    by (cases ins) (auto simp: insert_notification_def)
qed

lemma fed_step_receipt_in:
  assumes "fed_step E s s'"
  shows "set (federation_receipt_in s) \<subseteq> set (federation_receipt_in s')"
  using assms
proof (cases rule: fed_step.cases)
  case fed_record_receipt
  then show ?thesis by (simp add: record_receipt_grows)
qed (simp_all add: ledger_step_tables enqueue_outbound_def mark_outbound_sent_def mark_outbound_retry_def
    fail_outbound_permanent_def mark_delivered_def materialize_receipt_def mark_receipt_sent_def
    mark_receipt_retry_def fail_receipt_permanent_def
    mark_notification_hint_sent_def ack_notification_hints_def Let_def split: option.split)

section \<open>Guarantees\<close>

text \<open>
  C19: every state that the federation store and the ledger can reach together satisfies the
  constraints of all their tables: unique event ids in the outbox, one dedup row per origin
  and event id with its event in the log, one receipt intent per acknowledged event, agent and
  type, merged receipt states that point at a stored original, and unique notification intents.
\<close>

theorem fed_reachable_ok:
  assumes "fed_next\<^sup>*\<^sup>* init_fed s"
  shows "fed_ok s"
  using assms fed_ok_init by (rule fed_sys.inv_steps)

text \<open>
  C20: what is sent to another family never changes and a finished send is final.  A row of the
  outbox keeps its signed envelope, its target and its identity through every run; once it is
  sent or has failed permanently, no later operation, recovery included, touches it.
\<close>

theorem outbound_send_is_final:
  assumes "fed_ok s" "fed_next\<^sup>*\<^sup>* s s'" "r \<in> set (federation_outbound s)"
  shows "(\<exists>r' \<in> set (federation_outbound s'). o_event_id r' = o_event_id r \<and> o_target r' = o_target r \<and>
      o_signed_json r' = o_signed_json r \<and> o_sig r' = o_sig r \<and> o_envelope_json r' = o_envelope_json r \<and>
      o_notify_intent_id r' = o_notify_intent_id r) \<and>
    (o_status r \<noteq> Pending \<longrightarrow> r \<in> set (federation_outbound s'))"
proof -
  have "o_event_id r' = o_event_id r \<and> o_target r' = o_target r \<and> o_signed_json r' = o_signed_json r \<and>
      o_sig r' = o_sig r \<and> o_envelope_json r' = o_envelope_json r \<and>
      o_notify_intent_id r' = o_notify_intent_id r" if "outbound_keeps r r'" for r'
    using that unfolding outbound_keeps_def by (cases r; cases r') simp
  with outbox.queue_steps [OF assms] show ?thesis by blast
qed

text \<open>
  C21: a receipt is fixed at the first acknowledgement.  After the acknowledgement that creates
  a receipt intent, every later state has exactly one intent for that event, agent and type,
  and it carries the time, the origin, the signature hash and the issuer of that first
  acknowledgement, however often the event is acknowledged again; the signed original, once
  generated, is never replaced, and a finished receipt is never sent again.
\<close>

theorem receipt_fixed_at_first_ack:
  assumes "fed_ok s"
    and "ack_with_receipt_intent event_id agent_id ack_type detail receipt_agent origin sig_hash issuer kid
      E s = (Inr (), s1)"
    and "(event_id, receipt_agent, ack_type) \<notin> receipt_key ` set (federation_receipt_out s)"
    and "fed_next\<^sup>*\<^sup>* s1 s2" "fed_next\<^sup>*\<^sup>* s2 s3"
  shows "\<exists>r2 r3. filter (\<lambda>r. receipt_key r = (event_id, receipt_agent, ack_type)) (federation_receipt_out s2) = [r2] \<and>
    filter (\<lambda>r. receipt_key r = (event_id, receipt_agent, ack_type)) (federation_receipt_out s3) = [r3] \<and>
    ro_at r2 = now E 0 \<and> ro_origin r2 = origin \<and> ro_origin_event_sig_hash r2 = sig_hash \<and>
    ro_issuer r2 = issuer \<and> ro_issuer_key_id r2 = kid \<and>
    ro_at r3 = now E 0 \<and> (ro_signed_json r2 \<noteq> None \<longrightarrow> ro_signed_json r3 = ro_signed_json r2 \<and> ro_sig r3 = ro_sig r2) \<and>
    (ro_status r2 \<noteq> Pending \<longrightarrow> r3 = r2)"
proof -
  let ?key = "(event_id, receipt_agent, ack_type)"
  have s1: "s1 = snd (ack_with_receipt_intent event_id agent_id ack_type detail receipt_agent origin
      sig_hash issuer kid E s)" by (simp add: assms(2))
  have ok1: "fed_ok s1" unfolding s1 using assms(1) by (rule ack_with_receipt_ok)
  have ok2: "fed_ok s2" using assms(4) ok1 by (rule fed_sys.inv_steps)
  have ok3: "fed_ok s3" using assms(5) ok2 by (rule fed_sys.inv_steps)
  obtain r1 where r1: "r1 \<in> set (federation_receipt_out s1)" "receipt_key r1 = ?key" "ro_at r1 = now E 0"
      "ro_origin r1 = origin" "ro_origin_event_sig_hash r1 = sig_hash" "ro_issuer r1 = issuer"
      "ro_issuer_key_id r1 = kid"
  proof (cases rule: ack_with_receipt_cases [where event_id = event_id and agent_id = agent_id
        and ack_type = ack_type and detail = detail and receipt_agent = receipt_agent and origin = origin
        and sig_hash = sig_hash and issuer = issuer and kid = kid and E = E and s = s])
    case (failed e)
    then show thesis using assms(2) by simp
  next
    case (acked s1')
    then show thesis
      using assms(2,3) by (intro that [of "last (federation_receipt_out s1)"]) (auto simp: receipt_key_def)
  qed
  have one: "filter (\<lambda>x. receipt_key x = ?key) (federation_receipt_out t) = [r]"
    if "fed_ok t" "r \<in> set (federation_receipt_out t)" "receipt_key r = ?key" for t :: "'a fed_scheme" and r
    using fed_ok_parts(4) [OF that(1)] that(2,3) filter_unique_key [of receipt_key]
    by (simp add: receipts_out_ok_def)
  have fixed: "receipt_key b = receipt_key a \<and> ro_at b = ro_at a \<and> ro_origin b = ro_origin a \<and>
      ro_origin_event_sig_hash b = ro_origin_event_sig_hash a \<and> ro_issuer b = ro_issuer a \<and>
      ro_issuer_key_id b = ro_issuer_key_id a" if "receipt_keeps a b" for a b
    using that unfolding receipt_keeps_def receipt_key_def by (cases a; cases b) simp
  obtain r2 where r2: "r2 \<in> set (federation_receipt_out s2)" "receipt_keeps r1 r2"
    using receipts.queue_steps [OF ok1 assms(4) r1(1)] by blast
  obtain r3 where r3: "r3 \<in> set (federation_receipt_out s3)" "receipt_keeps r2 r3"
    using receipts.queue_steps [OF ok2 assms(5) r2(1)] by blast
  have f2: "filter (\<lambda>x. receipt_key x = ?key) (federation_receipt_out s2) = [r2]"
    using one [OF ok2 r2(1)] fixed [OF r2(2)] r1(2) by simp
  have f3: "filter (\<lambda>x. receipt_key x = ?key) (federation_receipt_out s3) = [r3]"
    using one [OF ok3 r3(1)] fixed [OF r3(2)] fixed [OF r2(2)] r1(2) by simp
  have "r3 = r2" if "ro_status r2 \<noteq> Pending"
  proof -
    have "r2 \<in> set (federation_receipt_out s3)"
      using receipts.queue_steps [OF ok2 assms(5) r2(1)] that by blast
    from one [OF ok3 this] f3 fixed [OF r2(2)] r1(2) show ?thesis by simp
  qed
  with f2 f3 show ?thesis
    using fixed [OF r2(2)] fixed [OF r3(2)] r1(3-) r3(2) by (auto simp: receipt_keeps_def)
qed


lemma receive_conflict_not_stored:
  "fst (receive_conflict origin event_id jcs signed_json sig E s) \<noteq> Inr (Receive_Stored row)"
  by (simp add: receive_conflict_def Let_def split: option.split)

lemma inbound_keeps_fields:
  "inbound_keeps r r' \<Longrightarrow> i_origin r' = i_origin r \<and> i_event_id r' = i_event_id r \<and>
     i_event_jcs r' = i_event_jcs r \<and> i_sig r' = i_sig r"
  unfolding inbound_keeps_def by (cases r; cases r') simp

text \<open>
  C22: a federated event enters the log exactly once.  Once a received event has been stored,
  every later state has exactly one event with its id, with the address, the type and the
  payload received; delivering the same content again answers \<open>duplicate\<close> and changes nothing,
  and other content under the same origin and id is a conflict that leaves the log and the stored
  original alone.
\<close>

theorem federated_event_stored_exactly_once:
  assumes "fed_ok s" "ty \<noteq> lit ''command''"
    and "receive_event origin event_id jcs signed_json sig rf rk rp source_addr target_addr target_local ty
      payload created_at E s = (Inr (Receive_Stored row), s1)"
    and "fed_next\<^sup>*\<^sup>* s1 s2"
  shows "(\<exists>ev. filter (\<lambda>r. e_event_id r = event_id) (events s2) = [ev] \<and> e_source ev = source_addr \<and>
      e_target ev = target_local \<and> e_type ev = ty \<and>
      e_payload_json ev = sort_keys (JObj (payload_local payload signed_json))) \<and>
    (\<exists>row2. i_event_jcs row2 = jcs \<and> i_sig row2 = sig \<and>
      receive_event origin event_id jcs signed2 sig2 rf2 rk2 rp2 source2 target2 local2 ty2 payload2 created2
        E2 s2 = (Inr (Receive_Duplicate row2), s2)) \<and>
    (jcs' \<noteq> jcs \<longrightarrow> (\<exists>s3.
      receive_event origin event_id jcs' signed2 sig2 rf2 rk2 rp2 source2 target2 local2 ty2 payload2 created2
        E2 s2 = (Inr (Receive_Conflict (lit ''same_id_different_content'')), s3) \<and>
      events s3 = events s2 \<and> federation_inbound s3 = federation_inbound s2))"
proof -
  obtain ev where ev: "ev \<in> set (events s1)" "e_event_id ev = event_id" "e_source ev = source_addr"
      "e_target ev = target_local" "e_type ev = ty"
      "e_payload_json ev = sort_keys (JObj (payload_local payload signed_json))"
    and row: "row \<in> set (federation_inbound s1)" "i_origin row = origin" "i_event_id row = event_id"
      "i_event_jcs row = jcs" "i_sig row = sig"
    using assms(1)
  proof (cases rule: receive_event_cases [where origin = origin and event_id = event_id and jcs = jcs
        and signed_json = signed_json and sig = sig and rf = rf and rk = rk and rp = rp
        and source_addr = source_addr and target_addr = target_addr and target_local = target_local
        and ty = ty and payload = payload and created_at = created_at and E = E])
    case (full e)
    then show thesis using assms(3) by simp
  next
    case refused
    have False
      using receive_conflict_not_stored [of origin event_id jcs signed_json sig E s row]
      by (simp add: refused(2) [symmetric] assms(3))
    then show thesis ..
  next
    case (stored row' ev)
    have "row' = row" and s1: "s1 = s\<lparr>federation_inbound := federation_inbound s @ [row'],
         events := events s @ [ev], source_counters := counters_after source_addr
           (seq_choice source_addr None s) (source_counters s)\<rparr>"
      using stored(3) assms(3) by simp_all
    moreover have "e_event_id ev = event_id \<and> e_source ev = source_addr \<and> e_target ev = target_local \<and>
        e_type ev = ty \<and> e_payload_json ev = sort_keys (JObj (payload_local payload signed_json))"
      by (simp add: stored(5))
    moreover have "i_origin row' = origin \<and> i_event_id row' = event_id \<and> i_event_jcs row' = jcs \<and> i_sig row' = sig"
      by (simp add: stored(4))
    ultimately show thesis by (intro that [of ev]) (simp_all del: sort_keys.simps)
  qed
  have ok1: "fed_ok s1"
    using receive_event_ok [OF assms(1,2)] assms(3) by (metis snd_conv)
  have ok2: "fed_ok s2" using assms(4) ok1 by (rule fed_sys.inv_steps)
  have "ev \<in> set (events s2)" using set_mono_prefix [OF fed_log_steps [OF ok1 assms(4)]] ev(1) by blast
  then have log: "filter (\<lambda>r. e_event_id r = event_id) (events s2) = [ev]"
    using ledger_ok_parts(5) [OF fed_ok_parts(1) [OF ok2]] ev(2)
    by (intro filter_unique_key) (auto simp: events_ok_def)
  obtain row2 where row2: "row2 \<in> set (federation_inbound s2)" "inbound_keeps row row2"
    using fed_inbound_steps [OF ok1 assms(4) row(1)] by blast
  then have f2: "i_origin row2 = origin" "i_event_id row2 = event_id" "i_event_jcs row2 = jcs" "i_sig row2 = sig"
    using row inbound_keeps_fields by simp_all
  have found: "find (\<lambda>r. i_origin r = origin \<and> i_event_id r = event_id) (federation_inbound s2) = Some row2"
    using find_Some_iff_unique [of "\<lambda>r. (i_origin r, i_event_id r)" "federation_inbound s2" "(origin, event_id)" row2]
      fed_ok_parts(3) [OF ok2] row2(1) f2 by (simp add: inbound_ok_def)
  have known: "\<exists>r \<in> set (federation_inbound s2). i_origin r = origin \<and> i_event_id r = event_id"
    using row2(1) f2 by blast
  have again: "receive_event origin event_id j signed2 sig2 rf2 rk2 rp2 source2 target2 local2 ty2 payload2
      created2 E2 s2 = receive_conflict origin event_id j signed2 sig2 E2 s2" for j
    unfolding receive_event_def if_P [OF known] by (rule refl)
  show ?thesis
  proof (intro conjI impI)
    show "\<exists>ev. filter (\<lambda>r. e_event_id r = event_id) (events s2) = [ev] \<and> e_source ev = source_addr \<and>
      e_target ev = target_local \<and> e_type ev = ty \<and>
      e_payload_json ev = sort_keys (JObj (payload_local payload signed_json))"
      using log ev(3-) by blast
    show "\<exists>row2. i_event_jcs row2 = jcs \<and> i_sig row2 = sig \<and>
      receive_event origin event_id jcs signed2 sig2 rf2 rk2 rp2 source2 target2 local2 ty2 payload2 created2
        E2 s2 = (Inr (Receive_Duplicate row2), s2)"
      using f2 by (intro exI [of _ row2]) (simp add: again receive_conflict_def found)
  next
    assume "jcs' \<noteq> jcs"
    then show "\<exists>s3. receive_event origin event_id jcs' signed2 sig2 rf2 rk2 rp2 source2 target2 local2 ty2
        payload2 created2 E2 s2 = (Inr (Receive_Conflict (lit ''same_id_different_content'')), s3) \<and>
      events s3 = events s2 \<and> federation_inbound s3 = federation_inbound s2"
      using f2 by (simp add: again receive_conflict_def found Let_def)
  qed
qed

text \<open>
  C23: the stage of a sent event at its receiver never falls back: \<open>applied\<close> stays
  \<open>applied\<close>, and \<open>received\<close> becomes at most \<open>applied\<close>, whatever receipts, in whatever order,
  arrive later.
\<close>

theorem receipt_stage_never_downgrades:
  assumes "fed_ok s" "fed_next\<^sup>*\<^sup>* s s'" "receipt_stage event_id agent s = Some stage"
  shows "receipt_stage event_id agent s' \<in> {Some stage, Some (lit ''applied'')}"
proof -
  have "set (federation_receipt_in s) \<subseteq> set (federation_receipt_in s')"
    by (rule fed_sys.rel_steps [OF assms(2,1)]) (auto simp: fed_next_def dest: fed_step_receipt_in)
  with assms(3) show ?thesis
    by (auto simp: receipt_stage_def Let_def split: if_splits)
qed

definition pending_count :: "'z fed_scheme \<Rightarrow> int" where
  "pending_count s = int (length (filter (\<lambda>r. o_status r = Pending) (federation_outbound s)))"

lemma pending_upd:
  assumes "\<And>r. P r \<Longrightarrow> o_status r = Pending"
  shows "length (filter (\<lambda>r. o_status r = Pending) (upd_where P f rows)) \<le>
    length (filter (\<lambda>r. o_status r = Pending) rows)"
  using assms by (induction rows) (auto simp: upd_where_def le_SucI)

lemma pending_upd_id:
  assumes "sorted_wrt (<) (map o_id rows)" "row \<in> set rows" "o_status row = Pending"
  shows "length (filter (\<lambda>r. o_status r = Pending) (upd_where (\<lambda>r. o_id r = o_id row) f rows)) \<le>
    length (filter (\<lambda>r. o_status r = Pending) rows)"
proof -
  have "inj_on o_id (set rows)" using ascending_distinct [OF assms(1)] by (simp add: distinct_map)
  then have "upd_where (\<lambda>r. o_id r = o_id row) f rows = upd_where (\<lambda>r. r = row) f rows"
    using assms(2) unfolding upd_where_def by (intro map_cong) (auto dest: inj_onD)
  then show ?thesis using pending_upd [of "\<lambda>r. r = row" f rows] assms(3) by simp
qed

text \<open>
  C24: the outbox respects its cap.  A step that makes the number of pending events larger is an
  enqueue, it adds one, and the number afterwards is at most the cap it was called with; an
  enqueue at the cap is refused with \<open>OutboxFull\<close> and writes nothing.
\<close>

theorem outbox_respects_cap:
  assumes "fed_step E s s'" "fed_ok s" "pending_count s < pending_count s'"
  shows "\<exists>event_id origin kid sl sa target family ty signed_json sig envelope cap.
    enqueue_outbound event_id origin kid sl sa target family ty signed_json sig envelope cap E s =
      (Inr Queued, s') \<and>
    pending_count s' = pending_count s + 1 \<and> pending_count s' \<le> cap"
proof -
  have same: False if "federation_outbound s' = federation_outbound s"
    using that assms(3) by (simp add: pending_count_def)
  have shrink: False
    if "federation_outbound s' = upd_where P f (federation_outbound s)" "\<And>r. P r \<Longrightarrow> o_status r = Pending"
    for P f
    using assms(3) pending_upd [of P f "federation_outbound s"] that by (simp add: pending_count_def)
  from assms(1) show ?thesis
  proof (cases rule: fed_step.cases)
    case fed_local
    then show ?thesis using same by (simp add: ledger_step_tables)
  next
    case (fed_enqueue event_id origin kid sl sa target family ty signed_json sig envelope cap)
    then have "enqueue_outbound event_id origin kid sl sa target family ty signed_json sig envelope cap E s =
        (Inr Queued, s') \<and> pending_count s' = pending_count s + 1 \<and> pending_count s' \<le> cap"
      using assms(3) by (auto simp: enqueue_outbound_def pending_count_def split: if_splits)
    then show ?thesis by blast
  next
    case fed_outbound_sent
    have False by (rule shrink, unfold fed_outbound_sent mark_outbound_sent_def, simp) simp
    then show ?thesis ..
  next
    case fed_outbound_retry
    have False by (rule shrink, unfold fed_outbound_retry mark_outbound_retry_def, simp) simp
    then show ?thesis ..
  next
    case (fed_outbound_fail event_id error)
    have asc: "sorted_wrt (<) (map o_id (federation_outbound s))"
      using fed_ok_parts(2) [OF assms(2)] by (simp add: outbound_ok_def)
    show ?thesis
    proof (cases "find (\<lambda>r. o_event_id r = event_id \<and> o_status r = Pending) (federation_outbound s)")
      case None
      then show ?thesis using same by (simp add: fed_outbound_fail fail_outbound_permanent_def)
    next
      case (Some row)
      then have "row \<in> set (federation_outbound s)" "o_status row = Pending" by (auto dest: find_SomeD)
      from pending_upd_id [OF asc this] show ?thesis
        using assms(3)
        by (simp add: fed_outbound_fail fail_outbound_permanent_def Some pending_count_def not_less [symmetric])
    qed
  qed (rule FalseE, rule same, simp add: mark_delivered_def materialize_receipt_def mark_receipt_sent_def
      mark_receipt_retry_def fail_receipt_permanent_def mark_notification_hint_sent_def
      ack_notification_hints_def Let_def split: option.splits)+
qed


lemma insert_notification_grows:
  "set (federation_notifications s) \<subseteq> set (federation_notifications (snd (insert_notification i k a e d ts s)))"
  by (auto simp: insert_notification_def)

lemma record_receipt_notifications:
  "set (federation_notifications s) \<subseteq> set (federation_notifications (snd (record_receipt_in event_id agent
     ack_type issuer kid signed_json sig notify_agent notify_detail E s)))"
proof (cases "insert_original event_id agent ack_type issuer kid signed_json sig (now E 0)
    (federation_receipt_in_originals s)")
  case (fields ins oid origs)
  show ?thesis
    unfolding record_receipt_in_def fields Let_def prod.case
    by (cases ins) (auto simp: insert_notification_def)
qed

text \<open>
  C25: a notification is completed only by its owner.  No step removes a notification or changes
  its content, an acknowledged one stays acknowledged, and the only step that turns an open one
  into an acknowledged one is \<open>ack_notification_hints\<close> called for the agent it belongs to (the
  operator for one without an agent) with its intent id; pushing a hint never completes it.
\<close>

theorem notification_completed_only_by_owner:
  assumes "fed_step E s s'" "fed_ok s" "r \<in> set (federation_notifications s)"
  shows "\<exists>r' \<in> set (federation_notifications s').
    n_intent_id r' = n_intent_id r \<and> n_kind r' = n_kind r \<and> n_agent r' = n_agent r \<and>
    n_detail_json r' = n_detail_json r \<and> (n_acked r \<longrightarrow> n_acked r') \<and>
    (n_acked r' \<longrightarrow> n_acked r \<or>
      (\<exists>ids. n_intent_id r \<in> set ids \<and> s' = snd (ack_notification_hints ids (n_agent r) s)))"
proof -
  define Q where "Q a b = (n_intent_id b = n_intent_id a \<and> n_kind b = n_kind a \<and> n_agent b = n_agent a \<and>
    n_detail_json b = n_detail_json a \<and> (n_acked a \<longrightarrow> n_acked b) \<and>
    (n_acked b \<longrightarrow> n_acked a \<or>
      (\<exists>ids. n_intent_id a \<in> set ids \<and> s' = snd (ack_notification_hints ids (n_agent a) s))))" for a b :: notification_row
  have refl: "Q a a" for a by (simp add: Q_def)
  have keep: "\<exists>r' \<in> set (federation_notifications s'). Q r r'"
    if "set (federation_notifications s) \<subseteq> set (federation_notifications s')"
    using that assms(3) refl by blast
  have "\<exists>r' \<in> set (federation_notifications s'). Q r r'"
    using assms(1)
  proof (cases rule: fed_step.cases)
    case fed_local
    then show ?thesis by (intro keep) (simp add: ledger_step_tables)
  next
    case (fed_outbound_fail event_id error)
    then show ?thesis
      by (intro keep) (auto simp: fail_outbound_permanent_def split: option.splits
          intro: insert_notification_grows [THEN subsetD])
  next
    case (fed_receipt_fail event_id agent ack_type error)
    then show ?thesis
      by (intro keep) (auto simp: fail_receipt_permanent_def split: option.splits
          intro: insert_notification_grows [THEN subsetD])
  next
    case fed_record_receipt
    then show ?thesis by (intro keep) (simp add: record_receipt_notifications)
  next
    case (fed_hint_sent intent_id)
    then show ?thesis
      by (simp add: mark_notification_hint_sent_def)
        (rule upd_where_row [OF assms(3)], simp_all add: Q_def)
  next
    case (fed_ack_hints ids agent)
    show ?thesis
    proof (cases "ids = []")
      case True
      then show ?thesis by (intro keep) (simp add: fed_ack_hints ack_notification_hints_def)
    next
      case False
      have "Q x (x\<lparr>n_acked := True\<rparr>)" if "n_intent_id x \<in> set ids" "n_agent x = agent" for x
        using that fed_ack_hints by (auto simp: Q_def)
      then have "\<exists>r' \<in> set (upd_where (\<lambda>r. \<not> n_acked r \<and> n_intent_id r \<in> set ids \<and> n_agent r = agent)
          (\<lambda>r. r\<lparr>n_acked := True\<rparr>) (federation_notifications s)). Q r r'"
        by (intro upd_where_row [OF assms(3)]) (auto intro: refl)
      with False show ?thesis by (simp add: fed_ack_hints ack_notification_hints_def Let_def)
    qed
  qed (intro keep, simp add: enqueue_outbound_def mark_outbound_sent_def mark_outbound_retry_def
      mark_delivered_def materialize_receipt_def mark_receipt_sent_def mark_receipt_retry_def Let_def)+
  then show ?thesis by (simp add: Q_def)
qed


section \<open>Concrete instances\<close>

text \<open>An event queued for another family, then sent; an event received, then acknowledged.\<close>

lemma init_fed_tables [simp]:
  "federation_outbound init_fed = []" "federation_inbound init_fed = []" "federation_receipt_out init_fed = []"
  "federation_receipt_in init_fed = []" "federation_receipt_in_originals init_fed = []"
  "federation_notifications init_fed = []" "events init_fed = []" "acks init_fed = []"
  "source_counters init_fed = Map.empty"
  by (simp_all add: init_fed_def ledger.defs fed.defs init_ledger_def)

definition demo_queued :: "enqueue_result res \<times> fed" where
  "demo_queued = enqueue_outbound (lit ''m1'') (lit ''org-a'') (lit ''k1'') (lit ''a'') (lit ''a@org-a'')
     (lit ''b@org-b'') (lit ''org-b'') (lit ''message'') (JObj []) (lit ''sig'') [123, 125] 10 demo_env init_fed"

lemma demo_queued_fst: "fst demo_queued = Inr Queued"
  by (simp add: demo_queued_def enqueue_outbound_def)

lemma demo_queued_step: "fed_step demo_env init_fed (snd demo_queued)"
  unfolding demo_queued_def by (rule fed_enqueue)

lemma demo_queued_ok: "fed_ok (snd demo_queued)"
  using demo_queued_step fed_ok_init by (rule fed_step_ok)

lemma demo_queued_row:
  obtains r where "federation_outbound (snd demo_queued) = [r]" "o_envelope_json r = [123, 125]"
    "o_status r = Pending"
  by (simp add: demo_queued_def enqueue_outbound_def)

definition demo_received :: "receive_result res \<times> fed" where
  "demo_received = receive_event (lit ''org-b'') (lit ''m2'') [123, 125] (JObj []) (lit ''sig'') (lit ''org-b'')
     (lit ''k2'') (lit ''pub'') (lit ''b@org-b'') (lit ''a@org-a'') (lit ''a'') (lit ''message'')
     [(lit ''text'', JStr (lit ''hi''))] (now demo_env 0) demo_env init_fed"

lemma demo_received_stored:
  "\<exists>row. demo_received = (Inr (Receive_Stored row), snd demo_received)"
  "\<exists>ev. events (snd demo_received) = [ev] \<and> e_event_id ev = lit ''m2''"
  "federation_receipt_out (snd demo_received) = []" "acks (snd demo_received) = []"
  by (simp_all add: demo_received_def receive_event_def next_seq_def fits64_def next_id_def event_conflict_def
      Let_def)

lemma demo_received_ok: "fed_ok (snd demo_received)"
  unfolding demo_received_def by (rule receive_event_ok [OF fed_ok_init]) simp

theorem fed_reachable_ok_witness: "fed_ok (snd demo_queued)"
  by (rule fed_reachable_ok, rule r_into_rtranclp [where r = fed_next])
    (use demo_queued_step in \<open>auto simp: fed_next_def\<close>)

theorem outbound_send_is_final_witness:
  "\<exists>r' \<in> set (federation_outbound (mark_outbound_sent (lit ''m1'') demo_env (snd demo_queued))).
     o_envelope_json r' = [123, 125]"
proof -
  obtain r where r: "federation_outbound (snd demo_queued) = [r]" "o_envelope_json r = [123, 125]"
    by (rule demo_queued_row)
  have "fed_next (snd demo_queued) (mark_outbound_sent (lit ''m1'') demo_env (snd demo_queued))"
    unfolding fed_next_def by (blast intro: fed_outbound_sent)
  then have "fed_next\<^sup>*\<^sup>* (snd demo_queued) (mark_outbound_sent (lit ''m1'') demo_env (snd demo_queued))"
    by (rule r_into_rtranclp [where r = fed_next])
  from outbound_send_is_final [OF demo_queued_ok this, of r] r show ?thesis
    by auto
qed

theorem receipt_fixed_at_first_ack_witness:
  "\<exists>s1 r. ack_with_receipt_intent (lit ''m2'') (lit ''a'') (lit ''applied'') None (lit ''a@org-a'') (lit ''org-b'')
      (lit ''hash'') (lit ''org-a'') (lit ''k1'') demo_env (snd demo_received) = (Inr (), s1) \<and>
    filter (\<lambda>r. receipt_key r = (lit ''m2'', lit ''a@org-a'', lit ''applied'')) (federation_receipt_out s1) = [r] \<and>
    ro_at r = now demo_env 0"
proof -
  obtain ev where ev: "events (snd demo_received) = [ev]" "e_event_id ev = lit ''m2''"
    using demo_received_stored(2) by blast
  define call where "call = ack_with_receipt_intent (lit ''m2'') (lit ''a'') (lit ''applied'') None (lit ''a@org-a'')
      (lit ''org-b'') (lit ''hash'') (lit ''org-a'') (lit ''k1'') demo_env (snd demo_received)"
  have "fst call = Inr ()"
    by (simp add: call_def ack_with_receipt_intent_def upsert_ack_def ev demo_received_stored Let_def)
  then have call: "call = (Inr (), snd call)" by (simp add: prod_eq_iff)
  from receipt_fixed_at_first_ack [OF demo_received_ok call [unfolded call_def] _ rtranclp.rtrancl_refl
      rtranclp.rtrancl_refl]
  obtain r where "filter (\<lambda>r. receipt_key r = (lit ''m2'', lit ''a@org-a'', lit ''applied''))
      (federation_receipt_out (snd call)) = [r] \<and> ro_at r = now demo_env 0"
    by (auto simp: demo_received_stored(3) call_def)
  with call show ?thesis unfolding call_def by blast
qed

theorem federated_event_stored_exactly_once_witness:
  "\<exists>row2. receive_event (lit ''org-b'') (lit ''m2'') [123, 125] JNull (lit ''other'') [] [] [] [] [] [] [] [] []
     demo_env (snd demo_received) = (Inr (Receive_Duplicate row2), snd demo_received)"
proof -
  obtain row where "demo_received = (Inr (Receive_Stored row), snd demo_received)"
    using demo_received_stored(1) by blast
  from federated_event_stored_exactly_once [OF fed_ok_init _ this [unfolded demo_received_def]
      rtranclp.rtrancl_refl, where jcs' = "[]" and ?signed2.0 = JNull and ?sig2.0 = "lit ''other''"
      and ?rf2.0 = "[]" and ?rk2.0 = "[]" and ?rp2.0 = "[]" and ?source2.0 = "[]" and ?target2.0 = "[]"
      and ?local2.0 = "[]" and ?ty2.0 = "[]" and ?payload2.0 = "[]" and ?created2.0 = "[]" and ?E2.0 = demo_env]
  show ?thesis unfolding demo_received_def by auto
qed

definition demo_receipt :: fed where
  "demo_receipt = snd (record_receipt_in (lit ''m1'') (lit ''b@org-b'') (lit ''applied'') (lit ''org-b'') (lit ''k2'')
     (JObj []) (lit ''sig'') (Some (lit ''a'')) [] demo_env init_fed)"

theorem receipt_stage_never_downgrades_witness:
  "receipt_stage (lit ''m1'') (lit ''b@org-b'')
     (mark_outbound_sent (lit ''m1'') demo_env demo_receipt) = Some (lit ''applied'')"
proof -
  have "\<exists>r \<in> set (federation_receipt_in demo_receipt). rs_event_id r = lit ''m1'' \<and>
      rs_agent r = lit ''b@org-b'' \<and> rs_ack_type r = lit ''applied''"
    by (simp add: demo_receipt_def record_receipt_in_def insert_original_def insert_notification_def Let_def)
  then have stage: "receipt_stage (lit ''m1'') (lit ''b@org-b'') demo_receipt = Some (lit ''applied'')"
    unfolding receipt_stage_def Let_def by (auto simp: image_iff intro: sym)
  have ok: "fed_ok demo_receipt"
    unfolding demo_receipt_def by (rule record_receipt_in_ok [OF fed_ok_init])
  have "fed_next\<^sup>*\<^sup>* demo_receipt (mark_outbound_sent (lit ''m1'') demo_env demo_receipt)"
    by (rule r_into_rtranclp [where r = fed_next], unfold fed_next_def) (blast intro: fed_outbound_sent)
  from receipt_stage_never_downgrades [OF ok this stage] show ?thesis by simp
qed

theorem outbox_respects_cap_witness:
  "pending_count (snd demo_queued) = pending_count init_fed + 1"
proof -
  have "pending_count init_fed < pending_count (snd demo_queued)"
    by (simp add: pending_count_def demo_queued_def enqueue_outbound_def)
  from outbox_respects_cap [OF demo_queued_step fed_ok_init this] show ?thesis by blast
qed

theorem notification_completed_only_by_owner_witness:
  "\<exists>r' \<in> set (federation_notifications (mark_outbound_sent (lit ''m1'') demo_env demo_receipt)).
     n_kind r' = lit ''receipt_received''"
proof -
  have ok: "fed_ok demo_receipt"
    unfolding demo_receipt_def by (rule record_receipt_in_ok [OF fed_ok_init])
  obtain r where r: "r \<in> set (federation_notifications demo_receipt)" "n_kind r = lit ''receipt_received''"
    by (simp add: demo_receipt_def record_receipt_in_def insert_original_def insert_notification_def Let_def)
  from notification_completed_only_by_owner [OF fed_outbound_sent ok r(1)] r(2) show ?thesis
    by metis
qed

end
