(* ===== verification/Task_Fold.thy ===== *)
theory Task_Fold
  imports Prelude "HOL-Library.Multiset"
begin

text \<open>
  The task log of \<open>tools/tasklib.py\<close>: the state of every task is a fold over the ledger's task
  events.  Task ids and the values a payload carries are JSON values; the texts of anomalies and
  of hand-over notes are kept as the values they are formatted from.  An operation that Python
  refuses on the values of a payload (an unhashable key, a list operation on something else)
  raises, as a value of \<open>task_exn\<close>.
\<close>

section \<open>Data\<close>

datatype task_exn = Type_Error | Attribute_Error

type_synonym 'a task_res = "task_exn + 'a"
type_synonym payload = "(pystr \<times> json) list"

datatype status = Pending | Accepted | In_Progress | Waiting | Completed | Failed | Cancelled

definition TERMINAL :: "status set" where
  "TERMINAL = {Completed, Failed, Cancelled}"

datatype task_op = Create | Accept | Start | Update | Block | Handoff | Deliver | Verify | Complete | Fail | Cancel

definition OPS :: "(pystr \<times> task_op) list" where
  "OPS = [(lit ''create'', Create), (lit ''accept'', Accept), (lit ''start'', Start), (lit ''update'', Update),
     (lit ''block'', Block), (lit ''handoff'', Handoff), (lit ''deliver'', Deliver), (lit ''verify'', Verify),
     (lit ''complete'', Complete), (lit ''fail'', Fail), (lit ''cancel'', Cancel)]"

record task_event =
  te_id :: int
  te_event_id :: pystr
  te_source :: pystr
  te_created_at :: pystr
  te_payload :: payload

datatype why =
    Duplicate_Create | Create_Incomplete | Before_Create task_op | After_Terminal task_op status
  | Accept_By_Other pystr json | Wrong_Status task_op status | Missing task_op | Complete_Unverified

record anomaly =
  an_event_id :: pystr
  an_ledger_id :: int
  an_op :: task_op
  an_why :: why

datatype hist_note = Plain json | Handed_Over json json json

record history_row =
  h_ledger_id :: int
  h_event_id :: pystr
  h_actor :: pystr
  h_op :: task_op
  h_at :: pystr
  h_note :: hist_note

record task =
  t_task_id :: json
  t_status :: "status option"
  t_title :: json
  t_context :: json
  t_initiator :: pystr
  t_assignee :: json
  t_participants :: json
  t_priority :: json
  t_deadline :: json
  t_deps :: json
  t_blocked_reason :: json
  t_next_action :: json
  t_deliverable :: json
  t_verification :: json
  t_history :: "history_row list"
  t_anomalies :: "anomaly list"
  t_created_at :: pystr
  t_updated_at :: "pystr option"

type_synonym tasks = "(json \<times> task) list"

section \<open>Python values\<close>

text \<open>\<open>p.get(key)\<close>, with \<open>None\<close> as \<open>JNull\<close>, and \<open>x or y\<close>.\<close>

definition pget :: "payload \<Rightarrow> string \<Rightarrow> json" where
  "pget p key = (case map_of p (lit key) of None \<Rightarrow> JNull | Some v \<Rightarrow> v)"

definition py_or :: "json \<Rightarrow> json \<Rightarrow> json" where
  "py_or x y = (if py_true x then x else y)"

definition hashable :: "json \<Rightarrow> bool" where
  "hashable v = (case v of JArr _ \<Rightarrow> False | JObj _ \<Rightarrow> False | _ \<Rightarrow> True)"

text \<open>\<open>op in OPS\<close>.\<close>

definition task_op_of :: "json \<Rightarrow> task_op option task_res" where
  "task_op_of v = (if \<not> hashable v then Inl Type_Error
     else Inr (case v of JStr s \<Rightarrow> map_of OPS s | _ \<Rightarrow> None))"

definition find_task :: "json \<Rightarrow> tasks \<Rightarrow> task option" where
  "find_task tid ts = map_option snd (find (\<lambda>(k, t). py_eq k tid) ts)"

text \<open>\<open>tasks[tid] = t\<close>: an existing key keeps its place.\<close>

definition put_task :: "json \<Rightarrow> task \<Rightarrow> tasks \<Rightarrow> tasks" where
  "put_task tid t ts =
     (if find (\<lambda>(k, t). py_eq k tid) ts = None then ts @ [(tid, t)]
      else map (\<lambda>(k, t'). if py_eq k tid then (k, t) else (k, t')) ts)"

text \<open>\<open>if to not in participants: participants.append(to)\<close>.\<close>

definition add_participant :: "json \<Rightarrow> json \<Rightarrow> json task_res" where
  "add_participant recipient participants =
     (case participants of
        JArr xs \<Rightarrow> Inr (JArr (if list_ex (\<lambda>x. py_eq x recipient) xs then xs else xs @ [recipient]))
      | JStr s \<Rightarrow>
          (case recipient of
             JStr r \<Rightarrow> if sublist r s then Inr participants else Inl Attribute_Error
           | _ \<Rightarrow> Inl Type_Error)
      | JObj kvs \<Rightarrow>
          if \<not> hashable recipient then Inl Type_Error
          else if list_ex (\<lambda>(k, v). py_eq (JStr k) recipient) kvs then Inr participants
          else Inl Attribute_Error
      | _ \<Rightarrow> Inl Type_Error)"

section \<open>The fold\<close>

definition anom :: "task_event \<Rightarrow> task_op \<Rightarrow> why \<Rightarrow> task \<Rightarrow> task" where
  "anom ev op w t = t\<lparr>t_anomalies := t_anomalies t @
     [\<lparr>an_event_id = te_event_id ev, an_ledger_id = te_id ev, an_op = op, an_why = w\<rparr>]\<rparr>"

definition hist_row :: "task_event \<Rightarrow> task_op \<Rightarrow> hist_note option \<Rightarrow> history_row" where
  "hist_row ev op n =
     \<lparr>h_ledger_id = te_id ev, h_event_id = te_event_id ev, h_actor = te_source ev, h_op = op,
      h_at = te_created_at ev,
      h_note = (case n of Some x \<Rightarrow> x | None \<Rightarrow> Plain (pget (te_payload ev) ''note''))\<rparr>"

definition hist :: "task_event \<Rightarrow> task_op \<Rightarrow> hist_note option \<Rightarrow> task \<Rightarrow> task" where
  "hist ev op n t =
     t\<lparr>t_history := t_history t @ [hist_row ev op n], t_updated_at := Some (te_created_at ev)\<rparr>"

definition unopened :: "json \<Rightarrow> task" where
  "unopened tid = \<lparr>t_task_id = tid, t_status = None, t_title = JNull, t_context = JNull, t_initiator = [],
     t_assignee = JNull, t_participants = JNull, t_priority = JNull, t_deadline = JNull, t_deps = JNull,
     t_blocked_reason = JNull, t_next_action = JNull, t_deliverable = JNull, t_verification = JNull,
     t_history = [], t_anomalies = [], t_created_at = [], t_updated_at = None\<rparr>"

definition opened :: "json \<Rightarrow> task_event \<Rightarrow> task" where
  "opened tid ev =
     (let p = te_payload ev in
      \<lparr>t_task_id = tid, t_status = Some Pending, t_title = pget p ''title'', t_context = pget p ''context'',
       t_initiator = te_source ev, t_assignee = pget p ''assignee'',
       t_participants = py_or (pget p ''participants'') (JArr [JStr (te_source ev), pget p ''assignee'']),
       t_priority = pget p ''priority'', t_deadline = pget p ''deadline'', t_deps = py_or (pget p ''deps'') (JArr []),
       t_blocked_reason = JNull, t_next_action = pget p ''next_action'', t_deliverable = JNull,
       t_verification = JNull, t_history = [], t_anomalies = [], t_created_at = te_created_at ev,
       t_updated_at = None\<rparr>)"

definition create_task :: "json \<Rightarrow> task_event \<Rightarrow> task option \<Rightarrow> task" where
  "create_task tid ev existing =
     (case existing of
        Some t \<Rightarrow> anom ev Create Duplicate_Create t
      | None \<Rightarrow>
          if \<not> py_true (pget (te_payload ev) ''title'') \<or> \<not> py_true (pget (te_payload ev) ''assignee'')
          then anom ev Create Create_Incomplete (unopened tid)
          else hist ev Create None (opened tid ev))"

definition upd_field :: "payload \<Rightarrow> string \<Rightarrow> json \<Rightarrow> json" where
  "upd_field p key old = (if pget p key \<noteq> JNull then pget p key else old)"

text \<open>The branches for an open task that has not ended, with status \<open>st\<close>.\<close>

fun apply_op :: "task_op \<Rightarrow> task_event \<Rightarrow> status \<Rightarrow> task \<Rightarrow> task task_res" where
  "apply_op Accept ev st t =
     Inr (if \<not> py_eq (JStr (te_source ev)) (t_assignee t) then anom ev Accept (Accept_By_Other (te_source ev) (t_assignee t)) t
          else if st \<noteq> Pending then anom ev Accept (Wrong_Status Accept st) t
          else hist ev Accept None (t\<lparr>t_status := Some Accepted\<rparr>))"
| "apply_op Start ev st t =
     Inr (if st \<in> {Accepted, Waiting}
          then hist ev Start None (t\<lparr>t_status := Some In_Progress, t_blocked_reason := JNull\<rparr>)
          else anom ev Start (Wrong_Status Start st) t)"
| "apply_op Block ev st t =
     Inr (if st \<in> {Accepted, In_Progress}
          then hist ev Block None (t\<lparr>t_status := Some Waiting,
                 t_blocked_reason := py_or (pget (te_payload ev) ''reason'') (JStr (lit ''unspecified''))\<rparr>)
          else anom ev Block (Wrong_Status Block st) t)"
| "apply_op Update ev st t =
     (let p = te_payload ev in
      Inr (hist ev Update None (t\<lparr>t_next_action := upd_field p ''next_action'' (t_next_action t),
             t_priority := upd_field p ''priority'' (t_priority t),
             t_deadline := upd_field p ''deadline'' (t_deadline t),
             t_context := upd_field p ''context'' (t_context t)\<rparr>)))"
| "apply_op Deliver ev st t =
     (let v = pget (te_payload ev) ''deliverable'' in
      Inr (if \<not> py_true v then anom ev Deliver (Missing Deliver) t
           else hist ev Deliver None (t\<lparr>t_deliverable := v\<rparr>)))"
| "apply_op Verify ev st t =
     (let v = pget (te_payload ev) ''verification'' in
      Inr (if \<not> py_true v then anom ev Verify (Missing Verify) t
           else hist ev Verify None (t\<lparr>t_verification := v\<rparr>)))"
| "apply_op Handoff ev st t =
     (let recipient = pget (te_payload ev) ''to'' in
      if \<not> py_true recipient then Inr (anom ev Handoff (Missing Handoff) t)
      else
        (case add_participant recipient (t_participants t) of
           Inl e \<Rightarrow> Inl e
         | Inr ps \<Rightarrow>
             Inr ((hist ev Handoff
                    (Some (Handed_Over (t_assignee t) recipient
                       (py_or (pget (te_payload ev) ''note'') (JStr [])))) t)
                  \<lparr>t_assignee := recipient, t_status := Some Pending, t_participants := ps\<rparr>)))"
| "apply_op Complete ev st t =
     (let d = py_or (pget (te_payload ev) ''deliverable'') (t_deliverable t);
          v = py_or (pget (te_payload ev) ''verification'') (t_verification t)
      in Inr (if st \<noteq> In_Progress then anom ev Complete (Wrong_Status Complete st) t
              else if \<not> py_true d \<or> \<not> py_true v then anom ev Complete Complete_Unverified t
              else hist ev Complete None (t\<lparr>t_deliverable := d, t_verification := v, t_status := Some Completed\<rparr>)))"
| "apply_op Fail ev st t =
     (let r = pget (te_payload ev) ''reason'' in
      Inr (if \<not> py_true r then anom ev Fail (Missing Fail) t
           else hist ev Fail None (t\<lparr>t_status := Some Failed, t_blocked_reason := r\<rparr>)))"
| "apply_op Cancel ev st t =
     (let r = pget (te_payload ev) ''reason'' in
      Inr (hist ev Cancel (if py_true r then Some (Plain r) else None) (t\<lparr>t_status := Some Cancelled\<rparr>)))"
| "apply_op Create ev st t = Inr t"

definition task_after :: "json \<Rightarrow> task_op \<Rightarrow> task_event \<Rightarrow> task option \<Rightarrow> task task_res" where
  "task_after tid op ev existing =
     (if op = Create then Inr (create_task tid ev existing)
      else
        (case existing of
           None \<Rightarrow> Inr (anom ev op (Before_Create op) (unopened tid))
         | Some t \<Rightarrow>
             (case t_status t of
                None \<Rightarrow> Inr (anom ev op (Before_Create op) t)
              | Some st \<Rightarrow>
                  if st \<in> TERMINAL then Inr (anom ev op (After_Terminal op st) t)
                  else apply_op op ev st t)))"

text \<open>One round of the loop.\<close>

definition fold_event :: "task_event \<Rightarrow> tasks \<Rightarrow> tasks task_res" where
  "fold_event ev ts =
     (let tid = pget (te_payload ev) ''task_id'' in
      if \<not> py_true tid then Inr ts
      else
        (case task_op_of (pget (te_payload ev) ''op'') of
           Inl e \<Rightarrow> Inl e
         | Inr None \<Rightarrow> Inr ts
         | Inr (Some op) \<Rightarrow>
             if \<not> hashable tid then Inl Type_Error
             else
               (case task_after tid op ev (find_task tid ts) of
                  Inl e \<Rightarrow> Inl e
                | Inr t \<Rightarrow> Inr (put_task tid t ts))))"

fun fold_events :: "task_event list \<Rightarrow> tasks \<Rightarrow> tasks task_res" where
  "fold_events [] ts = Inr ts"
| "fold_events (ev # evs) ts = (case fold_event ev ts of Inl e \<Rightarrow> Inl e | Inr ts' \<Rightarrow> fold_events evs ts')"

definition fold_tasks :: "task_event list \<Rightarrow> tasks task_res" where
  "fold_tasks events = fold_events (sort_key te_id events) []"

section \<open>The life cycle of a task\<close>

text \<open>
  The abstract specification: the runs of a task as the sequences of history rows that are
  allowed, with the status and the assignee they lead to.
\<close>

inductive lifecycle :: "history_row list \<Rightarrow> status option \<Rightarrow> json \<Rightarrow> bool" where
  lc_none: "lifecycle [] None a"
| lc_create: "h_op h = Create \<Longrightarrow> py_true a \<Longrightarrow> lifecycle [h] (Some Pending) a"
| lc_accept: "lifecycle hs (Some Pending) a \<Longrightarrow> h_op h = Accept \<Longrightarrow> a = JStr (h_actor h) \<Longrightarrow>
    lifecycle (hs @ [h]) (Some Accepted) a"
| lc_start: "lifecycle hs (Some s) a \<Longrightarrow> s \<in> {Accepted, Waiting} \<Longrightarrow> h_op h = Start \<Longrightarrow>
    lifecycle (hs @ [h]) (Some In_Progress) a"
| lc_block: "lifecycle hs (Some s) a \<Longrightarrow> s \<in> {Accepted, In_Progress} \<Longrightarrow> h_op h = Block \<Longrightarrow>
    lifecycle (hs @ [h]) (Some Waiting) a"
| lc_note: "lifecycle hs (Some s) a \<Longrightarrow> s \<notin> TERMINAL \<Longrightarrow> h_op h \<in> {Update, Deliver, Verify} \<Longrightarrow>
    lifecycle (hs @ [h]) (Some s) a"
| lc_handoff: "lifecycle hs (Some s) a \<Longrightarrow> s \<notin> TERMINAL \<Longrightarrow> h_op h = Handoff \<Longrightarrow>
    h_note h = Handed_Over a b n \<Longrightarrow> py_true b \<Longrightarrow> lifecycle (hs @ [h]) (Some Pending) b"
| lc_complete: "lifecycle hs (Some In_Progress) a \<Longrightarrow> h_op h = Complete \<Longrightarrow>
    lifecycle (hs @ [h]) (Some Completed) a"
| lc_end: "lifecycle hs (Some s) a \<Longrightarrow> s \<notin> TERMINAL \<Longrightarrow> (h_op h, s') \<in> {(Fail, Failed), (Cancel, Cancelled)} \<Longrightarrow>
    lifecycle (hs @ [h]) (Some s') a"

inductive_cases lifecycle_acceptedE: "lifecycle hs (Some Accepted) a"

definition task_ok :: "task \<Rightarrow> bool" where
  "task_ok t =
     (lifecycle (t_history t) (t_status t) (t_assignee t) \<and>
      (t_status t = Some Completed \<longrightarrow> py_true (t_deliverable t) \<and> py_true (t_verification t)) \<and>
      (t_status t \<noteq> None \<longrightarrow> py_true (t_title t)))"

lemma anom_simps [simp]:
  "t_history (anom ev op w t) = t_history t" "t_status (anom ev op w t) = t_status t"
  "t_assignee (anom ev op w t) = t_assignee t" "t_deliverable (anom ev op w t) = t_deliverable t"
  "t_verification (anom ev op w t) = t_verification t" "t_title (anom ev op w t) = t_title t"
  by (simp_all add: anom_def)

lemma hist_simps [simp]:
  "t_history (hist ev op n t) = t_history t @ [hist_row ev op n]" "t_status (hist ev op n t) = t_status t"
  "t_assignee (hist ev op n t) = t_assignee t" "t_deliverable (hist ev op n t) = t_deliverable t"
  "t_verification (hist ev op n t) = t_verification t" "t_title (hist ev op n t) = t_title t"
  by (simp_all add: hist_def)

lemma hist_row_simps [simp]:
  "h_op (hist_row ev op n) = op" "h_actor (hist_row ev op n) = te_source ev"
  "h_note (hist_row ev op (Some x)) = x"
  by (simp_all add: hist_row_def)

lemma task_ok_anom [simp]: "task_ok (anom ev op w t) = task_ok t"
  by (simp add: task_ok_def)

lemma task_ok_unopened [simp]: "task_ok (unopened tid)"
  by (simp add: task_ok_def unopened_def lc_none)

lemma create_task_ok: "(\<And>t. existing = Some t \<Longrightarrow> task_ok t) \<Longrightarrow> task_ok (create_task tid ev existing)"
  by (auto simp: create_task_def split: option.splits)
     (simp add: task_ok_def hist_def opened_def Let_def lc_create)

lemma lifecycle_rows:
  "lifecycle hs (Some Pending) (JStr (te_source ev)) \<Longrightarrow>
     lifecycle (hs @ [hist_row ev Accept n]) (Some Accepted) (JStr (te_source ev))"
  "lifecycle hs (Some Accepted) a \<Longrightarrow> lifecycle (hs @ [hist_row ev Start n]) (Some In_Progress) a"
  "lifecycle hs (Some Waiting) a \<Longrightarrow> lifecycle (hs @ [hist_row ev Start n]) (Some In_Progress) a"
  "lifecycle hs (Some Accepted) a \<Longrightarrow> lifecycle (hs @ [hist_row ev Block n]) (Some Waiting) a"
  "lifecycle hs (Some In_Progress) a \<Longrightarrow> lifecycle (hs @ [hist_row ev Block n]) (Some Waiting) a"
  "lifecycle hs (Some s) a \<Longrightarrow> s \<notin> TERMINAL \<Longrightarrow> lifecycle (hs @ [hist_row ev Update n]) (Some s) a"
  "lifecycle hs (Some s) a \<Longrightarrow> s \<notin> TERMINAL \<Longrightarrow> lifecycle (hs @ [hist_row ev Deliver n]) (Some s) a"
  "lifecycle hs (Some s) a \<Longrightarrow> s \<notin> TERMINAL \<Longrightarrow> lifecycle (hs @ [hist_row ev Verify n]) (Some s) a"
  "lifecycle hs (Some s) a \<Longrightarrow> s \<notin> TERMINAL \<Longrightarrow> py_true b \<Longrightarrow>
     lifecycle (hs @ [hist_row ev Handoff (Some (Handed_Over a b m))]) (Some Pending) b"
  "lifecycle hs (Some In_Progress) a \<Longrightarrow> lifecycle (hs @ [hist_row ev Complete n]) (Some Completed) a"
  "lifecycle hs (Some s) a \<Longrightarrow> s \<notin> TERMINAL \<Longrightarrow> lifecycle (hs @ [hist_row ev Fail n]) (Some Failed) a"
  "lifecycle hs (Some s) a \<Longrightarrow> s \<notin> TERMINAL \<Longrightarrow> lifecycle (hs @ [hist_row ev Cancel n]) (Some Cancelled) a"
  by (erule lc_accept lc_start lc_block lc_note lc_handoff lc_complete lc_end; simp)+

lemma apply_op_ok:
  assumes "task_ok t" "t_status t = Some st" "st \<notin> TERMINAL" "apply_op op ev st t = Inr t'" "op \<noteq> Create"
  shows "task_ok t'"
proof -
  have lc: "lifecycle (t_history t) (Some st) (t_assignee t)" and title: "py_true (t_title t)"
    using assms(1,2) by (auto simp: task_ok_def)
  have nc: "st \<noteq> Completed" using assms(3) by (auto simp: TERMINAL_def)
  show ?thesis
  proof (cases op)
    case Handoff
    show ?thesis
    proof (cases "py_true (pget (te_payload ev) ''to'')")
      case True
      then show ?thesis using assms(4) lc title nc assms(3) unfolding Handoff
        by (auto simp: task_ok_def Let_def split: sum.splits intro!: lifecycle_rows(9))
    next
      case False
      then show ?thesis using assms(1,4) unfolding Handoff by (auto simp: Let_def)
    qed
  qed (use assms lc title nc in \<open>auto simp: task_ok_def Let_def py_or_def
      intro: lifecycle_rows split: if_splits\<close>)
qed

section \<open>The dictionary of tasks\<close>

text \<open>The interface of a dictionary whose keys are compared by an equivalence.\<close>

locale keyed_dict =
  fixes get :: "'k \<Rightarrow> 'd \<Rightarrow> 'v option" and put :: "'k \<Rightarrow> 'v \<Rightarrow> 'd \<Rightarrow> 'd"
    and same :: "'k \<Rightarrow> 'k \<Rightarrow> bool" and key :: "'k \<Rightarrow> bool" and inv :: "'d \<Rightarrow> bool"
  assumes get_put: "inv d \<Longrightarrow> key k \<Longrightarrow> key k' \<Longrightarrow> get k' (put k v d) = (if same k k' then Some v else get k' d)"
    and put_inv: "inv d \<Longrightarrow> key k \<Longrightarrow> inv (put k v d)"
    and get_same: "inv d \<Longrightarrow> key k \<Longrightarrow> key k' \<Longrightarrow> same k k' \<Longrightarrow> get k' d = get k d"
begin

text \<open>An update that changes the value of a key only along a preorder moves every key along it.\<close>

lemma put_along:
  assumes "inv d" "key k" "key k'" "get k' d = Some v"
    and "\<And>w. get k d = Some w \<Longrightarrow> R w u" and refl: "\<And>w. R w w"
  shows "\<exists>v'. get k' (put k u d) = Some v' \<and> R v v'"
proof (cases "same k k'")
  case True
  then have "get k d = Some v" using get_same [OF assms(1-3)] assms(4) by simp
  then show ?thesis using assms(1-3,5) True by (simp add: get_put)
next
  case False
  then show ?thesis using assms by (simp add: get_put)
qed

end

definition norm_key :: "json \<Rightarrow> json" where
  "norm_key v = (case v of JBool b \<Rightarrow> JInt (if b then 1 else 0) | _ \<Rightarrow> v)"

definition same_key :: "json \<Rightarrow> json \<Rightarrow> bool" where
  "same_key k k' = (norm_key k = norm_key k')"

lemma py_eq_key: "hashable k \<Longrightarrow> py_eq k k' \<longleftrightarrow> same_key k k'"
  by (cases k; cases k') (auto simp: hashable_def same_key_def norm_key_def)

definition keys_ok :: "tasks \<Rightarrow> bool" where
  "keys_ok ts = (\<forall>(k, t) \<in> set ts. hashable k)"

lemma find_key_cong:
  "keys_ok ts \<Longrightarrow> same_key k k' \<Longrightarrow> find (\<lambda>(x, t). py_eq x k) ts = find (\<lambda>(x, t). py_eq x k') ts"
  by (rule find_cong) (auto simp: keys_ok_def py_eq_key same_key_def)

lemma find_task_map:
  "keys_ok ts \<Longrightarrow> find_task k' (map (\<lambda>(x, t'). if py_eq x k then (x, t) else (x, t')) ts) =
     (if same_key k k' then map_option (\<lambda>_. t) (find_task k' ts) else find_task k' ts)"
  by (induction ts) (auto simp: find_task_def keys_ok_def py_eq_key same_key_def split: if_splits)

lemma find_task_append:
  "find_task k (xs @ ys) = (case find_task k xs of None \<Rightarrow> find_task k ys | Some t \<Rightarrow> Some t)"
  by (simp add: find_task_def find_append split: option.split)

interpretation task_dict: keyed_dict find_task put_task same_key hashable keys_ok
proof
  fix d :: tasks and k k' v
  assume d: "keys_ok d" and k: "hashable k" "hashable k'"
  show "find_task k' (put_task k v d) = (if same_key k k' then Some v else find_task k' d)"
  proof (cases "find (\<lambda>(x, t). py_eq x k) d")
    case None
    then have "same_key k k' \<Longrightarrow> find_task k' d = None"
      using find_key_cong [OF d, of k k'] by (simp add: find_task_def)
    with None k show ?thesis
      by (auto simp: put_task_def find_task_append) (auto simp: find_task_def py_eq_key split: option.split)
  next
    case (Some kt)
    then have "same_key k k' \<Longrightarrow> find_task k' d \<noteq> None"
      using find_key_cong [OF d, of k k'] by (simp add: find_task_def)
    with Some d show ?thesis by (auto simp: put_task_def find_task_map)
  qed
next
  fix d :: tasks and k v
  assume "keys_ok d" "hashable k"
  then show "keys_ok (put_task k v d)" by (auto simp: put_task_def keys_ok_def split: if_splits)
next
  fix d :: tasks and k k'
  assume "keys_ok d" "same_key k k'"
  then show "find_task k' d = find_task k d" using find_key_cong [of d k k'] by (simp add: find_task_def)
qed

section \<open>Whole logs\<close>

definition tasks_ok :: "tasks \<Rightarrow> bool" where
  "tasks_ok ts = (keys_ok ts \<and> (\<forall>(k, t) \<in> set ts. task_ok t))"

lemma find_task_ok: "tasks_ok ts \<Longrightarrow> find_task k ts = Some t \<Longrightarrow> task_ok t"
  by (auto simp: tasks_ok_def find_task_def dest!: find_SomeD)

lemma fold_event_cases:
  assumes "fold_event ev ts = Inr ts'"
  obtains "ts' = ts"
  | tid op t where "hashable tid" "task_after tid op ev (find_task tid ts) = Inr t" "ts' = put_task tid t ts"
proof -
  let ?tid = "pget (te_payload ev) ''task_id''"
  show thesis
  proof (cases "py_true ?tid")
    case False
    then show thesis using assms that(1) by (simp add: fold_event_def Let_def)
  next
    case True
    then obtain r where r: "task_op_of (pget (te_payload ev) ''op'') = Inr r"
      using assms by (cases "task_op_of (pget (te_payload ev) ''op'')") (auto simp: fold_event_def Let_def)
    show thesis
    proof (cases r)
      case None
      then show thesis using True r assms that(1) by (simp add: fold_event_def Let_def)
    next
      case (Some op)
      then have h: "hashable ?tid" using True r assms by (auto simp: fold_event_def Let_def split: if_splits)
      then show thesis
        using True r Some assms that(2) [OF h] by (auto simp: fold_event_def Let_def split: sum.splits)
    qed
  qed
qed

lemma task_after_ok:
  assumes "task_after tid op ev existing = Inr t" "\<And>t. existing = Some t \<Longrightarrow> task_ok t"
  shows "task_ok t"
  using assms create_task_ok [of existing tid ev]
  by (auto simp: task_after_def split: if_splits option.splits intro: apply_op_ok)

lemma fold_event_ok: "fold_event ev ts = Inr ts' \<Longrightarrow> tasks_ok ts \<Longrightarrow> tasks_ok ts'"
proof (erule fold_event_cases)
  fix tid op t
  assume ok: "tasks_ok ts" and h: "hashable tid" "task_after tid op ev (find_task tid ts) = Inr t" "ts' = put_task tid t ts"
  have "task_ok t" using h(2) find_task_ok [OF ok] by (rule task_after_ok)
  moreover have "keys_ok ts'" using ok h by (simp add: tasks_ok_def task_dict.put_inv)
  ultimately show "tasks_ok ts'" using ok h(3) by (auto simp: tasks_ok_def put_task_def split: if_splits)
qed simp

lemma fold_events_ok: "fold_events evs ts = Inr ts' \<Longrightarrow> tasks_ok ts \<Longrightarrow> tasks_ok ts'"
  by (induction evs arbitrary: ts) (auto split: sum.splits dest: fold_event_ok)

text \<open>An ended task only collects anomalies.\<close>

definition ended_keeps :: "task \<Rightarrow> task \<Rightarrow> bool" where
  "ended_keeps t t' =
     (\<forall>s \<in> TERMINAL. t_status t = Some s \<longrightarrow>
        t' = t\<lparr>t_anomalies := t_anomalies t'\<rparr> \<and> prefix (t_anomalies t) (t_anomalies t'))"

lemma ended_keeps_refl: "ended_keeps t t"
  by (simp add: ended_keeps_def)

lemma ended_keeps_trans: "ended_keeps t u \<Longrightarrow> ended_keeps u v \<Longrightarrow> ended_keeps t v"
proof (unfold ended_keeps_def, intro ballI impI)
  fix s
  assume tu: "\<forall>s\<in>TERMINAL. t_status t = Some s \<longrightarrow> u = t\<lparr>t_anomalies := t_anomalies u\<rparr> \<and> prefix (t_anomalies t) (t_anomalies u)"
    and uv: "\<forall>s\<in>TERMINAL. t_status u = Some s \<longrightarrow> v = u\<lparr>t_anomalies := t_anomalies v\<rparr> \<and> prefix (t_anomalies u) (t_anomalies v)"
    and s: "s \<in> TERMINAL" "t_status t = Some s"
  obtain a where u: "u = t\<lparr>t_anomalies := a\<rparr>" "prefix (t_anomalies t) a" using tu s by auto
  then have "t_status u = Some s" using s(2) by simp
  then obtain b where "v = u\<lparr>t_anomalies := b\<rparr>" "prefix (t_anomalies u) b" using uv s(1) by auto
  then show "v = t\<lparr>t_anomalies := t_anomalies v\<rparr> \<and> prefix (t_anomalies t) (t_anomalies v)"
    using u by (auto intro: prefix_order.trans)
qed

lemma task_after_ended: "task_after tid op ev (Some t) = Inr t' \<Longrightarrow> ended_keeps t t'"
  by (auto simp: ended_keeps_def task_after_def create_task_def anom_def split: if_splits)

lemma fold_events_ended:
  "fold_events evs ts = Inr ts' \<Longrightarrow> keys_ok ts \<Longrightarrow> hashable k \<Longrightarrow> find_task k ts = Some t \<Longrightarrow>
   \<exists>t'. find_task k ts' = Some t' \<and> ended_keeps t t'"
proof (induction evs arbitrary: ts t)
  case Nil
  then show ?case by (simp add: ended_keeps_refl)
next
  case (Cons ev evs)
  then obtain ts1 where step: "fold_event ev ts = Inr ts1" and rest: "fold_events evs ts1 = Inr ts'"
    by (auto split: sum.splits)
  have "keys_ok ts1 \<and> (\<exists>t1. find_task k ts1 = Some t1 \<and> ended_keeps t t1)"
    using step
  proof (cases rule: fold_event_cases)
    case 1
    then show ?thesis using Cons.prems ended_keeps_refl by auto
  next
    case (2 tid op u)
    have "\<exists>v'. find_task k (put_task tid u ts) = Some v' \<and> ended_keeps t v'"
      by (rule task_dict.put_along [OF Cons.prems(2) 2(1) Cons.prems(3,4)])
        (use 2 in \<open>auto intro: task_after_ended ended_keeps_refl\<close>)
    then show ?thesis using 2 Cons.prems by (simp add: task_dict.put_inv)
  qed
  then show ?case using Cons.IH [OF rest] Cons.prems ended_keeps_trans by blast
qed

lemma fold_events_append:
  "fold_events (xs @ ys) ts = (case fold_events xs ts of Inl e \<Rightarrow> Inl e | Inr ts' \<Rightarrow> fold_events ys ts')"
  by (induction xs arbitrary: ts) (auto split: sum.splits)

lemma sort_key_append_le:
  fixes f :: "'a \<Rightarrow> 'b :: linorder"
  assumes "\<And>x y. x \<in> set xs \<Longrightarrow> y \<in> set ys \<Longrightarrow> f x \<le> f y"
  shows "sort_key f (xs @ ys) = sort_key f xs @ sort_key f ys"
proof (rule properties_for_sort_key)
  show "mset (sort_key f xs @ sort_key f ys) = mset (xs @ ys)" by simp
  show "filter (\<lambda>x. f k = f x) (sort_key f xs @ sort_key f ys) = filter (\<lambda>x. f k = f x) (xs @ ys)" for k
    using sort_key_stable [of f "f k" xs] sort_key_stable [of f "f k" ys] by (simp add: eq_commute [of "f k"])
  show "sorted (map f (sort_key f xs @ sort_key f ys))" using assms by (auto simp: sorted_append)
qed

section \<open>Guarantees\<close>

text \<open>
  C33: the state of every task is explained by its history.  Whatever events the log holds, the
  history rows of a task are an allowed run of the life cycle that leads to its status and its
  assignee: a task is accepted only when pending and only by its assignee of that time, it is
  started, blocked and completed only from the right status, a hand-over names the old and the new
  assignee and makes it pending again, and nothing happens after its end; a completed task has a
  deliverable and a verification.  Every other event on it is an anomaly without effect.
\<close>

theorem task_state_refines_lifecycle:
  assumes "fold_tasks events = Inr ts" "(k, t) \<in> set ts"
  shows "lifecycle (t_history t) (t_status t) (t_assignee t) \<and>
    (t_status t = Some Completed \<longrightarrow> py_true (t_deliverable t) \<and> py_true (t_verification t))"
proof -
  have "tasks_ok ts" using assms(1) unfolding fold_tasks_def
    by (rule fold_events_ok) (simp add: tasks_ok_def keys_ok_def)
  then have "task_ok t" using assms(2) by (auto simp: tasks_ok_def)
  then show ?thesis by (simp add: task_ok_def)
qed

text \<open>
  C34: the end of a task is final.  When the log so far has completed, failed or cancelled a task,
  then whatever is appended to the ledger, as long as it can be folded, the task keeps its
  status, deliverable, verification, assignee and history; only its list of anomalies grows.
\<close>

theorem ended_task_is_final:
  assumes "fold_tasks old = Inr ts" "find_task k ts = Some t" "t_status t = Some s" "s \<in> TERMINAL" "hashable k"
    and later: "\<And>x y. x \<in> set old \<Longrightarrow> y \<in> set new \<Longrightarrow> te_id x \<le> te_id y"
    and "fold_tasks (old @ new) = Inr ts'"
  shows "\<exists>t'. find_task k ts' = Some t' \<and> t' = t\<lparr>t_anomalies := t_anomalies t'\<rparr> \<and>
    prefix (t_anomalies t) (t_anomalies t')"
proof -
  have run: "fold_events (sort_key te_id new) ts = Inr ts'"
    using assms(1,7) sort_key_append_le [of old new te_id, OF later] by (simp add: fold_tasks_def fold_events_append)
  have "tasks_ok ts" using assms(1) unfolding fold_tasks_def
    by (rule fold_events_ok) (simp add: tasks_ok_def keys_ok_def)
  then have "keys_ok ts" by (simp add: tasks_ok_def)
  from fold_events_ended [OF run this assms(5,2)] show ?thesis
    using assms(3,4) by (auto simp: ended_keeps_def)
qed

text \<open>
  C35: the state is a function of the ledger, not of the order in which its events are fetched.
  Two lists that hold the same events, with distinct ledger ids, fold to the same result, errors
  included.
\<close>

theorem task_fold_order_independent:
  assumes "set events = set events'" "distinct (map te_id events)" "distinct (map te_id events')"
  shows "fold_tasks events = fold_tasks events'"
proof -
  have "sort_key te_id events = sort_key te_id events'"
    using assms by (intro map_sorted_distinct_set_unique [of te_id]) (simp_all add: distinct_map)
  then show ?thesis by (simp add: fold_tasks_def)
qed

text \<open>The witness log: a task that is created, accepted, started and completed, and then cancelled.\<close>

definition demo_event :: "int \<Rightarrow> string \<Rightarrow> string \<Rightarrow> payload \<Rightarrow> task_event" where
  "demo_event i who op p = \<lparr>te_id = i, te_event_id = lit ''e'', te_source = lit who, te_created_at = lit ''t'',
     te_payload = (lit ''task_id'', JStr (lit ''T'')) # (lit ''op'', JStr (lit op)) # p\<rparr>"

definition demo_log :: "task_event list" where
  "demo_log =
     [demo_event 1 ''ann'' ''create'' [(lit ''title'', JStr (lit ''x'')), (lit ''assignee'', JStr (lit ''bob''))],
      demo_event 2 ''bob'' ''accept'' [], demo_event 3 ''bob'' ''start'' [],
      demo_event 4 ''bob'' ''complete'' [(lit ''deliverable'', JStr (lit ''d'')), (lit ''verification'', JStr (lit ''v''))]]"

definition demo_late :: task_event where
  "demo_late = demo_event 5 ''ann'' ''cancel'' []"

definition demo_tasks :: "task_event list \<Rightarrow> tasks" where
  "demo_tasks evs = (case fold_tasks evs of Inr ts \<Rightarrow> ts | Inl _ \<Rightarrow> [])"

definition demo_task :: task where
  "demo_task = (case find_task (JStr (lit ''T'')) (demo_tasks demo_log) of Some t \<Rightarrow> t | None \<Rightarrow> unopened JNull)"

lemma demo_folds:
  "fold_tasks demo_log = Inr (demo_tasks demo_log)"
  "fold_tasks (demo_log @ [demo_late]) = Inr (demo_tasks (demo_log @ [demo_late]))"
  "find_task (JStr (lit ''T'')) (demo_tasks demo_log) = Some demo_task"
  "demo_tasks demo_log = [(JStr (lit ''T''), demo_task)]"
  "t_status demo_task = Some Completed"
  by code_simp+

theorem task_state_refines_lifecycle_witness:
  "fold_tasks demo_log = Inr (demo_tasks demo_log) \<and>
   lifecycle (t_history demo_task) (Some Completed) (t_assignee demo_task) \<and> py_true (t_deliverable demo_task)"
  using task_state_refines_lifecycle [OF demo_folds(1), of "JStr (lit ''T'')" demo_task] demo_folds(1,4,5) by simp

theorem ended_task_is_final_witness:
  "\<exists>t'. find_task (JStr (lit ''T'')) (demo_tasks (demo_log @ [demo_late])) = Some t' \<and>
     t' = demo_task\<lparr>t_anomalies := t_anomalies t'\<rparr> \<and> prefix (t_anomalies demo_task) (t_anomalies t')"
  by (rule ended_task_is_final [OF demo_folds(1,3,5) _ _ _ demo_folds(2)])
    (auto simp: TERMINAL_def hashable_def demo_log_def demo_late_def demo_event_def)

theorem task_fold_order_independent_witness:
  "rev demo_log \<noteq> demo_log \<and> fold_tasks (rev demo_log) = fold_tasks demo_log"
proof
  show "rev demo_log \<noteq> demo_log" by (simp add: demo_log_def demo_event_def)
  have "distinct (map te_id demo_log)" by (simp add: demo_log_def demo_event_def)
  then show "fold_tasks (rev demo_log) = fold_tasks demo_log"
    by (intro task_fold_order_independent) (simp_all add: rev_map [symmetric])
qed

end
