(* ===== verification/Base64url.thy ===== *)
theory Base64url
  imports Digests
begin

text \<open>
  The base64url codec of \<open>federation/canonical.py\<close>: \<open>encode\<close> and \<open>decode_strict\<close>, and the
  rejection type \<open>FederationError\<close> of the federation boundary.  The main result says that
  \<open>decode_strict\<close> accepts exactly the texts that \<open>encode\<close> produces for the expected number of
  bytes, and that a text which is not canonical is reported as such whatever its length.
\<close>

unbundle bit_operations_syntax

section \<open>Rejections\<close>

text \<open>
  \<open>FederationError(layer, category, detail)\<close>.  The detail is a diagnostic text that no code
  branches on; it is left out.
\<close>

datatype fed_error = FederationError (fe_layer: string) (fe_category: string)

section \<open>The codec\<close>

definition B64URL :: pystr where
  "B64URL = lit ''ABCDEFGHIJKLMNOPQRSTUVWXYZabcdefghijklmnopqrstuvwxyz0123456789-_''"

text \<open>The dictionary \<open>_B64_VAL\<close>, and the character class of \<open>_B64_RE\<close>.\<close>

definition B64_VAL :: "int \<Rightarrow> int option" where
  "B64_VAL ch = map_of (zip B64URL (map int [0..<64])) ch"

definition B64_RE :: "pystr \<Rightarrow> bool" where
  "B64_RE text = (text \<noteq> [] \<and>
     list_all (\<lambda>c. 65 \<le> c \<and> c \<le> 90 \<or> 97 \<le> c \<and> c \<le> 122 \<or> 48 \<le> c \<and> c \<le> 57 \<or> c = 95 \<or> c = 45) text)"

text \<open>\<open>base64.urlsafe_b64encode(raw).rstrip(b"=")\<close>: three bytes are four characters.\<close>

definition b64_char :: "int \<Rightarrow> int" where
  "b64_char v = B64URL ! nat v"

fun encode :: "bytes \<Rightarrow> pystr" where
  "encode (a # b # c # raw) =
     b64_char (a div 4) # b64_char (a mod 4 * 16 + b div 16) #
     b64_char (b mod 16 * 4 + c div 64) # b64_char (c mod 64) # encode raw"
| "encode [a, b] = [b64_char (a div 4), b64_char (a mod 4 * 16 + b div 16), b64_char (b mod 16 * 4)]"
| "encode [a] = [b64_char (a div 4), b64_char (a mod 4 * 16)]"
| "encode [] = []"

text \<open>One round of the decoding loop on \<open>acc\<close>, \<open>nbits\<close> and \<open>out\<close>.\<close>

definition decode_step :: "int \<Rightarrow> int \<times> nat \<times> bytes \<Rightarrow> int \<times> nat \<times> bytes" where
  "decode_step ch st =
     (case st of (acc, nbits, out) \<Rightarrow>
        let acc = push_bit 6 acc OR the (B64_VAL ch); nbits = nbits + 6 in
        if nbits \<ge> 8 then (acc, nbits - 8, out @ [drop_bit (nbits - 8) acc AND 255])
        else (acc, nbits, out))"

definition decode_strict :: "json \<Rightarrow> nat \<Rightarrow> string \<Rightarrow> string \<Rightarrow> fed_error + bytes" where
  "decode_strict text len length_category layer =
     (let bad = Inl (FederationError layer ''non_canonical_base64url'') in
      case text of
        JStr s \<Rightarrow>
          if \<not> B64_RE s then bad
          else if length s mod 4 = 1 then bad
          else
            (case fold decode_step s (0, 0, []) of (acc, nbits, out) \<Rightarrow>
               if nbits \<noteq> 0 \<and> acc AND (push_bit nbits 1 - 1) \<noteq> 0 then bad
               else if length out \<noteq> len then Inl (FederationError layer length_category)
               else Inr out)
      | _ \<Rightarrow> bad)"

text \<open>Python's \<open>bytes\<close> holds numbers below 256.\<close>

definition is_bytes :: "bytes \<Rightarrow> bool" where
  "is_bytes bs = list_all (\<lambda>b. 0 \<le> b \<and> b < 256) bs"

lemma is_bytes_simps [simp]:
  "is_bytes []" "is_bytes (b # bs) \<longleftrightarrow> 0 \<le> b \<and> b < 256 \<and> is_bytes bs"
  "is_bytes (bs @ cs) \<longleftrightarrow> is_bytes bs \<and> is_bytes cs"
  by (auto simp: is_bytes_def)

section \<open>The alphabet\<close>

lemma B64URL_numerals:
  "B64URL = [65,66,67,68,69,70,71,72,73,74,75,76,77,78,79,80,81,82,83,84,85,86,87,88,89,90,
     97,98,99,100,101,102,103,104,105,106,107,108,109,110,111,112,113,114,115,116,117,118,119,120,121,122,
     48,49,50,51,52,53,54,55,56,57,45,95]"
  by (simp add: B64URL_def lit_def)

lemma length_B64URL [simp]: "length B64URL = 64"
  by (simp add: B64URL_numerals)

lemma distinct_B64URL: "distinct B64URL"
  by (simp add: B64URL_numerals)

lemma B64_VAL_char: "0 \<le> v \<Longrightarrow> v < 64 \<Longrightarrow> B64_VAL (b64_char v) = Some v"
  unfolding B64_VAL_def b64_char_def
  by (subst map_of_zip_nth) (auto simp: distinct_B64URL)

lemma B64_VAL_range: "B64_VAL c = Some v \<Longrightarrow> 0 \<le> v \<and> v < 64 \<and> c = b64_char v"
  unfolding B64_VAL_def b64_char_def
  by (auto dest!: map_of_SomeD simp: in_set_zip)

lemma alphabet_class:
  "B64_VAL c \<noteq> None \<longleftrightarrow> 65 \<le> c \<and> c \<le> 90 \<or> 97 \<le> c \<and> c \<le> 122 \<or> 48 \<le> c \<and> c \<le> 57 \<or> c = 95 \<or> c = 45"
proof -
  have "B64_VAL c \<noteq> None \<longleftrightarrow> c \<in> set B64URL"
    unfolding B64_VAL_def map_of_eq_None_iff by (simp add: set_map [symmetric] del: set_map)
  also have "B64URL = [65..90] @ [97..122] @ [48..57] @ [45, 95]"
    unfolding B64URL_numerals by (simp add: upto_rec1)
  finally show ?thesis
    by (simp only: set_append set_upto Un_iff atLeastAtMost_iff list.set insert_iff empty_iff) blast
qed

lemma B64_RE_iff: "B64_RE s \<longleftrightarrow> s \<noteq> [] \<and> (\<forall>c \<in> set s. B64_VAL c \<noteq> None)"
  unfolding B64_RE_def list_all_iff alphabet_class by (rule refl)

section \<open>The loop computes the digits in base 64\<close>

lemma or_shift6: "0 \<le> v \<Longrightarrow> v < 64 \<Longrightarrow> push_bit 6 acc OR v = acc * 64 + (v :: int)"
proof -
  assume v: "0 \<le> v" "v < 64"
  have low: "take_bit 6 v = v" using v by (simp add: take_bit_int_eq_self_iff)
  have "push_bit 6 acc AND v = 0"
    by (rule bit_eqI) (metis bit_0_eq bit_and_iff bit_push_bit_iff bit_take_bit_iff bot_apply bot_bool_def low not_le)
  then have "push_bit 6 acc OR v = push_bit 6 acc + v"
    by (simp add: disjunctive_add_eq_or)
  then show ?thesis by (simp add: push_bit_eq_mult)
qed

lemma low_byte: "drop_bit n acc AND 255 = acc div 2 ^ n mod (256 :: int)"
proof -
  have "(255 :: int) = mask 8" by (simp add: mask_eq_exp_minus_1)
  then show ?thesis by (simp only: drop_bit_eq_div take_bit_eq_mask [symmetric] take_bit_eq_mod) simp
qed

lemma trailing_bits: "acc AND (2 ^ n - 1) = acc mod (2 ^ n :: int)"
proof -
  have "2 ^ n - 1 = (mask n :: int)" by (simp add: mask_eq_exp_minus_1)
  then show ?thesis by (simp add: take_bit_eq_mask [symmetric] take_bit_eq_mod)
qed

lemma decode_step_simps:
  assumes "B64_VAL c = Some v"
  shows "decode_step c (acc, 0, out) = (acc * 64 + v, 6, out)"
    and "decode_step c (acc, 6, out) = (acc * 64 + v, 4, out @ [(acc * 64 + v) div 16 mod 256])"
    and "decode_step c (acc, 4, out) = (acc * 64 + v, 2, out @ [(acc * 64 + v) div 4 mod 256])"
    and "decode_step c (acc, 2, out) = (acc * 64 + v, 0, out @ [(acc * 64 + v) mod 256])"
  using B64_VAL_range [OF assms] assms
  by (simp_all add: decode_step_def or_shift6 low_byte low_byte [of 0, unfolded drop_bit_0 id_apply] drop_bit_eq_div Let_def)

text \<open>What two, three and four characters contribute.\<close>

lemma mod_of_sum: "x = 256 * q + r \<Longrightarrow> 0 \<le> r \<Longrightarrow> r < 256 \<Longrightarrow> x mod 256 = (r :: int)"
  by simp

lemma unpack: "0 \<le> y \<Longrightarrow> y < m \<Longrightarrow> (x * m + y) div m = x" "0 \<le> y \<Longrightarrow> y < m \<Longrightarrow> (x * m + y) mod m = (y :: int)"
  by simp_all

lemma pack_less:
  assumes "x < k" "0 \<le> y" "y < (m :: int)"
  shows "x * m + y < k * m"
proof -
  have "x * m + y < (x + 1) * m" using assms by (simp add: distrib_right)
  also have "\<dots> \<le> k * m" using assms by (intro mult_right_mono) auto
  finally show ?thesis .
qed

lemma pack_nonneg: "0 \<le> x \<Longrightarrow> 0 \<le> y \<Longrightarrow> 0 \<le> m \<Longrightarrow> 0 \<le> x * m + (y :: int)"
  by simp

lemma parts_bound:
  assumes "0 < m" "0 \<le> a" "a < k * (m :: int)"
  shows "0 \<le> a div m" "a div m < k" "0 \<le> a mod m" "a mod m < m"
proof -
  show "a div m < k"
  proof (rule ccontr)
    assume "\<not> a div m < k"
    then have "k * m \<le> a div m * m" using assms(1) by (intro mult_right_mono) auto
    also have "\<dots> \<le> a" using assms(1) div_mult_mod_eq [of a m] pos_mod_sign [of m a] by linarith
    finally show False using assms(3) by simp
  qed
qed (use assms in \<open>simp_all add: pos_imp_zdiv_nonneg_iff\<close>)

lemma byte_4:
  assumes "0 \<le> a" "a < (256 :: int)"
  shows "0 \<le> a div 4" "a div 4 < 64" "0 \<le> a mod 4" "a mod 4 < 4"
  using assms by (intro parts_bound [where k = 64]; simp)+

lemma byte_16:
  assumes "0 \<le> a" "a < (256 :: int)"
  shows "0 \<le> a div 16" "a div 16 < 16" "0 \<le> a mod 16" "a mod 16 < 16"
  using assms by (intro parts_bound [where k = 16]; simp)+

lemma byte_64:
  assumes "0 \<le> a" "a < (256 :: int)"
  shows "0 \<le> a div 64" "a div 64 < 4" "0 \<le> a mod 64" "a mod 64 < 64"
  using assms by (intro parts_bound [where k = 4]; simp)+

lemma sextet_4:
  assumes "0 \<le> a" "a < (64 :: int)"
  shows "0 \<le> a div 4" "a div 4 < 16" "0 \<le> a mod 4" "a mod 4 < 4"
  using assms by (intro parts_bound [where k = 16]; simp)+

lemma sextet_16:
  assumes "0 \<le> a" "a < (64 :: int)"
  shows "0 \<le> a div 16" "a div 16 < 4" "0 \<le> a mod 16" "a mod 16 < 16"
  using assms by (intro parts_bound [where k = 4]; simp)+

lemma regroup_16: "u = q * 16 + r \<Longrightarrow> acc * 1024 + u * 16 = 256 * (acc * 4 + q) + r * (16 :: int)"
  by simp

lemma regroup_4: "u = q * 4 + r \<Longrightarrow> u * 64 = 256 * q + r * (64 :: int)"
  by simp

lemma sextets_2:
  assumes "0 \<le> u" "u < 64" "0 \<le> v" "v < 64"
  shows "((acc * 64 + u) * 64 + v) div 16 mod 256 = u * 4 + v div (16 :: int)"
proof (rule mod_of_sum)
  have "(acc * 64 + u) * 64 + v = v + (acc * 256 + u * 4) * 16" by simp
  then show "((acc * 64 + u) * 64 + v) div 16 = 256 * acc + (u * 4 + v div 16)"
    by (simp only: div_mult_self1)
qed (use assms in presburger)+

lemma sextets_3:
  assumes "0 \<le> u" "u < 64" "0 \<le> v" "v < 64"
  shows "((acc * 64 + u) * 64 + v) div 4 mod 256 = u mod 16 * 16 + v div (4 :: int)"
proof (rule mod_of_sum)
  have "(acc * 64 + u) * 64 + v = v + (acc * 1024 + u * 16) * 4" by simp
  moreover have "acc * 1024 + u * 16 = 256 * (acc * 4 + u div 16) + u mod 16 * 16"
    by (rule regroup_16 [OF div_mult_mod_eq [symmetric]])
  ultimately show "((acc * 64 + u) * 64 + v) div 4 = 256 * (acc * 4 + u div 16) + (u mod 16 * 16 + v div 4)"
    by (simp only: div_mult_self1 add.assoc)
next
  have "0 \<le> u mod 16" "u mod 16 < 16" "0 \<le> v div 4" "v div 4 < 16" using assms by simp_all
  then show "0 \<le> u mod 16 * 16 + v div 4" "u mod 16 * 16 + v div 4 < 256" by linarith+
qed

lemma sextets_4:
  assumes "0 \<le> u" "u < 64" "0 \<le> v" "v < 64"
  shows "((acc * 64 + u) * 64 + v) mod 256 = u mod 4 * 64 + (v :: int)"
proof (rule mod_of_sum)
  have "u * 64 = 256 * (u div 4) + u mod 4 * 64"
    by (rule regroup_4 [OF div_mult_mod_eq [symmetric]])
  then show "(acc * 64 + u) * 64 + v = 256 * (acc * 16 + u div 4) + (u mod 4 * 64 + v)" by simp
next
  have "0 \<le> u mod 4" "u mod 4 < 4" by simp_all
  then show "0 \<le> u mod 4 * 64 + v" "u mod 4 * 64 + v < 256" using assms by linarith+
qed

lemma decode_2:
  assumes "B64_VAL c = Some t" "B64_VAL d = Some u"
  shows "fold decode_step (c # d # s) (acc, 0, out) =
    fold decode_step s ((acc * 64 + t) * 64 + u, 4, out @ [t * 4 + u div 16])"
proof -
  have "((acc * 64 + t) * 64 + u) div 16 mod 256 = t * 4 + u div 16"
    using assms [THEN B64_VAL_range] by (intro sextets_2) auto
  then show ?thesis
    by (simp only: fold_simps decode_step_simps [OF assms(1)] decode_step_simps [OF assms(2)])
qed

lemma decode_3:
  assumes "B64_VAL c = Some t" "B64_VAL d = Some u" "B64_VAL e = Some v"
  shows "fold decode_step (c # d # e # s) (acc, 0, out) =
    fold decode_step s (((acc * 64 + t) * 64 + u) * 64 + v, 2,
      out @ [t * 4 + u div 16, u mod 16 * 16 + v div 4])"
proof -
  have "(((acc * 64 + t) * 64 + u) * 64 + v) div 4 mod 256 = u mod 16 * 16 + v div 4"
    using assms [THEN B64_VAL_range] by (intro sextets_3) auto
  then show ?thesis
    by (simp only: decode_2 [OF assms(1,2)] fold_simps(2) [of decode_step e] decode_step_simps [OF assms(3)]
        append_assoc append_Cons append_Nil)
qed

lemma decode_4:
  assumes "B64_VAL c = Some t" "B64_VAL d = Some u" "B64_VAL e = Some v" "B64_VAL f = Some w"
  shows "fold decode_step (c # d # e # f # s) (acc, 0, out) =
    fold decode_step s ((((acc * 64 + t) * 64 + u) * 64 + v) * 64 + w, 0,
      out @ [t * 4 + u div 16, u mod 16 * 16 + v div 4, v mod 4 * 64 + w])"
proof -
  have "((((acc * 64 + t) * 64 + u) * 64 + v) * 64 + w) mod 256 = v mod 4 * 64 + w"
    using assms [THEN B64_VAL_range] by (intro sextets_4) auto
  then show ?thesis
    by (simp only: decode_3 [OF assms(1-3)] fold_simps(2) [of decode_step f] decode_step_simps [OF assms(4)]
        append_assoc append_Cons append_Nil)
qed

definition leftover :: "int \<Rightarrow> nat \<Rightarrow> bool" where
  "leftover acc nbits = (nbits \<noteq> 0 \<and> acc mod 2 ^ nbits \<noteq> 0)"

text \<open>The sextets of one to three bytes are in range, and determine them.\<close>

lemma sextet_ranges:
  assumes a: "0 \<le> a" "a < 256" and b: "0 \<le> b" "b < (256 :: int)"
  shows "0 \<le> a div 4" "a div 4 < 64" "0 \<le> a mod 4 * 16 + b div 16" "a mod 4 * 16 + b div 16 < 64"
    "0 \<le> a mod 16 * 4 + b div 64" "a mod 16 * 4 + b div 64 < 64" "0 \<le> a mod 64" "a mod 64 < 64"
    "0 \<le> a mod 4 * 16" "a mod 4 * 16 < 64" "0 \<le> a mod 16 * 4" "a mod 16 * 4 < 64"
  using byte_4 [OF a] byte_16 [OF a] byte_64 [OF a] byte_16 [OF b] byte_64 [OF b] by linarith+

lemma sextets_of_bytes:
  assumes a: "0 \<le> a" "a < 256" and b: "0 \<le> b" "b < (256 :: int)"
  shows "a div 4 * 4 + (a mod 4 * 16 + b div 16) div 16 = a"
    "(a mod 16 * 4 + b div 64) mod 4 * 64 + b mod 64 = b"
    "a div 4 * 4 + a mod 4 * 16 div 16 = a"
    "(a mod 4 * 16 + b div 16) mod 16 * 16 + b mod 16 * 4 div 4 = b"
  unfolding unpack(1) [OF byte_16(1,2) [OF b]] unpack(2) [OF byte_64(1,2) [OF b]]
    unpack(2) [OF byte_16(1,2) [OF b]]
  by simp_all

lemma middle_byte:
  assumes b: "0 \<le> b" "b < 256" and c: "0 \<le> c" "c < (256 :: int)"
  shows "(a mod 4 * 16 + b div 16) mod 16 * 16 + (b mod 16 * 4 + c div 64) div 4 = b"
  unfolding unpack(2) [OF byte_16(1,2) [OF b]] unpack(1) [OF byte_64(1,2) [OF c]] by simp

lemma decode_encode_loop:
  "is_bytes bs \<Longrightarrow> \<exists>acc' nbits. fold decode_step (encode bs) (acc, 0, out) = (acc', nbits, out @ bs) \<and>
     \<not> leftover acc' nbits"
proof (induction bs arbitrary: acc out rule: encode.induct)
  case (1 a b c raw)
  then have r: "0 \<le> a" "a < 256" "0 \<le> b" "b < 256" "0 \<le> c" "c < 256" and raw: "is_bytes raw" by auto
  note val = B64_VAL_char [OF sextet_ranges(1,2) [OF r(1-4)]] B64_VAL_char [OF sextet_ranges(3,4) [OF r(1-4)]]
    B64_VAL_char [OF sextet_ranges(5,6) [OF r(3-6)]] B64_VAL_char [OF sextet_ranges(7,8) [OF r(5,6) r(5,6)]]
  show ?case
    using 1(1) [OF raw] 
    unfolding encode.simps decode_4 [OF val] sextets_of_bytes(1) [OF r(1-4)] middle_byte [OF r(3-6)]
      sextets_of_bytes(2) [OF r(3-6)]
    by (metis append_Cons append_Nil append_assoc)
next
  case (2 a b)
  then have r: "0 \<le> a" "a < 256" "0 \<le> b" "b < 256" by auto
  note val = B64_VAL_char [OF sextet_ranges(1,2) [OF r]] B64_VAL_char [OF sextet_ranges(3,4) [OF r]]
    B64_VAL_char [OF sextet_ranges(11,12) [OF r(3,4) r(3,4)]]
  show ?case
    unfolding encode.simps decode_3 [OF val] sextets_of_bytes(1,4) [OF r] by (simp add: leftover_def mult.commute)
next
  case (3 a)
  then have r: "0 \<le> a" "a < 256" by auto
  note val = B64_VAL_char [OF sextet_ranges(1,2) [OF r r]] B64_VAL_char [OF sextet_ranges(9,10) [OF r r]]
  show ?case
    unfolding encode.simps decode_2 [OF val] sextets_of_bytes(3) [OF r r] by (simp add: leftover_def)
next
  case 4
  show ?case by (simp add: leftover_def)
qed

text \<open>Conversely, without leftover bits the text is the encoding of what was decoded.\<close>

fun quads :: "pystr \<Rightarrow> bool" where
  "quads (c # d # e # f # s) = quads s"
| "quads s = True"

lemma bytes_of_sextets:
  assumes t: "0 \<le> t" "t < 64" and u: "0 \<le> u" "u < 64" and v: "0 \<le> v" "v < 64" and w: "0 \<le> w" "w < (64 :: int)"
  shows "(t * 4 + u div 16) div 4 = t"
    "(t * 4 + u div 16) mod 4 * 16 + (u mod 16 * 16 + v div 4) div 16 = u"
    "(u mod 16 * 16 + v div 4) mod 16 * 4 + (v mod 4 * 64 + w) div 64 = v"
    "(v mod 4 * 64 + w) mod 64 = w"
    "(t * 4 + u div 16) mod 4 * 16 = u \<longleftrightarrow> u mod 16 = 0"
    "(u mod 16 * 16 + v div 4) mod 16 * 4 = v \<longleftrightarrow> v mod 4 = 0"
    "is_bytes [t * 4 + u div 16, u mod 16 * 16 + v div 4, v mod 4 * 64 + w]"
proof -
  note up = unpack(1) [OF sextet_16(1,2) [OF u]] unpack(2) [OF sextet_16(1,2) [OF u]]
    unpack(1) [OF sextet_4(1,2) [OF v]] unpack(2) [OF sextet_4(1,2) [OF v]] unpack [OF w]
  show "(t * 4 + u div 16) div 4 = t"
    "(t * 4 + u div 16) mod 4 * 16 + (u mod 16 * 16 + v div 4) div 16 = u"
    "(u mod 16 * 16 + v div 4) mod 16 * 4 + (v mod 4 * 64 + w) div 64 = v"
    "(v mod 4 * 64 + w) mod 64 = w"
    unfolding up by simp_all
  show "(t * 4 + u div 16) mod 4 * 16 = u \<longleftrightarrow> u mod 16 = 0"
    "(u mod 16 * 16 + v div 4) mod 16 * 4 = v \<longleftrightarrow> v mod 4 = 0"
    unfolding up using div_mult_mod_eq [of u 16] div_mult_mod_eq [of v 4] by linarith+
  show "is_bytes [t * 4 + u div 16, u mod 16 * 16 + v div 4, v mod 4 * 64 + w]"
    unfolding is_bytes_simps
    using sextet_16 [OF u] sextet_4 [OF v] t w by (intro conjI) (linarith+, simp)
qed

text \<open>The last character of a canonical text carries only the bits of the last byte.\<close>

lemma last_char:
  assumes c: "B64_VAL c = Some v" and v: "v = q + w" and q: "0 \<le> q" "0 \<le> w"
  shows "c = b64_char q \<longleftrightarrow> w = 0"
proof -
  have r: "v < 64" "c = b64_char v" using B64_VAL_range [OF c] by blast+
  have "q < 64" using r(1) q(2) unfolding v by linarith
  with q(1) have b: "B64_VAL (b64_char q) = Some q" by (rule B64_VAL_char)
  have "v = q" if "c = b64_char q" using b c unfolding that by (simp only: option.inject)
  then show ?thesis using r(2) v by (metis add.right_neutral add_left_cancel)
qed

lemma power4_16: "(2 :: int) ^ 4 = 16" and power2_4: "(2 :: int) ^ 2 = 4"
  by simp_all

lemma encode_decode_loop:
  "\<forall>c \<in> set s. B64_VAL c \<noteq> None \<Longrightarrow> length s mod 4 \<noteq> 1 \<Longrightarrow>
   \<exists>acc' nbits bs. fold decode_step s (acc, 0, out) = (acc', nbits, out @ bs) \<and> is_bytes bs \<and>
     (\<not> leftover acc' nbits \<longleftrightarrow> s = encode bs)"
proof (induction s arbitrary: acc out rule: quads.induct [case_names Four Empty One Two Three])
  case (Four c d e f s)
  from Four(2) obtain t u v w
    where val: "B64_VAL c = Some t" "B64_VAL d = Some u" "B64_VAL e = Some v" "B64_VAL f = Some w"
    by auto
  note r = val [THEN B64_VAL_range]
  let ?b = "[t * 4 + u div 16, u mod 16 * 16 + v div 4, v mod 4 * 64 + w]"
  have "length s mod 4 \<noteq> 1" "\<forall>c \<in> set s. B64_VAL c \<noteq> None" using Four(3,2) by simp_all
  then obtain acc' nbits bs where IH: "fold decode_step s ((((acc * 64 + t) * 64 + u) * 64 + v) * 64 + w, 0, out @ ?b)
      = (acc', nbits, (out @ ?b) @ bs)" "is_bytes bs" "\<not> leftover acc' nbits \<longleftrightarrow> s = encode bs"
    using Four(1) [of "(((acc * 64 + t) * 64 + u) * 64 + v) * 64 + w" "out @ ?b"] by blast
  have "0 \<le> t" "t < 64" "0 \<le> u" "u < 64" "0 \<le> v" "v < 64" "0 \<le> w" "w < 64" using r by blast+
  note bs = bytes_of_sextets [OF this]
  have "encode (?b @ bs) = c # d # e # f # encode bs"
    using r by (simp only: append_Cons append_Nil encode.simps bs)
  moreover have "is_bytes (?b @ bs)"
    using bs(7) IH(2) unfolding is_bytes_simps(3) by blast
  ultimately show ?case
    using IH(1,3) unfolding decode_4 [OF val] append_assoc
    by (intro exI [of _ acc'] exI [of _ nbits] exI [of _ "?b @ bs"]) (simp only: list.inject simp_thms)
next
  case Empty
  show ?case by (simp add: leftover_def)
next
  case (One c)
  then show ?case by simp
next
  case (Two c d)
  from Two(1) obtain t u where val: "B64_VAL c = Some t" "B64_VAL d = Some u" by auto
  note r = val [THEN B64_VAL_range]
  have *: "0 \<le> t" "t < 64" "0 \<le> u" "u < 64" "0 \<le> (0 :: int)" "(0 :: int) < 64" using r by simp_all
  note bs = bytes_of_sextets [OF *(1-6,5,6)]
  let ?acc = "(acc * 64 + t) * 64 + u"
  have "?acc = (acc * 256 + t * 4) * 16 + u" by simp
  then have "?acc mod 2 ^ 4 = u mod 16" by (simp only: power4_16 mod_mult_self3)
  then have "\<not> leftover ?acc 4 \<longleftrightarrow> [c, d] = encode [t * 4 + u div 16]"
    using last_char [OF val(2) div_mult_mod_eq [symmetric], of 16] unpack(2) [OF sextet_16(1,2) [OF *(3,4)], of t]
      sextet_16(1) [OF *(3,4)] r bs(1)
    by (simp only: leftover_def encode.simps list.inject) simp
  moreover have "is_bytes [t * 4 + u div 16]" using bs(7) by simp
  ultimately show ?case unfolding decode_2 [OF val] fold_simps(1) by blast
next
  case (Three c d e)
  from Three(1) obtain t u v where val: "B64_VAL c = Some t" "B64_VAL d = Some u" "B64_VAL e = Some v" by auto
  note r = val [THEN B64_VAL_range]
  have *: "0 \<le> t" "t < 64" "0 \<le> u" "u < 64" "0 \<le> v" "v < 64" "0 \<le> (0 :: int)" "(0 :: int) < 64" using r by simp_all
  note bs = bytes_of_sextets [OF *]
  let ?acc = "((acc * 64 + t) * 64 + u) * 64 + v"
  have "?acc = ((acc * 64 + t) * 64 + u) * 16 * 4 + v" by simp
  then have "?acc mod 2 ^ 2 = v mod 4" by (simp only: power2_4 mod_mult_self3)
  then have "\<not> leftover ?acc 2 \<longleftrightarrow> [c, d, e] = encode [t * 4 + u div 16, u mod 16 * 16 + v div 4]"
    using last_char [OF val(3) div_mult_mod_eq [symmetric], of 4] unpack(2) [OF sextet_4(1,2) [OF *(5,6)], of "u mod 16"]
      sextet_4(1) [OF *(5,6)] r bs(1,2)
    by (simp only: leftover_def encode.simps list.inject) simp
  moreover have "is_bytes [t * 4 + u div 16, u mod 16 * 16 + v div 4]" using bs(7) by simp
  ultimately show ?case unfolding decode_3 [OF val] fold_simps(1) by blast
qed

lemma b64_char_in: "0 \<le> v \<Longrightarrow> v < 64 \<Longrightarrow> c = b64_char v \<Longrightarrow> B64_VAL c \<noteq> None"
  by (simp add: B64_VAL_char)

lemma encode_chars: "is_bytes bs \<Longrightarrow> c \<in> set (encode bs) \<Longrightarrow> B64_VAL c \<noteq> None"
proof (induction bs rule: encode.induct)
  case (1 x y z raw)
  have r: "0 \<le> x" "x < 256" "0 \<le> y" "y < 256" "0 \<le> z" "z < 256" using 1(2) by simp_all
  from 1(3) consider "c = b64_char (x div 4)" | "c = b64_char (x mod 4 * 16 + y div 16)"
    | "c = b64_char (y mod 16 * 4 + z div 64)" | "c = b64_char (z mod 64)" | "c \<in> set (encode raw)"
    unfolding encode.simps list.set insert_iff by blast
  then show ?case
    using b64_char_in [OF sextet_ranges(1,2) [OF r(1-4)]] b64_char_in [OF sextet_ranges(3,4) [OF r(1-4)]]
      b64_char_in [OF sextet_ranges(5,6) [OF r(3-6)]] b64_char_in [OF sextet_ranges(7,8) [OF r(5,6) r(5,6)]]
      1(1,2) unfolding is_bytes_simps by cases blast+
next
  case (2 x y)
  have r: "0 \<le> x" "x < 256" "0 \<le> y" "y < 256" using 2(1) by simp_all
  from 2(2) show ?case
    using b64_char_in [OF sextet_ranges(1,2) [OF r]] b64_char_in [OF sextet_ranges(3,4) [OF r]]
      b64_char_in [OF sextet_ranges(11,12) [OF r(3,4) r(3,4)]]
    unfolding encode.simps list.set insert_iff by blast
next
  case (3 x)
  have r: "0 \<le> x" "x < 256" using 3(1) by simp_all
  from 3(2) show ?case
    using b64_char_in [OF sextet_ranges(1,2) [OF r r]] b64_char_in [OF sextet_ranges(9,10) [OF r r]]
    unfolding encode.simps list.set insert_iff by blast
qed simp

lemma length_encode: "length (encode bs) = (4 * length bs + 2) div 3"
  by (induction bs rule: encode.induct) simp_all

lemma length_encode_mod: "length (encode bs) mod 4 \<noteq> 1"
proof (induction bs rule: encode.induct)
  case (1 a b c raw)
  then show ?case by (simp only: encode.simps list.size) simp
qed simp_all

lemma encode_Nil_iff [simp]: "encode bs = [] \<longleftrightarrow> bs = []"
  by (cases bs rule: encode.cases) auto

lemma encode_inject:
  assumes "is_bytes bs" "is_bytes cs" "encode bs = encode cs"
  shows "bs = cs"
proof -
  obtain a n where "fold decode_step (encode bs) (0, 0, []) = (a, n, bs)"
    using decode_encode_loop [OF assms(1), of 0 "[]"] unfolding append_Nil by blast
  moreover obtain a' n' where "fold decode_step (encode cs) (0, 0, []) = (a', n', cs)"
    using decode_encode_loop [OF assms(2), of 0 "[]"] unfolding append_Nil by blast
  ultimately show ?thesis unfolding assms(3) by (simp only: prod.inject)
qed

text \<open>What \<open>decode_strict\<close> does with the encoding of a byte string, and with anything else.\<close>

lemma decode_strict_encode:
  assumes "is_bytes bs" "bs \<noteq> []"
  shows "decode_strict (JStr (encode bs)) n cat layer =
    (if length bs = n then Inr bs else Inl (FederationError layer cat))"
proof -
  obtain acc nbits where loop: "fold decode_step (encode bs) (0, 0, []) = (acc, nbits, bs)" "\<not> leftover acc nbits"
    using decode_encode_loop [OF assms(1), of 0 "[]"] unfolding append_Nil by blast
  have "B64_RE (encode bs)" using assms by (auto simp: B64_RE_iff dest: encode_chars)
  then show ?thesis
    using loop length_encode_mod [of bs] by (auto simp: decode_strict_def trailing_bits leftover_def)
qed

lemma decode_strict_other:
  assumes "\<And>bs. is_bytes bs \<Longrightarrow> bs \<noteq> [] \<Longrightarrow> x \<noteq> JStr (encode bs)"
  shows "decode_strict x n cat layer = Inl (FederationError layer ''non_canonical_base64url'')"
proof (cases "\<exists>s. x = JStr s \<and> B64_RE s \<and> length s mod 4 \<noteq> 1")
  case True
  then obtain s where s: "x = JStr s" "B64_RE s" "length s mod 4 \<noteq> 1" by blast
  obtain acc nbits bs where loop: "fold decode_step s (0, 0, []) = (acc, nbits, bs)" "is_bytes bs"
      "\<not> leftover acc nbits \<longleftrightarrow> s = encode bs"
    using encode_decode_loop [of s 0 "[]"] s by (auto simp: B64_RE_iff)
  have "s \<noteq> encode bs" using assms [OF loop(2)] s by (auto simp: B64_RE_def)
  with loop s show ?thesis by (simp add: decode_strict_def trailing_bits leftover_def)
next
  case False
  then show ?thesis by (cases x) (auto simp: decode_strict_def Let_def)
qed

text \<open>
  C26: \<open>decode_strict\<close> accepts exactly the canonical encodings.  It returns the bytes \<open>bs\<close> for a
  value if and only if the value is the string that \<open>encode\<close> produces for \<open>bs\<close>, and \<open>bs\<close> has the
  expected, non-zero length; and the order of its checks is canonicality before length: the
  length category is reported only for the encoding of a byte string of another length, and
  everything else, whatever its length, is \<open>non_canonical_base64url\<close>.
\<close>

theorem decode_strict_exact:
  "(decode_strict x n cat layer = Inr bs \<longleftrightarrow>
      x = JStr (encode bs) \<and> is_bytes bs \<and> bs \<noteq> [] \<and> length bs = n) \<and>
   (cat \<noteq> ''non_canonical_base64url'' \<longrightarrow>
      decode_strict x n cat layer = Inl (FederationError layer cat) \<longleftrightarrow>
      (\<exists>cs. x = JStr (encode cs) \<and> is_bytes cs \<and> cs \<noteq> [] \<and> length cs \<noteq> n)) \<and>
   decode_strict x n cat layer \<in>
     {Inl (FederationError layer ''non_canonical_base64url''), Inl (FederationError layer cat)} \<union> range Inr"
proof (cases "\<exists>cs. is_bytes cs \<and> cs \<noteq> [] \<and> x = JStr (encode cs)")
  case True
  then obtain cs where "is_bytes cs" "cs \<noteq> []" "x = JStr (encode cs)" by blast
  then show ?thesis by (auto simp: decode_strict_encode dest: encode_inject)
next
  case False
  then have "decode_strict x n cat layer = Inl (FederationError layer ''non_canonical_base64url'')"
    by (intro decode_strict_other) blast
  with False show ?thesis by auto
qed

theorem decode_strict_exact_witness:
  "decode_strict (JStr (lit ''AAE'')) 3 ''signature_length'' ''schema'' =
     Inl (FederationError ''schema'' ''signature_length'')"
proof -
  have "lit ''AAE'' = encode [0, 1]" by (simp add: b64_char_def B64URL_numerals lit_def)
  then have "\<exists>cs. JStr (lit ''AAE'') = JStr (encode cs) \<and> is_bytes cs \<and> cs \<noteq> [] \<and> length cs \<noteq> 3"
    by (intro exI [of _ "[0, 1]"]) simp
  then show ?thesis
    using decode_strict_exact [of "JStr (lit ''AAE'')" 3 "''signature_length''" "''schema''"] by simp
qed

end
