(* ===== verification/Json_Text.thy ===== *)
theory Json_Text
  imports Base64url
begin

text \<open>
  The parts of Python's standard library that the federation boundary is built on:
  \<open>bytes.decode("utf-8")\<close>, \<open>json.loads\<close> with the hooks that \<open>federation/canonical.py\<close> installs,
  and \<open>json.dumps(ensure_ascii=False, separators=(",", ":"), sort_keys=True)\<close>.
  The reader is split into \<open>scanstring\<close>, a tokenizer that stops at the first character that
  starts no token, and a stack machine over the tokens; the machine raises at the position where
  the library's recursive scanner raises, so that the first error of a text is the same.
\<close>

section \<open>UTF-8 decoding\<close>

definition scalar :: "int \<Rightarrow> bool" where
  "scalar c = (0 \<le> c \<and> c < 55296 \<or> 57344 \<le> c \<and> c < 1114112)"

definition cont :: "int \<Rightarrow> bool" where
  "cont b = (128 \<le> b \<and> b < 192)"

fun utf8_decode :: "bytes \<Rightarrow> pystr option" where
  "utf8_decode [] = Some []"
| "utf8_decode (b # bs) =
     (if b < 128 then map_option (Cons b) (utf8_decode bs)
      else if 194 \<le> b \<and> b < 224 then
        (case bs of
           c # bs' \<Rightarrow>
             if cont c then map_option (Cons ((b - 192) * 64 + (c - 128))) (utf8_decode bs') else None
         | _ \<Rightarrow> None)
      else if 224 \<le> b \<and> b < 240 then
        (case bs of
           c # d # bs' \<Rightarrow>
             if cont c \<and> cont d \<and> (b = 224 \<longrightarrow> 160 \<le> c) \<and> (b = 237 \<longrightarrow> c < 160)
             then map_option (Cons (((b - 224) * 64 + (c - 128)) * 64 + (d - 128))) (utf8_decode bs') else None
         | _ \<Rightarrow> None)
      else if 240 \<le> b \<and> b < 245 then
        (case bs of
           c # d # e # bs' \<Rightarrow>
             if cont c \<and> cont d \<and> cont e \<and> (b = 240 \<longrightarrow> 144 \<le> c) \<and> (b = 244 \<longrightarrow> c < 144)
             then map_option (Cons ((((b - 240) * 64 + (c - 128)) * 64 + (d - 128)) * 64 + (e - 128))) (utf8_decode bs')
             else None
         | _ \<Rightarrow> None)
      else None)"

section \<open>Strings\<close>

definition hex_value :: "int \<Rightarrow> int option" where
  "hex_value c =
     (if 48 \<le> c \<and> c \<le> 57 then Some (c - 48)
      else if 97 \<le> c \<and> c \<le> 102 then Some (c - 87)
      else if 65 \<le> c \<and> c \<le> 70 then Some (c - 55) else None)"

definition hex4 :: "int \<Rightarrow> int \<Rightarrow> int \<Rightarrow> int \<Rightarrow> int option" where
  "hex4 a b c d =
     (case (hex_value a, hex_value b, hex_value c, hex_value d) of
        (Some w, Some x, Some y, Some z) \<Rightarrow> Some (((w * 16 + x) * 16 + y) * 16 + z)
      | _ \<Rightarrow> None)"

definition is_high :: "int \<Rightarrow> bool" where "is_high c = (55296 \<le> c \<and> c < 56320)"
definition is_low :: "int \<Rightarrow> bool" where "is_low c = (56320 \<le> c \<and> c < 57344)"

definition simple_escape :: "int \<Rightarrow> int option" where
  "simple_escape e = map_of [(34, 34), (92, 92), (47, 47), (98, 8), (102, 12), (110, 10), (114, 13), (116, 9)] e"

text \<open>Four hexadecimal digits at the start of a text.\<close>

definition hex4_at :: "pystr \<Rightarrow> (int \<times> pystr) option" where
  "hex4_at r =
     (case r of h1 # h2 # h3 # h4 # t \<Rightarrow> map_option (\<lambda>v. (v, t)) (hex4 h1 h2 h3 h4) | _ \<Rightarrow> None)"

text \<open>
  What follows \<open>\u\<close>: an escaped high surrogate is joined with an escaped low one behind it; any
  other surrogate is kept as it is.
\<close>

definition scan_unicode :: "pystr \<Rightarrow> (int \<times> pystr) option" where
  "scan_unicode r =
     (case hex4_at r of
        None \<Rightarrow> None
      | Some (v, t) \<Rightarrow>
          if is_high v \<and> take 2 t = [92, 117] then
            (case hex4_at (drop 2 t) of
               None \<Rightarrow> None
             | Some (w, t') \<Rightarrow>
                 if is_low w then Some (65536 + (v - 55296) * 1024 + (w - 56320), t') else Some (v, t))
          else Some (v, t))"

definition scan_escape :: "pystr \<Rightarrow> (int \<times> pystr) option" where
  "scan_escape s =
     (case s of
        [] \<Rightarrow> None
      | e # r \<Rightarrow> if e = 117 then scan_unicode r else map_option (\<lambda>v. (v, r)) (simple_escape e))"

lemma hex4_at_shorter: "hex4_at r = Some (v, t) \<Longrightarrow> length t < length r"
  by (auto simp: hex4_at_def split: list.splits)

lemma scan_escape_shorter: "scan_escape s = Some (v, t) \<Longrightarrow> length t < length s"
  by (auto simp: scan_escape_def scan_unicode_def split: list.splits if_splits option.splits
      dest!: hex4_at_shorter)

text \<open>
  \<open>scanstring(s, end, strict=True)\<close>: the string up to its closing quote and the rest of the
  text; \<open>None\<close> is \<open>JSONDecodeError\<close>.
\<close>

function scanstring :: "pystr \<Rightarrow> (pystr \<times> pystr) option" where
  "scanstring [] = None"
| "scanstring (c # s) =
     (if c = 34 then Some ([], s)
      else if c = 92 then
        (case scan_escape s of
           None \<Rightarrow> None
         | Some (v, r) \<Rightarrow> map_option (apfst (Cons v)) (scanstring r))
      else if c < 32 then None
      else map_option (apfst (Cons c)) (scanstring s))"
  by pat_completeness auto

termination scanstring
  by (relation "measure length") (auto dest: scan_escape_shorter)

lemma scanstring_shorter: "scanstring s = Some (x, r) \<Longrightarrow> length r < length s"
proof (induction s arbitrary: x rule: scanstring.induct)
  case 1
  then show ?case by simp
next
  case (2 c s)
  then show ?case by (fastforce split: if_splits option.splits dest: scan_escape_shorter)
qed

section \<open>Tokens\<close>

datatype token =
    LBrace | RBrace | LBrack | RBrack | Colon | Comma
  | Str pystr | Null | TrueT | FalseT | Number | Constant | Bad

definition is_ws :: "int \<Rightarrow> bool" where
  "is_ws c = (c = 32 \<or> c = 9 \<or> c = 10 \<or> c = 13)"

definition literals :: "(pystr \<times> token) list" where
  "literals = [(lit ''null'', Null), (lit ''true'', TrueT), (lit ''false'', FalseT),
     (lit ''NaN'', Constant), (lit ''Infinity'', Constant), (lit ''-Infinity'', Constant)]"

definition number_start :: "pystr \<Rightarrow> bool" where
  "number_start s = (case s of [] \<Rightarrow> False
     | c # r \<Rightarrow> is_digit c \<or> c = 45 \<and> (case r of [] \<Rightarrow> False | d # _ \<Rightarrow> is_digit d))"

definition punctuation :: "int \<Rightarrow> token option" where
  "punctuation c =
     map_of [(123, LBrace), (125, RBrace), (91, LBrack), (93, RBrack), (58, Colon), (44, Comma)] c"

text \<open>
  The rest of a text after a number or an unexpected character is never looked at: the machine
  stops there.
\<close>

function tokenize :: "pystr \<Rightarrow> token list" where
  "tokenize [] = []"
| "tokenize (c # s) =
     (if is_ws c then tokenize s
      else case punctuation c of
        Some t \<Rightarrow> t # tokenize s
      | None \<Rightarrow>
          if c = 34 then
            (case scanstring s of None \<Rightarrow> [Bad] | Some (x, r) \<Rightarrow> Str x # tokenize r)
          else
            (case find (\<lambda>(w, t). prefix w (c # s)) literals of
               Some (w, t) \<Rightarrow> t # tokenize (drop (length w - 1) s)
             | None \<Rightarrow> if number_start (c # s) then [Number] else [Bad]))"
  by pat_completeness auto

termination tokenize
  by (relation "measure length") (auto dest: scanstring_shorter)

section \<open>The reader\<close>

datatype json_exn = Fed_Error fed_error | JSONDecodeError

text \<open>An open container: an object with its pairs so far and the key that awaits its value, or an array.\<close>

datatype frame = In_Obj "(pystr \<times> json) list" pystr | In_Arr "json list"

text \<open>What the scanner expects next.\<close>

datatype mode =
    Value | First_Elem | First_Key | Next_Key "(pystr \<times> json) list"
  | Want_Colon "(pystr \<times> json) list" pystr | After json

text \<open>\<open>_no_dupes\<close>, the \<open>object_pairs_hook\<close>.\<close>

fun no_dupes :: "(pystr \<times> json) list \<Rightarrow> (pystr \<times> json) list \<Rightarrow> fed_error + json" where
  "no_dupes obj [] = Inr (JObj obj)"
| "no_dupes obj ((key, v) # pairs) =
     (if key \<in> fst ` set obj then Inl (FederationError ''parse'' ''duplicate_key'')
      else no_dupes (obj @ [(key, v)]) pairs)"

text \<open>\<open>_reject_number\<close> and \<open>_reject_constant\<close>, the number hooks.\<close>

definition reject_number :: "json_exn + 'a" where
  "reject_number = Inl (Fed_Error (FederationError ''parse/schema'' ''value_domain''))"

definition start_value :: "token \<Rightarrow> frame list \<Rightarrow> json_exn + frame list \<times> mode" where
  "start_value t fs =
     (case t of
        Str s \<Rightarrow> Inr (fs, After (JStr s))
      | Null \<Rightarrow> Inr (fs, After JNull)
      | TrueT \<Rightarrow> Inr (fs, After (JBool True))
      | FalseT \<Rightarrow> Inr (fs, After (JBool False))
      | LBrace \<Rightarrow> Inr (fs, First_Key)
      | LBrack \<Rightarrow> Inr (fs, First_Elem)
      | Number \<Rightarrow> reject_number
      | Constant \<Rightarrow> reject_number
      | _ \<Rightarrow> Inl JSONDecodeError)"

definition start_key :: "token \<Rightarrow> (pystr \<times> json) list \<Rightarrow> frame list \<Rightarrow> json_exn + frame list \<times> mode" where
  "start_key t ps fs = (case t of Str k \<Rightarrow> Inr (fs, Want_Colon ps k) | _ \<Rightarrow> Inl JSONDecodeError)"

definition after_value :: "token \<Rightarrow> json \<Rightarrow> frame list \<Rightarrow> json_exn + frame list \<times> mode" where
  "after_value t v fs =
     (case fs of
        [] \<Rightarrow> Inl JSONDecodeError
      | In_Obj ps k # fs' \<Rightarrow>
          if t = Comma then Inr (fs', Next_Key ((k, v) # ps))
          else if t = RBrace then
            (case no_dupes [] (rev ((k, v) # ps)) of
               Inl e \<Rightarrow> Inl (Fed_Error e)
             | Inr obj \<Rightarrow> Inr (fs', After obj))
          else Inl JSONDecodeError
      | In_Arr xs # fs' \<Rightarrow>
          if t = Comma then Inr (In_Arr (v # xs) # fs', Value)
          else if t = RBrack then Inr (fs', After (JArr (rev (v # xs))))
          else Inl JSONDecodeError)"

fun read_token :: "token \<Rightarrow> frame list \<times> mode \<Rightarrow> json_exn + frame list \<times> mode" where
  "read_token t (fs, Value) = start_value t fs"
| "read_token t (fs, First_Elem) =
     (if t = RBrack then Inr (fs, After (JArr [])) else start_value t (In_Arr [] # fs))"
| "read_token t (fs, First_Key) = (if t = RBrace then Inr (fs, After (JObj [])) else start_key t [] fs)"
| "read_token t (fs, Next_Key ps) = start_key t ps fs"
| "read_token t (fs, Want_Colon ps k) = (if t = Colon then Inr (In_Obj ps k # fs, Value) else Inl JSONDecodeError)"
| "read_token t (fs, After v) = after_value t v fs"

fun read_tokens :: "frame list \<times> mode \<Rightarrow> token list \<Rightarrow> json_exn + json" where
  "read_tokens st [] = (case st of ([], After v) \<Rightarrow> Inr v | _ \<Rightarrow> Inl JSONDecodeError)"
| "read_tokens st (t # ts) = (case read_token t st of Inl e \<Rightarrow> Inl e | Inr st' \<Rightarrow> read_tokens st' ts)"

definition loads :: "pystr \<Rightarrow> json_exn + json" where
  "loads s = read_tokens ([], Value) (tokenize s)"

section \<open>The writer\<close>

definition escape_char :: "int \<Rightarrow> pystr" where
  "escape_char c =
     (if c = 34 then [92, 34] else if c = 92 then [92, 92]
      else if c = 10 then [92, 110] else if c = 13 then [92, 114] else if c = 9 then [92, 116]
      else if c = 12 then [92, 102] else if c = 8 then [92, 98]
      else if c < 32 then [92, 117, 48, 48, hex_digit (c div 16), hex_digit (c mod 16)]
      else [c])"

definition quote :: "pystr \<Rightarrow> pystr" where
  "quote s = 34 # concat (map escape_char s) @ [34]"

fun dump :: "json \<Rightarrow> pystr" and dump_list :: "json list \<Rightarrow> pystr" and dump_items :: "(pystr \<times> json) list \<Rightarrow> pystr" where
  "dump JNull = lit ''null''"
| "dump (JBool b) = (if b then lit ''true'' else lit ''false'')"
| "dump (JInt i) = dec_int i"
| "dump (JStr s) = quote s"
| "dump (JArr xs) = 91 # dump_list xs @ [93]"
| "dump (JObj kvs) = 123 # dump_items kvs @ [125]"
| "dump_list [] = []"
| "dump_list [x] = dump x"
| "dump_list (x # xs) = dump x @ 44 # dump_list xs"
| "dump_items [] = []"
| "dump_items [(k, v)] = quote k @ 58 # dump v"
| "dump_items ((k, v) # kvs) = quote k @ 58 # dump v @ 44 # dump_items kvs"

definition dumps :: "json \<Rightarrow> pystr" where
  "dumps obj = dump (sort_keys obj)"

section \<open>UTF-8 round trips\<close>

lemma utf8_decode_char:
  assumes "scalar c"
  shows "utf8_decode (utf8_char c @ bs) = map_option (Cons c) (utf8_decode bs)"
proof -
  have "0 \<le> c \<and> c < 128 \<or> 128 \<le> c \<and> c < 2048 \<or>
      2048 \<le> c \<and> c < 65536 \<and> (c < 55296 \<or> 57344 \<le> c) \<or> 65536 \<le> c \<and> c < 1114112"
    using assms unfolding scalar_def by linarith
  then consider "0 \<le> c" "c < 128" | "128 \<le> c" "c < 2048" | "2048 \<le> c" "c < 65536" "c < 55296 \<or> 57344 \<le> c"
    | "65536 \<le> c" "c < 1114112"
    by blast
  then show ?thesis
  proof cases
    case 1
    then show ?thesis by (simp add: utf8_char_def)
  next
    case 2
    have "2 \<le> c div 64" "c div 64 < 32" using 2 by (simp_all add: div_int_pos_iff)
    moreover have "0 \<le> c mod 64" "c mod 64 < 64" by simp_all
    ultimately show ?thesis using 2 by (simp add: utf8_char_def cont_def)
  next
    case 3
    define a b d where "a = c div 4096" and "b = c div 64 mod 64" and "d = c mod 64"
    have r: "0 \<le> a" "a < 16" "0 \<le> b" "b < 64" "0 \<le> d" "d < 64" using 3 by (simp_all add: a_def b_def d_def)
    have "c div 64 div 64 = a" by (simp add: a_def flip: zdiv_zmult2_eq)
    then have "c div 64 = a * 64 + b" using div_mult_mod_eq [of "c div 64" 64] by (simp only: b_def)
    then have c: "c = (a * 64 + b) * 64 + d" using div_mult_mod_eq [of c 64] by (simp add: d_def)
    have "32 \<le> b" if "a = 0" using 3 r that c by auto
    moreover have "b < 32" if "a = 13" using 3 r that c by auto
    ultimately have "utf8_decode ([224 + a, 128 + b, 128 + d] @ bs) =
        map_option (Cons ((a * 64 + b) * 64 + d)) (utf8_decode bs)"
      using r by (simp add: cont_def)
    moreover have "utf8_char c = [224 + a, 128 + b, 128 + d]"
      using 3 by (simp add: utf8_char_def a_def b_def d_def)
    ultimately show ?thesis by (simp only: c [symmetric])
  next
    case 4
    define a b d e where "a = c div 262144" and "b = c div 4096 mod 64" and "d = c div 64 mod 64" and "e = c mod 64"
    have r: "0 \<le> a" "a < 5" "0 \<le> b" "b < 64" "0 \<le> d" "d < 64" "0 \<le> e" "e < 64"
      using 4 by (simp_all add: a_def b_def d_def e_def)
    have "c div 4096 div 64 = a" "c div 64 div 64 = c div 4096" by (simp_all add: a_def flip: zdiv_zmult2_eq)
    then have "c div 4096 = a * 64 + b" "c div 64 = c div 4096 * 64 + d"
      using div_mult_mod_eq [of "c div 4096" 64] div_mult_mod_eq [of "c div 64" 64] by (simp_all only: b_def d_def)
    then have c: "c = ((a * 64 + b) * 64 + d) * 64 + e" using div_mult_mod_eq [of c 64] by (simp add: e_def)
    have "16 \<le> b" if "a = 0" using 4 r that c by auto
    moreover have "b < 16" if "a = 4" using 4 r that c by auto
    ultimately have "utf8_decode ([240 + a, 128 + b, 128 + d, 128 + e] @ bs) =
        map_option (Cons (((a * 64 + b) * 64 + d) * 64 + e)) (utf8_decode bs)"
      using r by (simp add: cont_def)
    moreover have "utf8_char c = [240 + a, 128 + b, 128 + d, 128 + e]"
      using 4 by (simp add: utf8_char_def a_def b_def d_def e_def)
    ultimately show ?thesis by (simp only: c [symmetric])
  qed
qed

lemma utf8_simps [simp]: "utf8 [] = []" "utf8 (c # s) = utf8_char c @ utf8 s"
  by (simp_all add: utf8_def)

lemma utf8_append: "utf8 (s @ t) = utf8 s @ utf8 t"
  by (simp add: utf8_def)

lemma utf8_decode_utf8: "list_all scalar s \<Longrightarrow> utf8_decode (utf8 s) = Some s"
  by (induction s) (simp_all add: utf8_decode_char)

section \<open>String round trip\<close>

lemma hex_value_digit: "0 \<le> n \<Longrightarrow> n < 16 \<Longrightarrow> hex_value (hex_digit n) = Some n"
  by (auto simp: hex_value_def hex_digit_def)

lemma scanstring_char:
  assumes "0 \<le> c"
  shows "scanstring (escape_char c @ r) = map_option (apfst (Cons c)) (scanstring r)"
proof (cases "c < 32 \<and> c \<notin> {8, 9, 10, 12, 13}")
  case True
  have "hex_value (hex_digit (c div 16)) = Some (c div 16)" "hex_value (hex_digit (c mod 16)) = Some (c mod 16)"
    using assms True by (auto intro!: hex_value_digit)
  moreover have "hex_value 48 = Some 0" by (simp add: hex_value_def)
  ultimately have "hex4_at (48 # 48 # hex_digit (c div 16) # hex_digit (c mod 16) # r) = Some (c, r)"
    by (simp add: hex4_at_def hex4_def)
  then show ?thesis
    using True assms by (simp add: escape_char_def scan_escape_def scan_unicode_def is_high_def)
next
  case False
  then show ?thesis
    using assms by (auto simp: escape_char_def scan_escape_def simple_escape_def)
qed

lemma scanstring_quote:
  "list_all (\<lambda>c. 0 \<le> c) s \<Longrightarrow> scanstring (concat (map escape_char s) @ 34 # r) = Some (s, r)"
  by (induction s) (simp_all add: scanstring_char)

lemma tokenize_quote: "list_all (\<lambda>c. 0 \<le> c) s \<Longrightarrow> tokenize (quote s @ r) = Str s # tokenize r"
  by (simp add: quote_def scanstring_quote is_ws_def punctuation_def)

lemma tokenize_punct:
  "tokenize (123 # s) = LBrace # tokenize s" "tokenize (125 # s) = RBrace # tokenize s"
  "tokenize (58 # s) = Colon # tokenize s" "tokenize (44 # s) = Comma # tokenize s"
  by (simp_all add: is_ws_def punctuation_def)

end
