(* ===== verification/Canonical.thy ===== *)
theory Canonical
  imports Json_Text
begin

text \<open>
  The parse boundary and the canonical form of \<open>federation/canonical.py\<close>: the nesting pre-scan,
  \<open>json.loads\<close> with its hooks, the structural depth check, the walk that enforces the protocol
  domain (objects and strings with keys of lower case letters and underscores), and RFC 8785
  bytes.  The walks run on an explicit stack, as in the code; they are proved equivalent to
  structural predicates.  \<open>RecursionError\<close>, which depends on the interpreter's stack, is not
  modelled.
\<close>

section \<open>The code\<close>

definition NESTING_DEPTH_LIMIT :: nat where
  "NESTING_DEPTH_LIMIT = 64"

definition KEY_RE :: "pystr \<Rightarrow> bool" where
  "KEY_RE k = (k \<noteq> [] \<and> list_all (\<lambda>c. 97 \<le> c \<and> c \<le> 122 \<or> c = 95) k)"

fun depth_prescan :: "string \<Rightarrow> int \<Rightarrow> bool \<Rightarrow> bool \<Rightarrow> pystr \<Rightarrow> fed_error + unit" where
  "depth_prescan layer depth in_string escaped [] = Inr ()"
| "depth_prescan layer depth in_string escaped (ch # s) =
     (if in_string then
        (if escaped then depth_prescan layer depth True False s
         else if ch = 92 then depth_prescan layer depth True True s
         else if ch = 34 then depth_prescan layer depth False False s
         else depth_prescan layer depth True False s)
      else if ch = 34 then depth_prescan layer depth True False s
      else if ch = 123 \<or> ch = 91 then
        (if depth + 1 > int NESTING_DEPTH_LIMIT then Inl (FederationError layer ''nesting_too_deep'')
         else depth_prescan layer (depth + 1) False False s)
      else if ch = 125 \<or> ch = 93 then depth_prescan layer (depth - 1) False False s
      else depth_prescan layer depth False False s)"

text \<open>The size of a value, which bounds the work of the stack walks.\<close>

fun weight :: "json \<Rightarrow> nat" and weight_list :: "json list \<Rightarrow> nat" and weight_items :: "(pystr \<times> json) list \<Rightarrow> nat" where
  "weight (JArr xs) = Suc (weight_list xs)"
| "weight (JObj kvs) = Suc (weight_items kvs)"
| "weight _ = 1"
| "weight_list [] = 0"
| "weight_list (x # xs) = weight x + weight_list xs"
| "weight_items [] = 0"
| "weight_items ((k, v) # kvs) = Suc (weight v + weight_items kvs)"

lemma weight_list_sum: "weight_list xs = sum_list (map weight xs)"
  by (induction xs) auto

lemma weight_items_sum: "weight_items kvs = sum_list (map (\<lambda>(k, v). Suc (weight v)) kvs)"
  by (induction kvs) auto

text \<open>\<open>_post_load_depth_check\<close>; the top of the Python list is the head of the stack here.\<close>

definition children :: "json \<Rightarrow> json list" where
  "children node = (case node of JObj kvs \<Rightarrow> map snd kvs | JArr xs \<Rightarrow> xs | _ \<Rightarrow> [])"

definition is_container :: "json \<Rightarrow> bool" where
  "is_container node = (case node of JObj _ \<Rightarrow> True | JArr _ \<Rightarrow> True | _ \<Rightarrow> False)"

lemma weight_children: "is_container node \<Longrightarrow> sum_list (map weight (children node)) < weight node"
proof (cases node)
  case (JObj kvs)
  have "sum_list (map weight (map snd kvs)) \<le> weight_items kvs" by (induction kvs) auto
  with JObj show ?thesis by (simp add: children_def)
qed (auto simp: children_def is_container_def weight_list_sum)

function depth_walk :: "string \<Rightarrow> (json \<times> nat) list \<Rightarrow> fed_error + unit" where
  "depth_walk layer [] = Inr ()"
| "depth_walk layer ((node, depth) # stack) =
     (if is_container node then
        (if depth > NESTING_DEPTH_LIMIT then Inl (FederationError layer ''nesting_too_deep'')
         else depth_walk layer (rev (map (\<lambda>v. (v, depth + 1)) (children node)) @ stack))
      else depth_walk layer stack)"
  by pat_completeness auto

lemma weight_pos: "0 < weight v"
  by (cases v) auto

termination depth_walk
proof (relation "measure (\<lambda>(layer, st). sum_list (map (weight \<circ> fst) st))", goal_cases)
  case (2 layer node depth stack)
  then show ?case using weight_children [of node] by (simp add: rev_map [symmetric] sum_list_rev o_def)
qed (simp_all add: weight_pos)

definition post_load_depth_check :: "json \<Rightarrow> string \<Rightarrow> fed_error + unit" where
  "post_load_depth_check obj layer = depth_walk layer [(obj, 1)]"

definition parse_json_text :: "pystr \<Rightarrow> string \<Rightarrow> json_exn + json" where
  "parse_json_text text layer =
     (case depth_prescan layer 0 False False text of
        Inl e \<Rightarrow> Inl (Fed_Error e)
      | Inr _ \<Rightarrow>
          (case loads text of
             Inl e \<Rightarrow> Inl e
           | Inr obj \<Rightarrow>
               (case post_load_depth_check obj layer of
                  Inl e \<Rightarrow> Inl (Fed_Error e)
                | Inr _ \<Rightarrow> Inr obj)))"

text \<open>\<open>_check_domain\<close>: keys and values wait on one stack, in the order of a preorder walk.\<close>

datatype domain_item = Dom_Key pystr | Dom_Value json

definition surrogate :: "int \<Rightarrow> bool" where
  "surrogate c = (55296 \<le> c \<and> c \<le> 57343)"

function domain_walk :: "domain_item list \<Rightarrow> fed_error + unit" where
  "domain_walk [] = Inr ()"
| "domain_walk (Dom_Key k # stack) =
     (if \<not> KEY_RE k then Inl (FederationError ''parse/schema'' ''value_domain'') else domain_walk stack)"
| "domain_walk (Dom_Value node # stack) =
     (case node of
        JStr s \<Rightarrow>
          if list_ex surrogate s then Inl (FederationError ''parse'' ''invalid_unicode'') else domain_walk stack
      | JObj kvs \<Rightarrow> domain_walk (concat (map (\<lambda>(k, v). [Dom_Key k, Dom_Value v]) kvs) @ stack)
      | _ \<Rightarrow> Inl (FederationError ''parse/schema'' ''value_domain''))"
  by pat_completeness auto

definition item_weight :: "domain_item \<Rightarrow> nat" where
  "item_weight it = (case it of Dom_Key _ \<Rightarrow> 1 | Dom_Value v \<Rightarrow> weight v)"

lemma item_weight_pending:
  "sum_list (map item_weight (concat (map (\<lambda>(k, v). [Dom_Key k, Dom_Value v]) kvs))) = weight_items kvs"
  by (induction kvs) (auto simp: item_weight_def)

termination domain_walk
  by (relation "measure (\<lambda>st. sum_list (map item_weight st))")
     (simp_all add: item_weight_pending del: map_concat, simp_all add: item_weight_def)

definition check_domain :: "json \<Rightarrow> fed_error + unit" where
  "check_domain obj = domain_walk [Dom_Value obj]"

definition parse_strict :: "bytes \<Rightarrow> fed_error + json" where
  "parse_strict raw =
     (case utf8_decode raw of
        None \<Rightarrow> Inl (FederationError ''parse'' ''invalid_utf8'')
      | Some text \<Rightarrow>
          (case parse_json_text text ''parse'' of
             Inl JSONDecodeError \<Rightarrow> Inl (FederationError ''parse'' ''invalid_json'')
           | Inl (Fed_Error e) \<Rightarrow> Inl e
           | Inr obj \<Rightarrow>
               (case obj of
                  JObj _ \<Rightarrow> (case check_domain obj of Inl e \<Rightarrow> Inl e | Inr _ \<Rightarrow> Inr obj)
                | _ \<Rightarrow> Inl (FederationError ''parse/schema'' ''value_domain''))))"

text \<open>\<open>canonical_bytes\<close>; \<open>None\<close> is the \<open>UnicodeEncodeError\<close> of a text with a surrogate.\<close>

definition canonical_bytes :: "json \<Rightarrow> bytes option" where
  "canonical_bytes obj = (let text = dumps obj in if list_ex surrogate text then None else Some (utf8 text))"

section \<open>Reference predicates\<close>

text \<open>
  The protocol domain: strings of Unicode scalar values, and objects whose keys match
  \<open>[a-z_]+\<close> and are distinct.
\<close>

fun clean :: "json \<Rightarrow> bool" and clean_items :: "(pystr \<times> json) list \<Rightarrow> bool" where
  "clean (JStr s) = list_all scalar s"
| "clean (JObj kvs) = (clean_items kvs \<and> distinct (map fst kvs))"
| "clean _ = False"
| "clean_items [] = True"
| "clean_items ((k, v) # kvs) = (KEY_RE k \<and> clean v \<and> clean_items kvs)"

text \<open>The nesting depth: a leaf has depth 0.\<close>

fun nesting :: "json \<Rightarrow> nat" and nesting_list :: "json list \<Rightarrow> nat" and nesting_items :: "(pystr \<times> json) list \<Rightarrow> nat" where
  "nesting (JArr xs) = Suc (nesting_list xs)"
| "nesting (JObj kvs) = Suc (nesting_items kvs)"
| "nesting _ = 0"
| "nesting_list [] = 0"
| "nesting_list (x # xs) = max (nesting x) (nesting_list xs)"
| "nesting_items [] = 0"
| "nesting_items ((k, v) # kvs) = max (nesting v) (nesting_items kvs)"

text \<open>What the reader guarantees of any value: distinct keys and code points in range.\<close>

definition code_point :: "int \<Rightarrow> bool" where
  "code_point c = (0 \<le> c \<and> c < 1114112)"

fun dict_ok :: "json \<Rightarrow> bool" and dict_ok_list :: "json list \<Rightarrow> bool" and dict_ok_items :: "(pystr \<times> json) list \<Rightarrow> bool" where
  "dict_ok (JStr s) = list_all code_point s"
| "dict_ok (JArr xs) = dict_ok_list xs"
| "dict_ok (JObj kvs) = (dict_ok_items kvs \<and> distinct (map fst kvs))"
| "dict_ok _ = True"
| "dict_ok_list [] = True"
| "dict_ok_list (x # xs) = (dict_ok x \<and> dict_ok_list xs)"
| "dict_ok_items [] = True"
| "dict_ok_items ((k, v) # kvs) = (list_all code_point k \<and> dict_ok v \<and> dict_ok_items kvs)"

section \<open>The walks decide the predicates\<close>

lemma nesting_list_le: "nesting_list xs \<le> n \<longleftrightarrow> (\<forall>x \<in> set xs. nesting x \<le> n)"
  by (induction xs) auto

lemma nesting_items_le: "nesting_items kvs \<le> n \<longleftrightarrow> (\<forall>x \<in> set (map snd kvs). nesting x \<le> n)"
  by (induction kvs) auto

lemma nesting_container:
  "is_container node \<Longrightarrow> nesting node \<le> Suc n \<longleftrightarrow> (\<forall>v \<in> set (children node). nesting v \<le> n)"
  by (cases node) (simp_all add: is_container_def children_def nesting_list_le nesting_items_le)

lemma nesting_leaf: "nesting node = 0 \<longleftrightarrow> \<not> is_container node"
  by (cases node) (simp_all add: is_container_def)

definition depth_fits :: "json \<Rightarrow> nat \<Rightarrow> bool" where
  "depth_fits v d = (nesting v = 0 \<or> nesting v + d \<le> Suc NESTING_DEPTH_LIMIT)"

lemma depth_fits_container:
  assumes "is_container node"
  shows "depth_fits node d \<longleftrightarrow> d \<le> NESTING_DEPTH_LIMIT \<and> (\<forall>v \<in> set (children node). depth_fits v (d + 1))"
proof (cases "d \<le> NESTING_DEPTH_LIMIT")
  case True
  then have "nesting v + d \<le> Suc NESTING_DEPTH_LIMIT \<longleftrightarrow> nesting v \<le> Suc (NESTING_DEPTH_LIMIT - d)" for v
    by auto
  moreover have "depth_fits v (d + 1) \<longleftrightarrow> nesting v \<le> NESTING_DEPTH_LIMIT - d" for v
    using True by (auto simp: depth_fits_def)
  ultimately show ?thesis
    using assms True nesting_leaf [of node] by (simp add: depth_fits_def nesting_container)
next
  case False
  then show ?thesis using assms nesting_leaf [of node] by (auto simp: depth_fits_def)
qed

lemma depth_walk_iff:
  "depth_walk layer st = (if \<forall>(v, d) \<in> set st. depth_fits v d then Inr ()
     else Inl (FederationError layer ''nesting_too_deep''))"
proof (induction layer st rule: depth_walk.induct)
  case (2 layer node depth stack)
  show ?case
  proof (cases "is_container node")
    case True
    then show ?thesis using 2(1) depth_fits_container [OF True, of depth] by auto
  next
    case False
    then show ?thesis using 2(2) nesting_leaf [of node] by (auto simp: depth_fits_def)
  qed
qed simp

lemma post_load_depth_check_iff:
  "post_load_depth_check obj layer = (if nesting obj \<le> NESTING_DEPTH_LIMIT then Inr ()
     else Inl (FederationError layer ''nesting_too_deep''))"
  by (simp add: post_load_depth_check_def depth_walk_iff depth_fits_def)

fun in_domain :: "json \<Rightarrow> bool" and in_domain_items :: "(pystr \<times> json) list \<Rightarrow> bool" where
  "in_domain (JStr s) = (\<not> list_ex surrogate s)"
| "in_domain (JObj kvs) = in_domain_items kvs"
| "in_domain _ = False"
| "in_domain_items [] = True"
| "in_domain_items ((k, v) # kvs) = (KEY_RE k \<and> in_domain v \<and> in_domain_items kvs)"

definition item_ok :: "domain_item \<Rightarrow> bool" where
  "item_ok it = (case it of Dom_Key k \<Rightarrow> KEY_RE k | Dom_Value v \<Rightarrow> in_domain v)"

lemma item_ok_pending:
  "list_all item_ok (concat (map (\<lambda>(k, v). [Dom_Key k, Dom_Value v]) kvs)) = in_domain_items kvs"
  by (induction kvs) (auto simp: item_ok_def)

lemma domain_walk_iff: "domain_walk st = Inr () \<longleftrightarrow> list_all item_ok st"
proof (induction st rule: domain_walk.induct)
  case (3 node stack)
  then show ?case
    by (cases node) (simp_all add: item_ok_pending, simp_all add: item_ok_def)
qed (auto simp: item_ok_def)

lemma domain_walk_errors:
  "domain_walk st \<in> {Inr (), Inl (FederationError ''parse/schema'' ''value_domain''),
     Inl (FederationError ''parse'' ''invalid_unicode'')}"
  by (induction st rule: domain_walk.induct) (auto split: json.splits)

lemma check_domain_iff: "check_domain v = Inr () \<longleftrightarrow> in_domain v"
  unfolding check_domain_def domain_walk_iff by (simp add: item_ok_def)

lemma KEY_RE_scalar: "KEY_RE k \<Longrightarrow> list_all scalar k"
  by (auto simp: KEY_RE_def scalar_def list_all_iff)

lemma scalar_iff: "scalar c \<longleftrightarrow> code_point c \<and> \<not> surrogate c"
  by (auto simp: scalar_def code_point_def surrogate_def)

lemma clean_iff: "clean v \<longleftrightarrow> in_domain v \<and> dict_ok v"
  and clean_items_iff: "clean_items kvs \<longleftrightarrow> in_domain_items kvs \<and> dict_ok_items kvs"
  by (induction v and kvs rule: clean_clean_items.induct)
     (auto simp: list_all_iff list_ex_iff scalar_iff dest: KEY_RE_scalar)

section \<open>Reading back what is written\<close>

fun toks :: "json \<Rightarrow> token list" and toks_items :: "(pystr \<times> json) list \<Rightarrow> token list" where
  "toks (JStr s) = [Str s]"
| "toks (JObj kvs) = LBrace # toks_items kvs @ [RBrace]"
| "toks _ = []"
| "toks_items [] = []"
| "toks_items [(k, v)] = Str k # Colon # toks v"
| "toks_items ((k, v) # kvs) = Str k # Colon # toks v @ Comma # toks_items kvs"

lemma scalar_nonneg: "list_all scalar s \<Longrightarrow> list_all (\<lambda>c. 0 \<le> c) s"
  by (auto simp: list_all_iff scalar_def)

lemma tokenize_dump:
  "clean v \<Longrightarrow> tokenize (dump v @ r) = toks v @ tokenize r"
  "clean_items kvs \<Longrightarrow> tokenize (dump_items kvs @ r) = toks_items kvs @ tokenize r"
  by (induction v and kvs arbitrary: r and r rule: toks_toks_items.induct)
     (simp_all add: tokenize_quote tokenize_punct scalar_nonneg KEY_RE_scalar del: tokenize.simps(2))

lemma no_dupes_distinct:
  "distinct (map fst (obj @ pairs)) \<Longrightarrow> no_dupes obj pairs = Inr (JObj (obj @ pairs))"
  by (induction obj pairs rule: no_dupes.induct) (auto simp: image_iff)

lemma read_toks:
  "clean v \<Longrightarrow> read_tokens (fs, Value) (toks v @ ts) = read_tokens (fs, After v) ts"
  "clean_items kvs \<Longrightarrow> kvs \<noteq> [] \<Longrightarrow>
   read_tokens (fs, Next_Key ps) (toks_items kvs @ RBrace # ts) =
     (case no_dupes [] (rev ps @ kvs) of
        Inl e \<Rightarrow> Inl (Fed_Error e) | Inr obj \<Rightarrow> read_tokens (fs, After obj) ts)"
proof (induction v and kvs arbitrary: fs ts and fs ps ts rule: toks_toks_items.induct)
  case (2 kvs)
  show ?case
  proof (cases kvs)
    case Nil
    then show ?thesis by (simp add: start_value_def)
  next
    case (Cons kv kvs')
    obtain k v where kv: "kv = (k, v)" by (cases kv)
    have "read_tokens (fs, First_Key) (toks_items kvs @ RBrace # ts) =
        read_tokens (fs, Next_Key []) (toks_items kvs @ RBrace # ts)"
      unfolding Cons kv by (cases kvs') simp_all
    then show ?thesis
      using 2 Cons no_dupes_distinct [of "[]" kvs] by (simp add: start_value_def)
  qed
next
  case (5 k v)
  then show ?case by (simp add: start_key_def after_value_def split: sum.split)
next
  case (6 k v kv kvs)
  then show ?case by (simp add: start_key_def after_value_def)
qed (simp_all add: start_value_def)

lemma hex_digit_plain: "0 \<le> n \<Longrightarrow> n < 16 \<Longrightarrow> hex_digit n \<noteq> 92 \<and> hex_digit n \<noteq> 34"
  by (auto simp: hex_digit_def)

lemma prescan_char:
  assumes "0 \<le> c"
  shows "depth_prescan layer d True False (escape_char c @ r) = depth_prescan layer d True False r"
proof (cases "c < 32")
  case True
  then have "hex_digit (c div 16) \<noteq> 92 \<and> hex_digit (c div 16) \<noteq> 34"
    using assms by (intro hex_digit_plain) simp_all
  moreover have "hex_digit (c mod 16) \<noteq> 92 \<and> hex_digit (c mod 16) \<noteq> 34"
    by (intro hex_digit_plain) simp_all
  ultimately show ?thesis by (simp add: escape_char_def)
qed (simp add: escape_char_def)

lemma prescan_quote:
  "list_all (\<lambda>c. 0 \<le> c) s \<Longrightarrow>
   depth_prescan layer d True False (concat (map escape_char s) @ 34 # r) = depth_prescan layer d False False r"
  by (induction s) (simp_all add: prescan_char del: depth_prescan.simps(2), simp)

lemma prescan_dump:
  "clean v \<Longrightarrow> 0 \<le> d \<Longrightarrow> d + int (nesting v) \<le> int NESTING_DEPTH_LIMIT \<Longrightarrow>
   depth_prescan layer d False False (dump v @ r) = depth_prescan layer d False False r"
  "clean_items kvs \<Longrightarrow> 0 \<le> d \<Longrightarrow> d + int (nesting_items kvs) \<le> int NESTING_DEPTH_LIMIT \<Longrightarrow>
   depth_prescan layer d False False (dump_items kvs @ r) = depth_prescan layer d False False r"
  by (induction v and kvs arbitrary: d r and d r rule: toks_toks_items.induct)
     (simp_all add: quote_def prescan_quote scalar_nonneg KEY_RE_scalar)

lemma scalar_escape:
  assumes "scalar c"
  shows "list_all scalar (escape_char c)"
proof (cases "c < 32")
  case True
  have hex: "scalar (hex_digit n)" if "0 \<le> n" "n < 16" for n
    using that by (auto simp: hex_digit_def scalar_def)
  have "0 \<le> c" using assms by (auto simp: scalar_def)
  with True have "scalar (hex_digit (c div 16))" "scalar (hex_digit (c mod 16))" by (auto intro!: hex)
  then show ?thesis using assms by (auto simp: escape_char_def scalar_def [of "numeral _"])
next
  case False
  then show ?thesis using assms by (auto simp: escape_char_def scalar_def [of "numeral _"])
qed

lemma scalar_quote: "list_all scalar s \<Longrightarrow> list_all scalar (quote s)"
proof -
  assume "list_all scalar s"
  then have "list_all scalar (concat (map escape_char s))" by (induction s) (simp_all add: scalar_escape)
  then show ?thesis by (simp add: quote_def scalar_def [of 34])
qed

lemma scalar_dump:
  "clean v \<Longrightarrow> list_all scalar (dump v)" "clean_items kvs \<Longrightarrow> list_all scalar (dump_items kvs)"
  by (induction v and kvs rule: toks_toks_items.induct)
     (simp_all add: scalar_quote KEY_RE_scalar scalar_def [of 123] scalar_def [of 125] scalar_def [of 58] scalar_def [of 44])

lemma clean_items_all: "clean_items kvs \<longleftrightarrow> (\<forall>(k, v) \<in> set kvs. KEY_RE k \<and> clean v)"
  by (induction kvs) auto

lemma clean_items_sort: "clean_items (sort_key f kvs) = clean_items kvs"
  by (simp add: clean_items_all)

lemma nesting_items_sort: "nesting_items (sort_key f kvs) = nesting_items kvs"
proof (rule antisym)
  show "nesting_items (sort_key f kvs) \<le> nesting_items kvs"
    using nesting_items_le [of kvs "nesting_items kvs"] by (simp add: nesting_items_le)
  show "nesting_items kvs \<le> nesting_items (sort_key f kvs)"
    using nesting_items_le [of "sort_key f kvs" "nesting_items (sort_key f kvs)"] by (simp add: nesting_items_le)
qed

lemma distinct_keys_sort: "distinct (map fst (sort_key f kvs)) = distinct (map fst kvs)"
  by (simp add: distinct_map)

lemma sort_keys_clean:
  "clean v \<Longrightarrow> clean (sort_keys v)" "clean_items kvs \<Longrightarrow> clean_items (sort_keys_items kvs)"
  by (induction v and kvs rule: clean_clean_items.induct) (simp_all add: clean_items_sort distinct_keys_sort)

lemma sort_keys_nesting:
  "clean v \<Longrightarrow> nesting (sort_keys v) = nesting v"
  "clean_items kvs \<Longrightarrow> nesting_items (sort_keys_items kvs) = nesting_items kvs"
  by (induction v and kvs rule: clean_clean_items.induct) (simp_all add: nesting_items_sort)

lemma canonical_bytes_clean: "clean v \<Longrightarrow> canonical_bytes v = Some (utf8 (dumps v))"
  using scalar_dump(1) [OF sort_keys_clean(1), of v]
  by (auto simp: canonical_bytes_def dumps_def list_all_iff list_ex_iff scalar_iff)

lemma loads_dump: "clean v \<Longrightarrow> loads (dump v) = Inr v"
  using tokenize_dump(1) [of v "[]"] read_toks(1) [of v "[]" "[]"] by (simp add: loads_def)

lemma utf8_dump_inject: "clean v \<Longrightarrow> clean w \<Longrightarrow> utf8 (dump v) = utf8 (dump w) \<Longrightarrow> v = w"
  by (metis loads_dump option.inject scalar_dump(1) sum.inject(2) utf8_decode_utf8)

lemma parse_json_text_dump:
  assumes "clean v" "nesting v \<le> NESTING_DEPTH_LIMIT"
  shows "parse_json_text (dump v) layer = Inr v"
proof -
  have "depth_prescan layer 0 False False (dump v) = Inr ()"
    using prescan_dump(1) [OF assms(1), of 0 layer "[]"] assms(2) by simp
  then show ?thesis using assms(2) loads_dump [OF assms(1)] by (simp add: parse_json_text_def post_load_depth_check_iff)
qed

lemma parse_strict_utf8_dump:
  assumes "clean v" "is_container v" "nesting v \<le> NESTING_DEPTH_LIMIT"
  shows "parse_strict (utf8 (dump v)) = Inr v"
proof -
  obtain kvs where "v = JObj kvs" using assms by (cases v) (auto simp: is_container_def)
  moreover have "check_domain v = Inr ()" using assms(1) by (simp add: check_domain_iff clean_iff)
  ultimately show ?thesis
    using utf8_decode_utf8 [OF scalar_dump(1) [OF assms(1)]] parse_json_text_dump [OF assms(1,3)]
    by (simp add: parse_strict_def)
qed

lemma parse_strict_dumps:
  assumes "clean v" "is_container v" "nesting v \<le> NESTING_DEPTH_LIMIT"
  shows "parse_strict (utf8 (dumps v)) = Inr (sort_keys v)"
proof -
  have "is_container (sort_keys v)" using assms(2) by (cases v) (auto simp: is_container_def)
  with sort_keys_clean(1) [OF assms(1)] show ?thesis
    unfolding dumps_def by (rule parse_strict_utf8_dump) (simp add: sort_keys_nesting assms)
qed

section \<open>What the reader returns\<close>

lemma decoded_range:
  "194 \<le> b \<Longrightarrow> b < 224 \<Longrightarrow> cont c \<Longrightarrow> code_point ((b - 192) * 64 + (c - 128))"
  "224 \<le> b \<Longrightarrow> b < 240 \<Longrightarrow> cont c \<Longrightarrow> cont d \<Longrightarrow> code_point (((b - 224) * 64 + (c - 128)) * 64 + (d - 128))"
  "240 \<le> b \<Longrightarrow> b < 245 \<Longrightarrow> cont c \<Longrightarrow> cont d \<Longrightarrow> cont e \<Longrightarrow> (b = 244 \<longrightarrow> c < 144) \<Longrightarrow>
   code_point ((((b - 240) * 64 + (c - 128)) * 64 + (d - 128)) * 64 + (e - 128))"
  by (auto simp: code_point_def cont_def)

lemma utf8_decode_step:
  assumes "utf8_decode (b # bs) = Some s" "0 \<le> b"
  obtains c s' bs' where "s = c # s'" "utf8_decode bs' = Some s'" "length bs' \<le> length bs" "set bs' \<subseteq> set bs" "code_point c"
proof -
  consider "b < 128" | "194 \<le> b" "b < 224" | "224 \<le> b" "b < 240" | "240 \<le> b" "b < 245"
    using assms(1) by (force split: if_splits)
  then show thesis
  proof cases
    case 1
    then show thesis using assms by (intro that [of b "tl s" bs]) (auto simp: code_point_def)
  next
    case 2
    obtain c bs' where bs: "bs = c # bs'" using assms(1) 2 by (cases bs) auto
    then have "cont c" using assms(1) 2 by (auto split: if_splits)
    then show thesis
      using assms(1) 2 bs decoded_range(1) [OF 2 \<open>cont c\<close>] by (intro that [of "hd s" "tl s" bs']) auto
  next
    case 3
    obtain c d bs' where bs: "bs = c # d # bs'" using assms(1) 3 by (auto split: list.splits)
    then have "cont c" "cont d" using assms(1) 3 by (auto split: if_splits)
    then show thesis
      using assms(1) 3 bs decoded_range(2) [OF 3 \<open>cont c\<close> \<open>cont d\<close>]
      by (intro that [of "hd s" "tl s" bs']) (auto split: if_splits)
  next
    case 4
    obtain c d e bs' where bs: "bs = c # d # e # bs'" using assms(1) 4 by (auto split: list.splits)
    then have "cont c" "cont d" "cont e" "b = 244 \<longrightarrow> c < 144" using assms(1) 4 by (auto split: if_splits)
    then show thesis
      using assms(1) 4 bs decoded_range(3) [OF 4 \<open>cont c\<close> \<open>cont d\<close> \<open>cont e\<close>]
      by (intro that [of "hd s" "tl s" bs']) (auto split: if_splits)
  qed
qed

lemma utf8_decode_range:
  "is_bytes bs \<Longrightarrow> utf8_decode bs = Some s \<Longrightarrow> list_all code_point s"
proof (induction "length bs" arbitrary: bs s rule: less_induct)
  case less
  show ?case
  proof (cases bs)
    case Nil
    then show ?thesis using less.prems by simp
  next
    case (Cons b bs0)
    obtain c s' bs' where step: "s = c # s'" "utf8_decode bs' = Some s'" "length bs' \<le> length bs0"
        "set bs' \<subseteq> set bs0" "code_point c"
      using utf8_decode_step [of b bs0 s] less.prems unfolding Cons is_bytes_simps by blast
    have "is_bytes bs'" using less.prems(1) step(4) unfolding Cons is_bytes_def list_all_iff by auto
    then have "list_all code_point s'" using less.hyps [of bs' s'] step(2,3) Cons by simp
    then show ?thesis using step(1,5) by simp
  qed
qed

lemma hex_value_range: "hex_value c = Some v \<Longrightarrow> 0 \<le> v \<and> v < 16"
  by (auto simp: hex_value_def split: if_splits)

lemma hex4_range: "hex4 a b c d = Some v \<Longrightarrow> 0 \<le> v \<and> v < 65536"
proof -
  assume "hex4 a b c d = Some v"
  then obtain w x y z where "hex_value a = Some w" "hex_value b = Some x" "hex_value c = Some y" "hex_value d = Some z"
      and v: "v = ((w * 16 + x) * 16 + y) * 16 + z"
    by (auto simp: hex4_def split: option.splits)
  then have "0 \<le> w \<and> w < 16" "0 \<le> x \<and> x < 16" "0 \<le> y \<and> y < 16" "0 \<le> z \<and> z < 16"
    by (auto dest: hex_value_range)
  then show ?thesis unfolding v by auto
qed

lemma hex4_at_range: "hex4_at r = Some (v, t) \<Longrightarrow> 0 \<le> v \<and> v < 65536 \<and> set t \<subseteq> set r"
  by (auto simp: hex4_at_def split: list.splits dest: hex4_range)

lemma simple_escape_range: "simple_escape e = Some v \<Longrightarrow> code_point v"
  unfolding simple_escape_def by (drule map_of_SomeD) (auto simp: code_point_def)

lemma join_range: "is_high v \<Longrightarrow> is_low w \<Longrightarrow> code_point (65536 + (v - 55296) * 1024 + (w - 56320))"
  by (auto simp: is_high_def is_low_def code_point_def)

lemma scan_unicode_range:
  assumes "scan_unicode r = Some (v, t)"
  shows "code_point v \<and> set t \<subseteq> set r"
proof -
  obtain w u where w: "hex4_at r = Some (w, u)" using assms by (auto simp: scan_unicode_def split: option.splits)
  note rw = hex4_at_range [OF w]
  show ?thesis
  proof (cases "is_high w \<and> take 2 u = [92, 117]")
    case True
    then obtain x t' where x: "hex4_at (drop 2 u) = Some (x, t')"
      using assms w by (auto simp: scan_unicode_def split: option.splits)
    have "set t' \<subseteq> set r" using hex4_at_range [OF x] set_drop_subset [of 2 u] rw by blast
    moreover have "code_point w" using rw by (simp add: code_point_def)
    moreover have "(v, t) = (if is_low x then (65536 + (w - 55296) * 1024 + (x - 56320), t') else (w, u))"
      using assms w x True by (simp add: scan_unicode_def split: if_splits)
    ultimately show ?thesis using rw join_range [of w x] True by (auto split: if_splits)
  next
    case False
    then have "v = w" "t = u" using assms w by (auto simp: scan_unicode_def split: if_splits)
    then show ?thesis using rw by (simp add: code_point_def)
  qed
qed

lemma scan_escape_range:
  assumes "scan_escape s = Some (v, t)"
  shows "code_point v \<and> set t \<subseteq> set s"
proof (cases s)
  case (Cons e r)
  show ?thesis
  proof (cases "e = 117")
    case True
    then show ?thesis using assms Cons scan_unicode_range [of r v t] by (auto simp: scan_escape_def)
  next
    case False
    then show ?thesis using assms Cons simple_escape_range [of e v] by (auto simp: scan_escape_def)
  qed
qed (use assms in \<open>simp add: scan_escape_def\<close>)

lemma scanstring_range:
  "scanstring s = Some (x, r) \<Longrightarrow> list_all code_point s \<Longrightarrow> list_all code_point x \<and> set r \<subseteq> set s"
proof (induction s arbitrary: x rule: scanstring.induct)
  case (2 c s)
  show ?case
  proof (cases "c = 92")
    case True
    with 2(3) obtain v t y where step: "scan_escape s = Some (v, t)" "scanstring t = Some (y, r)" "x = v # y"
      by (auto split: option.splits)
    note esc = scan_escape_range [OF step(1)]
    have "list_all code_point t" using esc 2(4) by (auto simp: list_all_iff)
    then have "list_all code_point y \<and> set r \<subseteq> set t" using 2(1) True step by auto
    then show ?thesis using esc step(3) by auto
  next
    case False
    then show ?thesis using 2 by (auto split: if_splits)
  qed
qed simp

definition tok_ok :: "token \<Rightarrow> bool" where
  "tok_ok t = (case t of Str x \<Rightarrow> list_all code_point x | _ \<Rightarrow> True)"

lemma tokenize_range: "list_all code_point s \<Longrightarrow> list_all tok_ok (tokenize s)"
proof (induction s rule: tokenize.induct)
  case (2 c s)
  have punct: "tok_ok t" if "punctuation c = Some t" for t
    using that by (auto simp: punctuation_def tok_ok_def split: if_splits)
  have literal: "tok_ok t" if "find (\<lambda>(w, t). prefix w (c # s)) literals = Some (w, t)" for w t
    using that by (auto simp: literals_def tok_ok_def split: if_splits)
  have str: "list_all code_point x \<and> list_all code_point r" if "scanstring s = Some (x, r)" for x r
    using scanstring_range [OF that] 2(5) by (auto simp: list_all_iff)
  have "list_all code_point (drop n s)" for n
    using 2(5) set_drop_subset [of n s] by (auto simp: list_all_iff)
  then show ?case
    using 2 punct literal str
    by (auto split: option.splits prod.splits simp: tok_ok_def [of "Str _"] tok_ok_def [of Number] tok_ok_def [of Bad])
qed simp

definition pairs_ok :: "(pystr \<times> json) list \<Rightarrow> bool" where
  "pairs_ok kvs = (\<forall>(k, v) \<in> set kvs. list_all code_point k \<and> dict_ok v)"

fun frame_ok :: "frame \<Rightarrow> bool" where
  "frame_ok (In_Obj ps k) = (pairs_ok ps \<and> list_all code_point k)"
| "frame_ok (In_Arr xs) = (\<forall>x \<in> set xs. dict_ok x)"

fun mode_ok :: "mode \<Rightarrow> bool" where
  "mode_ok (Next_Key ps) = pairs_ok ps"
| "mode_ok (Want_Colon ps k) = (pairs_ok ps \<and> list_all code_point k)"
| "mode_ok (After v) = dict_ok v"
| "mode_ok _ = True"

lemma dict_ok_all: "dict_ok_list xs \<longleftrightarrow> (\<forall>x \<in> set xs. dict_ok x)" "dict_ok_items kvs \<longleftrightarrow> pairs_ok kvs"
  by (induction xs) (simp_all, induction kvs, auto simp: pairs_ok_def)

lemma no_dupes_ok: "no_dupes obj pairs = Inr v \<Longrightarrow> distinct (map fst obj) \<Longrightarrow> v = JObj (obj @ pairs) \<and> distinct (map fst (obj @ pairs))"
  by (induction obj pairs rule: no_dupes.induct) (auto split: if_splits)

lemma read_token_ok:
  "read_token t (fs, m) = Inr (fs', m') \<Longrightarrow> tok_ok t \<Longrightarrow> list_all frame_ok fs \<Longrightarrow> mode_ok m \<Longrightarrow>
   list_all frame_ok fs' \<and> mode_ok m'"
proof (cases m)
  case (After v)
  assume step: "read_token t (fs, m) = Inr (fs', m')" and ok: "list_all frame_ok fs" "mode_ok m"
  show ?thesis
  proof (cases "\<exists>ps k fs0. fs = In_Obj ps k # fs0 \<and> t = RBrace")
    case True
    then obtain ps k fs0 where fs: "fs = In_Obj ps k # fs0" "t = RBrace" by blast
    then obtain obj where "no_dupes [] (rev ((k, v) # ps)) = Inr obj" "fs' = fs0" "m' = After obj"
      using step After by (auto simp: after_value_def split: sum.splits)
    then show ?thesis
      using no_dupes_ok [of "[]" "rev ((k, v) # ps)" obj] ok fs After by (auto simp: dict_ok_all pairs_ok_def)
  next
    case False
    then show ?thesis
      using step ok After
      by (auto simp: after_value_def dict_ok_all pairs_ok_def split: list.splits frame.splits if_splits)
  qed
qed (auto simp: start_value_def start_key_def tok_ok_def reject_number_def pairs_ok_def dict_ok_all
    split: token.splits if_splits)

lemma read_tokens_ok:
  "read_tokens (fs, m) ts = Inr v \<Longrightarrow> list_all tok_ok ts \<Longrightarrow> list_all frame_ok fs \<Longrightarrow> mode_ok m \<Longrightarrow> dict_ok v"
proof (induction ts arbitrary: fs m)
  case Nil
  then show ?case by (auto split: list.splits mode.splits)
next
  case (Cons t ts)
  then obtain fs' m' where "read_token t (fs, m) = Inr (fs', m')" "read_tokens (fs', m') ts = Inr v"
    by (auto split: sum.splits)
  with Cons show ?case using read_token_ok by auto
qed

lemma loads_ok: "list_all code_point s \<Longrightarrow> loads s = Inr v \<Longrightarrow> dict_ok v"
  using read_tokens_ok [of "[]" Value "tokenize s" v] tokenize_range [of s] by (simp add: loads_def)

lemma parse_strict_cases:
  assumes "parse_strict raw = Inr v"
  obtains s kvs where "utf8_decode raw = Some s" "loads s = Inr v" "v = JObj kvs" "in_domain v"
    "nesting v \<le> NESTING_DEPTH_LIMIT"
  using assms that
  by (auto simp: parse_strict_def parse_json_text_def post_load_depth_check_iff check_domain_iff [symmetric]
      split: option.splits sum.splits json_exn.splits json.splits if_splits)

lemma prescan_result:
  "depth_prescan layer d ins esc s \<in> {Inr (), Inl (FederationError layer ''nesting_too_deep'')}"
  by (induction s arbitrary: d ins esc) (simp_all del: insert_iff, auto simp del: insert_iff intro: insertI2)

lemma prescan_error: "depth_prescan layer d ins esc s = Inl e \<Longrightarrow> e = FederationError layer ''nesting_too_deep''"
  using prescan_result [of layer d ins esc s] by auto

lemma no_dupes_error: "no_dupes obj pairs = Inl e \<Longrightarrow> e = FederationError ''parse'' ''duplicate_key''"
  by (induction obj pairs rule: no_dupes.induct) (auto split: if_splits)

lemma start_value_error:
  "start_value t fs = Inl (Fed_Error e) \<Longrightarrow> e = FederationError ''parse/schema'' ''value_domain''"
  by (auto simp: start_value_def reject_number_def split: token.splits)

lemma after_value_error:
  "after_value t v fs = Inl (Fed_Error e) \<Longrightarrow> e = FederationError ''parse'' ''duplicate_key''"
  by (auto simp: after_value_def split: list.splits frame.splits if_splits sum.splits dest: no_dupes_error)

lemma start_key_error: "start_key t ps fs \<noteq> Inl (Fed_Error e)"
  by (cases t) (simp_all add: start_key_def)

lemma read_token_error:
  assumes "read_token t (fs, m) = Inl (Fed_Error e)"
  shows "e \<in> {FederationError ''parse'' ''duplicate_key'', FederationError ''parse/schema'' ''value_domain''}"
  using assms start_value_error [of t] after_value_error [of t] start_key_error [of t]
  by (cases m) (auto split: if_splits)

lemma read_tokens_error:
  "read_tokens st ts = Inl (Fed_Error e) \<Longrightarrow>
   e \<in> {FederationError ''parse'' ''duplicate_key'', FederationError ''parse/schema'' ''value_domain''}"
proof (induction ts arbitrary: st)
  case Nil
  then show ?case by (cases st) (simp split: list.splits mode.splits)
next
  case (Cons t ts)
  obtain fs m where st: "st = (fs, m)" by (cases st)
  show ?case
  proof (cases "read_token t st")
    case (Inl x)
    then show ?thesis using Cons.prems read_token_error [of t fs m e] st by simp
  next
    case (Inr st')
    then show ?thesis using Cons.prems Cons.IH [of st'] by simp
  qed
qed

lemma parse_json_text_error:
  assumes "parse_json_text s layer = Inl (Fed_Error e)"
  shows "e \<in> {FederationError ''parse'' ''duplicate_key'', FederationError ''parse/schema'' ''value_domain'',
    FederationError layer ''nesting_too_deep''}"
proof (cases "depth_prescan layer 0 False False s")
  case (Inl x)
  then show ?thesis using assms prescan_error [OF Inl] by (simp add: parse_json_text_def)
next
  case (Inr u)
  show ?thesis
  proof (cases "loads s")
    case (Inl x)
    then show ?thesis
      using assms Inr read_tokens_error [of "([], Value)" "tokenize s" e] by (auto simp: parse_json_text_def loads_def)
  next
    case (Inr v)
    then show ?thesis
      using assms \<open>depth_prescan layer 0 False False s = Inr u\<close>
      by (auto simp: parse_json_text_def post_load_depth_check_iff split: if_splits)
  qed
qed

lemma check_domain_error:
  "check_domain v = Inl e \<Longrightarrow> e \<in> {FederationError ''parse/schema'' ''value_domain'', FederationError ''parse'' ''invalid_unicode''}"
  using domain_walk_errors [of "[Dom_Value v]"] unfolding check_domain_def by auto

section \<open>Sorted keys and Python equality\<close>

lemma sort_keys_items_map: "sort_keys_items kvs = map (apsnd sort_keys) kvs"
  by (induction kvs) auto

lemma sort_key_map_apsnd: "sort_key fst (map (apsnd f) kvs) = map (apsnd f) (sort_key fst kvs)"
proof -
  have ins: "insort_key fst (apsnd f x) (map (apsnd f) xs) = map (apsnd f) (insort_key fst x xs)" for x xs
    by (induction xs) auto
  show ?thesis by (induction kvs) (simp_all add: ins)
qed

lemma clean_JObjD: "clean (JObj kvs) \<Longrightarrow> (k, v) \<in> set kvs \<Longrightarrow> KEY_RE k \<and> clean v"
  by (auto simp: clean_items_all)

lemma sort_keys_idem: "clean v \<Longrightarrow> sort_keys (sort_keys v) = sort_keys v"
proof (induction v)
  case (JObj kvs)
  have "apsnd sort_keys (apsnd sort_keys kv) = apsnd sort_keys kv" if "kv \<in> set kvs" for kv
    using JObj clean_JObjD [of kvs "fst kv" "snd kv"] that by (cases kv) auto
  then have "map (apsnd sort_keys) (map (apsnd sort_keys) kvs) = map (apsnd sort_keys) kvs" by simp
  then have "map (apsnd sort_keys) (sort_key fst (map (apsnd sort_keys) kvs)) = sort_key fst (map (apsnd sort_keys) kvs)"
    by (simp only: sort_key_map_apsnd [symmetric])
  then show ?case by (simp only: sort_keys.simps sort_keys_items_map) (simp add: sort_key_id_if_sorted)
qed auto

lemma py_eq_items_iff:
  "py_eq_items xs ys \<longleftrightarrow> (\<forall>(k, v) \<in> set xs. \<exists>w. map_of ys k = Some w \<and> py_eq v w)"
  by (induction xs) (auto split: option.splits)

lemma same_sorted_items:
  fixes xs ys :: "(pystr \<times> json) list"
  assumes "distinct (map fst xs)" "distinct (map fst ys)"
  shows "length xs = length ys \<and> set xs \<subseteq> set ys \<longleftrightarrow> sort_key fst xs = sort_key fst ys"
proof
  assume *: "length xs = length ys \<and> set xs \<subseteq> set ys"
  have "card (set xs) = length xs" "card (set ys) = length ys"
    using assms by (simp_all add: distinct_card distinct_map)
  with * have "set xs = set ys" by (simp add: card_subset_eq)
  then show "sort_key fst xs = sort_key fst ys"
    using assms by (intro map_sorted_distinct_set_unique [of fst]) (simp_all add: distinct_map)
next
  assume "sort_key fst xs = sort_key fst ys"
  then show "length xs = length ys \<and> set xs \<subseteq> set ys"
    by (metis length_sort set_sort subset_refl)
qed

lemma py_eq_iff_sort_keys: "clean v \<Longrightarrow> clean w \<Longrightarrow> py_eq v w \<longleftrightarrow> sort_keys v = sort_keys w"
proof (induction v arbitrary: w)
  case (JStr s)
  then show ?case by (cases w) auto
next
  case (JObj xs)
  show ?case
  proof (cases w)
    case (JObj ys)
    let ?g = "apsnd sort_keys" and ?S = "\<lambda>zs. sort_key fst (map (apsnd sort_keys) zs)"
    have dx: "distinct (map fst xs)" and dy: "distinct (map fst ys)"
      using JObj.prems \<open>w = JObj ys\<close> by auto
    have keys: "map fst (map ?g zs) = map fst zs" for zs by simp
    have IH: "py_eq v u \<longleftrightarrow> sort_keys v = sort_keys u" if "(k, v) \<in> set xs" "(k', u) \<in> set ys" for k k' v u
      using that JObj.IH [of "(k, v)" v u] JObj.prems \<open>w = JObj ys\<close>
        clean_JObjD [of xs k v] clean_JObjD [of ys k' u] by auto
    have lookup: "(\<exists>u. map_of ys (fst kv) = Some u \<and> py_eq (snd kv) u) \<longleftrightarrow> ?g kv \<in> ?g ` set ys" if "kv \<in> set xs" for kv
    proof (cases kv)
      case (Pair k v)
      then show ?thesis
        using IH [of k v] that dy by (auto simp: image_iff dest: map_of_SomeD) (metis apsnd_conv prod.inject)+
    qed
    have items: "py_eq_items xs ys \<longleftrightarrow> set (map ?g xs) \<subseteq> set (map ?g ys)"
      unfolding py_eq_items_iff set_map image_subset_iff case_prod_beta using lookup by blast
    then show ?thesis
      using JObj same_sorted_items [of "map ?g xs" "map ?g ys"] dx dy by (simp add: sort_keys_items_map)
  qed (use JObj.prems in auto)
qed auto

section \<open>Guarantees\<close>

text \<open>
  C27: an object of the protocol domain survives the wire.  For every object made of objects and
  strings, with admissible keys, valid Unicode and at most 64 levels, \<open>canonical_bytes\<close> succeeds and
  \<open>parse_strict\<close> accepts the result and returns the same object with its keys sorted, which is
  the same Python dict; so two such objects have the same canonical bytes exactly when they are
  the same dict up to the order of their keys.
\<close>

theorem canonical_roundtrip:
  assumes v: "clean v" "is_container v" "nesting v \<le> NESTING_DEPTH_LIMIT" and w: "clean w"
  shows "(\<exists>raw v'. canonical_bytes v = Some raw \<and> parse_strict raw = Inr v' \<and> py_eq v v' \<and>
      canonical_bytes v' = Some raw) \<and>
    (canonical_bytes v = canonical_bytes w \<longleftrightarrow> py_eq v w)"
proof
  note sk = sort_keys_clean(1) [OF v(1)] sort_keys_idem [OF v(1)]
  note parse_strict_dumps [OF v]
  moreover have "canonical_bytes (sort_keys v) = Some (utf8 (dumps v))"
    using canonical_bytes_clean [OF sk(1)] sk(2) by (simp add: dumps_def)
  moreover have "py_eq v (sort_keys v)" using py_eq_iff_sort_keys [OF v(1) sk(1)] sk(2) by simp
  ultimately show "\<exists>raw v'. canonical_bytes v = Some raw \<and> parse_strict raw = Inr v' \<and> py_eq v v' \<and>
      canonical_bytes v' = Some raw"
    using canonical_bytes_clean [OF v(1)] by blast
  show "canonical_bytes v = canonical_bytes w \<longleftrightarrow> py_eq v w"
    using utf8_dump_inject [OF sk(1) sort_keys_clean(1) [OF w]] py_eq_iff_sort_keys [OF v(1) w]
    by (auto simp: canonical_bytes_clean v(1) w dumps_def)
qed

text \<open>The witness: an object with keys out of order, an escaped quote and a nested object.\<close>

definition demo_object :: json where
  "demo_object = JObj [(lit ''text'', JStr [72, 34, 228]), (lit ''ev'', JObj [(lit ''id'', JStr [])])]"

theorem canonical_roundtrip_witness:
  "(\<exists>raw v'. canonical_bytes demo_object = Some raw \<and> parse_strict raw = Inr v' \<and> py_eq demo_object v' \<and>
      canonical_bytes v' = Some raw) \<and>
   (canonical_bytes demo_object = canonical_bytes demo_object \<longleftrightarrow> py_eq demo_object demo_object)"
proof -
  have "clean demo_object" "is_container demo_object" "nesting demo_object \<le> NESTING_DEPTH_LIMIT"
    by (simp_all add: demo_object_def KEY_RE_def lit_def scalar_def is_container_def NESTING_DEPTH_LIMIT_def)
  then show ?thesis by (intro canonical_roundtrip)
qed

text \<open>
  C28: what \<open>parse_strict\<close> lets through.  Whatever bytes arrive, an accepted value is an object of
  strings and objects only, nested at most 64 deep, with distinct keys of lower case letters and
  underscores, and all its strings are sequences of Unicode scalar values; hence its canonical
  bytes exist and parse to the same dict again.  Every rejection is one of six stable categories.
\<close>

theorem parse_strict_admits_domain_only:
  assumes "is_bytes raw"
  shows "case parse_strict raw of
      Inr v \<Rightarrow> clean v \<and> is_container v \<and> nesting v \<le> NESTING_DEPTH_LIMIT \<and>
        (\<exists>bs. canonical_bytes v = Some bs \<and> parse_strict bs = Inr (sort_keys v))
    | Inl e \<Rightarrow> e \<in> {FederationError ''parse'' ''invalid_utf8'', FederationError ''parse'' ''invalid_json'',
        FederationError ''parse'' ''duplicate_key'', FederationError ''parse'' ''nesting_too_deep'',
        FederationError ''parse/schema'' ''value_domain'', FederationError ''parse'' ''invalid_unicode''}"
proof (cases "parse_strict raw")
  case (Inr v)
  from Inr obtain s kvs where p: "utf8_decode raw = Some s" "loads s = Inr v" "v = JObj kvs" "in_domain v"
      "nesting v \<le> NESTING_DEPTH_LIMIT"
    by (rule parse_strict_cases)
  have "clean v" using loads_ok [OF utf8_decode_range [OF assms p(1)] p(2)] p(4) by (simp add: clean_iff)
  moreover have "is_container v" by (simp add: is_container_def p(3))
  ultimately show ?thesis
    using Inr p(5) canonical_bytes_clean [of v] parse_strict_dumps [of v] by (simp only: sum.case) blast
next
  case (Inl e)
  show ?thesis
  proof (cases "utf8_decode raw")
    case None
    then show ?thesis using Inl by (simp add: parse_strict_def)
  next
    case (Some s)
    then show ?thesis
      using Inl parse_json_text_error [of s "''parse''"] check_domain_error
      by (auto simp: parse_strict_def split: sum.splits json_exn.splits json.splits)
  qed
qed

text \<open>The witness: an object with one string.\<close>

theorem parse_strict_admits_domain_only_witness:
  "case parse_strict [123, 34, 97, 34, 58, 34, 98, 34, 125] of
      Inr v \<Rightarrow> clean v \<and> is_container v \<and> nesting v \<le> NESTING_DEPTH_LIMIT \<and>
        (\<exists>bs. canonical_bytes v = Some bs \<and> parse_strict bs = Inr (sort_keys v))
    | Inl e \<Rightarrow> e \<in> {FederationError ''parse'' ''invalid_utf8'', FederationError ''parse'' ''invalid_json'',
        FederationError ''parse'' ''duplicate_key'', FederationError ''parse'' ''nesting_too_deep'',
        FederationError ''parse/schema'' ''value_domain'', FederationError ''parse'' ''invalid_unicode''}"
proof -
  have "is_bytes [123, 34, 97, 34, 58, 34, 98, 34, 125]" by simp
  then show ?thesis by (rule parse_strict_admits_domain_only)
qed

end
