(* ===== verification/Schema.thy ===== *)
theory Schema
  imports Canonical Timestamps
begin

text \<open>
  The envelope schema of \<open>federation/schema.py\<close>: the exact-byte grammars, the checks of an event
  and of a receipt in the order in which the code makes them, and the two entry points that take
  raw request bytes.  Results are values of a sum type; a rejection carries the layer and the
  category.
\<close>

named_theorems schema_simps \<open>evaluation of the sequential checks\<close>

section \<open>Sequencing of checks\<close>

definition and_then :: "'e + 'a \<Rightarrow> ('a \<Rightarrow> 'e + 'b) \<Rightarrow> 'e + 'b" where
  "and_then m f = (case m of Inl e \<Rightarrow> Inl e | Inr x \<Rightarrow> f x)"

lemma and_then_simps [simp]: "and_then (Inl e) f = Inl e" "and_then (Inr x) f = f x"
  by (simp_all add: and_then_def)

lemma and_then_Inr: "and_then m f = Inr y \<longleftrightarrow> (\<exists>x. m = Inr x \<and> f x = Inr y)"
  by (cases m) auto

lemma and_thenE:
  assumes "and_then m f = Inr y"
  obtains x where "m = Inr x" "f x = Inr y"
  using assms by (auto simp: and_then_Inr)

definition require :: "bool \<Rightarrow> 'e \<Rightarrow> 'e + unit" where
  "require b e = (if b then Inr () else Inl e)"

lemma require_Inr [simp]: "require b e = Inr u \<longleftrightarrow> b"
  by (simp add: require_def)

lemma require_True [simp]: "require True e = Inr ()"
  by (simp add: require_def)

section \<open>Constants and grammars\<close>

definition REQUEST_BODY_LIMIT :: nat where "REQUEST_BODY_LIMIT = 16384"
definition TEXT_LIMIT :: nat where "TEXT_LIMIT = 8192"

definition EVENT_KIND :: pystr where "EVENT_KIND = lit ''federation.event.v0''"
definition RECEIPT_KIND :: pystr where "RECEIPT_KIND = lit ''federation.receipt.v0''"
definition EVENT_TYPES :: "pystr list" where "EVENT_TYPES = [lit ''message'', lit ''reply'']"
definition ACK_TYPES :: "pystr list" where "ACK_TYPES = [lit ''received'', lit ''applied'']"

definition is_lower :: "int \<Rightarrow> bool" where "is_lower c = (97 \<le> c \<and> c \<le> 122)"
definition is_upper :: "int \<Rightarrow> bool" where "is_upper c = (65 \<le> c \<and> c \<le> 90)"
definition is_hex :: "int \<Rightarrow> bool" where "is_hex c = (is_digit c \<or> 97 \<le> c \<and> c \<le> 102)"

definition FAMILY_RE :: "pystr \<Rightarrow> bool" where
  "FAMILY_RE s = (1 \<le> length s \<and> length s \<le> 32 \<and> list_all (\<lambda>c. is_lower c \<or> is_digit c \<or> c = 45) s)"

definition AGENT_RE :: "pystr \<Rightarrow> bool" where
  "AGENT_RE s = (1 \<le> length s \<and> length s \<le> 32 \<and> list_all (\<lambda>c. is_lower c \<or> is_digit c \<or> c = 95 \<or> c = 45) s)"

definition KEY_ID_RE :: "pystr \<Rightarrow> bool" where
  "KEY_ID_RE s = (1 \<le> length s \<and> length s \<le> 64 \<and>
     list_all (\<lambda>c. is_upper c \<or> is_lower c \<or> is_digit c \<or> c = 46 \<or> c = 95 \<or> c = 45) s)"

definition UUID_RE :: "pystr \<Rightarrow> bool" where
  "UUID_RE s = (length s = 36 \<and>
     list_all (\<lambda>i. if i \<in> {8, 13, 18, 23} then s ! i = 45 else is_hex (s ! i)) [0..<36])"

definition HEX64_RE :: "pystr \<Rightarrow> bool" where
  "HEX64_RE s = (length s = 64 \<and> list_all is_hex s)"

definition TIMESTAMP_RE :: "pystr \<Rightarrow> bool" where
  "TIMESTAMP_RE s = (length s = 20 \<and>
     list_all (\<lambda>i. if i = 4 \<or> i = 7 then s ! i = 45 else if i = 10 then s ! i = 84
       else if i = 13 \<or> i = 16 then s ! i = 58 else if i = 19 then s ! i = 90 else is_digit (s ! i)) [0..<20])"

definition EVENT_TOP :: "pystr list" where
  "EVENT_TOP = map lit [''kind'', ''origin'', ''key_id'', ''event'', ''sig'']"
definition EVENT_REQUIRED :: "pystr list" where
  "EVENT_REQUIRED = map lit [''event_id'', ''type'', ''source'', ''target'', ''created_at'', ''payload'']"
definition EVENT_FIELDS :: "pystr list" where
  "EVENT_FIELDS = EVENT_REQUIRED @ [lit ''in_reply_to'']"
definition RECEIPT_TOP :: "pystr list" where
  "RECEIPT_TOP = map lit [''kind'', ''issuer'', ''key_id'', ''receipt'', ''sig'']"
definition RECEIPT_FIELDS :: "pystr list" where
  "RECEIPT_FIELDS = map lit [''event_id'', ''origin'', ''origin_event_sig_hash'', ''agent'', ''ack_type'', ''at'']"

section \<open>Checks\<close>

type_synonym dict = "(pystr \<times> json) list"
type_synonym 'a fed_res = "fed_error + 'a"

record envelope =
  env_kind :: pystr
  env_signed :: dict
  env_sig_str :: pystr
  env_sig :: bytes

definition signed_bytes :: "envelope \<Rightarrow> bytes option" where
  "signed_bytes env = canonical_bytes (JObj (env_signed env))"

definition err :: "string \<Rightarrow> fed_error" where
  "err category = FederationError ''schema'' category"

definition check_body_size :: "bytes \<Rightarrow> unit fed_res" where
  "check_body_size raw =
     require (length raw \<le> REQUEST_BODY_LIMIT) (FederationError ''request'' ''body_too_large'')"

definition content_encoding_rejected :: "pystr option \<Rightarrow> bool" where
  "content_encoding_rejected encoding = (encoding \<noteq> None)"

definition check_fields :: "dict \<Rightarrow> pystr list \<Rightarrow> pystr list \<Rightarrow> unit fed_res" where
  "check_fields obj allowed required =
     and_then (require (list_all (\<lambda>k. k \<in> set allowed) (map fst obj)) (err ''unknown_field'')) (\<lambda>_.
     require (list_all (\<lambda>k. k \<in> set (map fst obj)) required) (err ''missing_field''))"

text \<open>\<open>obj.get(key)\<close>, where the absent key and the value \<open>None\<close> look the same.\<close>

definition get :: "dict \<Rightarrow> pystr \<Rightarrow> json option" where
  "get obj key = (case map_of obj key of Some JNull \<Rightarrow> None | r \<Rightarrow> r)"

definition get_string :: "dict \<Rightarrow> pystr \<Rightarrow> pystr fed_res" where
  "get_string obj key =
     (case get obj key of
        None \<Rightarrow> Inl (err ''missing_field'')
      | Some (JStr s) \<Rightarrow> Inr s
      | Some _ \<Rightarrow> Inl (err ''value_domain''))"

definition get_object :: "dict \<Rightarrow> pystr \<Rightarrow> dict fed_res" where
  "get_object obj key =
     (case get obj key of
        None \<Rightarrow> Inl (err ''missing_field'')
      | Some (JObj kvs) \<Rightarrow> Inr kvs
      | Some _ \<Rightarrow> Inl (err ''value_domain''))"

definition get_matching :: "dict \<Rightarrow> string \<Rightarrow> (pystr \<Rightarrow> bool) \<Rightarrow> string \<Rightarrow> pystr fed_res" where
  "get_matching obj key rx category =
     and_then (get_string obj (lit key)) (\<lambda>s. and_then (require (rx s) (err category)) (\<lambda>_. Inr s))"

definition parse_address :: "pystr \<Rightarrow> (pystr \<times> pystr) fed_res" where
  "parse_address addr =
     and_then (require (count_list addr 64 = 1) (err ''address_grammar'')) (\<lambda>_.
     let agent = takeWhile (\<lambda>c. c \<noteq> 64) addr; family = drop 1 (dropWhile (\<lambda>c. c \<noteq> 64) addr) in
     and_then (require (AGENT_RE agent \<and> FAMILY_RE family \<and> length addr \<le> 65) (err ''address_grammar'')) (\<lambda>_.
     Inr (agent, family)))"

definition field :: "pystr \<Rightarrow> nat \<Rightarrow> nat \<Rightarrow> int" where
  "field s i j = digits_value (drop i (take j s))"

definition check_timestamp :: "pystr \<Rightarrow> unit fed_res" where
  "check_timestamp s =
     and_then (require (TIMESTAMP_RE s) (err ''timestamp_format'')) (\<lambda>_.
     require (1 \<le> field s 0 4 \<and> valid_ymd (field s 0 4, field s 5 7, field s 8 10) \<and>
       field s 11 13 < 24 \<and> field s 14 16 < 60 \<and> field s 17 19 < 60) (err ''timestamp_format''))"

definition check_payload :: "dict \<Rightarrow> unit fed_res" where
  "check_payload payload =
     and_then (require (lit ''text'' \<in> set (map fst payload)) (err ''missing_field'')) (\<lambda>_.
     and_then (require (list_all (\<lambda>k. k = lit ''text'') (map fst payload)) (err ''unknown_field'')) (\<lambda>_.
     case map_of payload (lit ''text'') of
       Some (JStr s) \<Rightarrow> require (length (utf8 s) \<le> TEXT_LIMIT) (err ''payload_too_long'')
     | _ \<Rightarrow> Inl (err ''value_domain'')))"

definition check_in_reply_to :: "dict \<Rightarrow> pystr \<Rightarrow> unit fed_res" where
  "check_in_reply_to ev etype =
     (if lit ''in_reply_to'' \<in> set (map fst ev) then
        and_then (require (etype = lit ''reply'') (err ''in_reply_to_disallowed'')) (\<lambda>_.
        and_then (get_matching ev ''in_reply_to'' UUID_RE ''in_reply_to_format'') (\<lambda>_. Inr ()))
      else Inr ())"

text \<open>\<open>_event_body\<close>: the fields of the event, then the envelope around it.\<close>

definition check_event :: "dict \<Rightarrow> pystr \<Rightarrow> unit fed_res" where
  "check_event ev origin =
     and_then (check_fields ev EVENT_FIELDS EVENT_REQUIRED) (\<lambda>_.
     and_then (get_matching ev ''event_id'' UUID_RE ''event_id_format'') (\<lambda>_.
     and_then (get_matching ev ''type'' (\<lambda>s. s \<in> set EVENT_TYPES) ''type_whitelist'') (\<lambda>etype.
     and_then (get_string ev (lit ''source'')) (\<lambda>source.
     and_then (parse_address source) (\<lambda>agent_family.
     and_then (require (snd agent_family = origin) (err ''source_family'')) (\<lambda>_.
     and_then (get_string ev (lit ''target'')) (\<lambda>target.
     and_then (parse_address target) (\<lambda>_.
     and_then (get_string ev (lit ''created_at'')) (\<lambda>created_at.
     and_then (check_timestamp created_at) (\<lambda>_.
     and_then (get_object ev (lit ''payload'')) (\<lambda>payload.
     and_then (check_payload payload) (\<lambda>_.
     check_in_reply_to ev etype))))))))))))"

definition event_body :: "dict \<Rightarrow> unit fed_res" where
  "event_body obj =
     and_then (get_matching obj ''origin'' FAMILY_RE ''address_grammar'') (\<lambda>origin.
     and_then (get_matching obj ''key_id'' KEY_ID_RE ''key_id_grammar'') (\<lambda>_.
     and_then (get_object obj (lit ''event'')) (\<lambda>ev. check_event ev origin)))"

definition check_receipt :: "dict \<Rightarrow> unit fed_res" where
  "check_receipt rc =
     and_then (check_fields rc RECEIPT_FIELDS RECEIPT_FIELDS) (\<lambda>_.
     and_then (get_matching rc ''event_id'' UUID_RE ''event_id_format'') (\<lambda>_.
     and_then (get_matching rc ''origin'' FAMILY_RE ''address_grammar'') (\<lambda>_.
     and_then (get_matching rc ''origin_event_sig_hash'' HEX64_RE ''hash_format'') (\<lambda>_.
     and_then (get_string rc (lit ''agent'')) (\<lambda>agent.
     and_then (parse_address agent) (\<lambda>_.
     and_then (get_matching rc ''ack_type'' (\<lambda>s. s \<in> set ACK_TYPES) ''ack_type_whitelist'') (\<lambda>_.
     and_then (get_string rc (lit ''at'')) check_timestamp)))))))"

definition receipt_body :: "dict \<Rightarrow> unit fed_res" where
  "receipt_body obj =
     and_then (get_matching obj ''issuer'' FAMILY_RE ''address_grammar'') (\<lambda>_.
     and_then (get_matching obj ''key_id'' KEY_ID_RE ''key_id_grammar'') (\<lambda>_.
     and_then (get_object obj (lit ''receipt'')) check_receipt))"

definition check_envelope :: "json \<Rightarrow> pystr \<Rightarrow> pystr list \<Rightarrow> (dict \<Rightarrow> unit fed_res) \<Rightarrow> envelope fed_res" where
  "check_envelope obj kind top_keys body_check =
     (case obj of
        JObj kvs \<Rightarrow>
          and_then (check_fields kvs top_keys top_keys) (\<lambda>_.
          and_then (require (map_of kvs (lit ''kind'') = Some (JStr kind)) (err ''kind_mismatch'')) (\<lambda>_.
          and_then (body_check kvs) (\<lambda>_.
          case map_of kvs (lit ''sig'') of
            Some (JStr sig) \<Rightarrow>
              and_then (decode_strict (JStr sig) 64 ''signature_length'' ''schema'') (\<lambda>sig_bytes.
              Inr \<lparr>env_kind = kind, env_signed = filter (\<lambda>(k, v). k \<noteq> lit ''sig'') kvs,
                   env_sig_str = sig, env_sig = sig_bytes\<rparr>)
          | _ \<Rightarrow> Inl (err ''value_domain''))))
      | _ \<Rightarrow> Inl (err ''value_domain''))"

definition validate_event_envelope :: "json \<Rightarrow> envelope fed_res" where
  "validate_event_envelope obj = check_envelope obj EVENT_KIND EVENT_TOP event_body"

definition validate_receipt_envelope :: "json \<Rightarrow> envelope fed_res" where
  "validate_receipt_envelope obj = check_envelope obj RECEIPT_KIND RECEIPT_TOP receipt_body"

definition parse_event :: "bytes \<Rightarrow> envelope fed_res" where
  "parse_event raw = and_then (check_body_size raw) (\<lambda>_. and_then (parse_strict raw) validate_event_envelope)"

definition parse_receipt :: "bytes \<Rightarrow> envelope fed_res" where
  "parse_receipt raw = and_then (check_body_size raw) (\<lambda>_. and_then (parse_strict raw) validate_receipt_envelope)"

section \<open>The envelopes a sender builds\<close>

text \<open>The parts of an event; the source is an agent of the origin family.\<close>

record event_parts =
  ep_origin :: pystr
  ep_key_id :: pystr
  ep_event_id :: pystr
  ep_type :: pystr
  ep_source_local :: pystr
  ep_target :: pystr
  ep_created_at :: pystr
  ep_text :: pystr
  ep_in_reply_to :: "pystr option"

definition event_items :: "event_parts \<Rightarrow> dict" where
  "event_items p =
     [(lit ''event_id'', JStr (ep_event_id p)), (lit ''type'', JStr (ep_type p)),
      (lit ''source'', JStr (ep_source_local p @ 64 # ep_origin p)), (lit ''target'', JStr (ep_target p)),
      (lit ''created_at'', JStr (ep_created_at p)), (lit ''payload'', JObj [(lit ''text'', JStr (ep_text p))])] @
     (case ep_in_reply_to p of None \<Rightarrow> [] | Some r \<Rightarrow> [(lit ''in_reply_to'', JStr r)])"

text \<open>The dictionary \<open>signed\<close> of \<open>compose_event\<close>, and the envelope with its signature.\<close>

definition signed_event :: "event_parts \<Rightarrow> dict" where
  "signed_event p =
     [(lit ''kind'', JStr EVENT_KIND), (lit ''origin'', JStr (ep_origin p)),
      (lit ''key_id'', JStr (ep_key_id p)), (lit ''event'', JObj (event_items p))]"

definition with_sig :: "dict \<Rightarrow> bytes \<Rightarrow> json" where
  "with_sig signed_obj sig = JObj (signed_obj @ [(lit ''sig'', JStr (encode sig))])"

definition address_ok :: "pystr \<Rightarrow> bool" where
  "address_ok addr = (\<exists>agent family. addr = agent @ 64 # family \<and> AGENT_RE agent \<and> FAMILY_RE family)"

definition timestamp_ok :: "pystr \<Rightarrow> bool" where
  "timestamp_ok s = (check_timestamp s = Inr ())"

definition event_parts_ok :: "event_parts \<Rightarrow> bool" where
  "event_parts_ok p =
     (FAMILY_RE (ep_origin p) \<and> KEY_ID_RE (ep_key_id p) \<and> UUID_RE (ep_event_id p) \<and>
      ep_type p \<in> {lit ''message'', lit ''reply''} \<and> AGENT_RE (ep_source_local p) \<and>
      address_ok (ep_target p) \<and> timestamp_ok (ep_created_at p) \<and>
      list_all scalar (ep_text p) \<and> length (utf8 (ep_text p)) \<le> TEXT_LIMIT \<and>
      (case ep_in_reply_to p of None \<Rightarrow> True | Some r \<Rightarrow> ep_type p = lit ''reply'' \<and> UUID_RE r))"

section \<open>Addresses\<close>

lemma grammar_no_at: "AGENT_RE s \<Longrightarrow> 64 \<notin> set s" "FAMILY_RE s \<Longrightarrow> 64 \<notin> set s"
  by (auto simp: AGENT_RE_def FAMILY_RE_def list_all_iff is_lower_def is_digit_def)

lemma parse_address_Inr:
  "parse_address addr = Inr (agent, family) \<longleftrightarrow> addr = agent @ 64 # family \<and> AGENT_RE agent \<and> FAMILY_RE family"
proof
  assume L: "parse_address addr = Inr (agent, family)"
  then have c: "count_list addr 64 = 1" and a: "agent = takeWhile (\<lambda>c. c \<noteq> 64) addr"
      and f: "family = drop 1 (dropWhile (\<lambda>c. c \<noteq> 64) addr)" and g: "AGENT_RE agent" "FAMILY_RE family"
    by (auto simp: parse_address_def and_then_Inr Let_def)
  have "64 \<in> set addr" using c by (metis count_notin zero_neq_one)
  then have "dropWhile (\<lambda>c. c \<noteq> 64) addr \<noteq> []" by (simp add: dropWhile_eq_Nil_conv)
  then have "dropWhile (\<lambda>c. c \<noteq> 64) addr = 64 # family"
    unfolding f using hd_dropWhile [of "\<lambda>c. c \<noteq> 64" addr] by (cases "dropWhile (\<lambda>c. c \<noteq> 64) addr") auto
  then have "addr = agent @ 64 # family" unfolding a by (metis takeWhile_dropWhile_id)
  with g show "addr = agent @ 64 # family \<and> AGENT_RE agent \<and> FAMILY_RE family" by simp
next
  assume R: "addr = agent @ 64 # family \<and> AGENT_RE agent \<and> FAMILY_RE family"
  note no_at = grammar_no_at(1) [of agent] grammar_no_at(2) [of family]
  have "takeWhile (\<lambda>c. c \<noteq> 64) addr = agent" "dropWhile (\<lambda>c. c \<noteq> 64) addr = 64 # family"
    using R no_at by (auto simp: takeWhile_append dropWhile_append)
  moreover have "count_list addr 64 = 1" using R no_at by (simp add: count_list_0_iff)
  moreover have "length addr \<le> 65" using R by (auto simp: AGENT_RE_def FAMILY_RE_def)
  ultimately show "parse_address addr = Inr (agent, family)"
    using R by (simp add: parse_address_def)
qed

lemma parse_address_ok: "(\<exists>x. parse_address addr = Inr x) \<longleftrightarrow> address_ok addr"
  by (auto simp: parse_address_Inr address_ok_def)

section \<open>The checks do not depend on the order of the keys\<close>

definition sorted_dict :: "dict \<Rightarrow> dict" where
  "sorted_dict kvs = sort_key fst (map (apsnd sort_keys) kvs)"

lemma sort_keys_JObj: "sort_keys (JObj kvs) = JObj (sorted_dict kvs)"
  by (simp add: sorted_dict_def sort_keys_items_map)

lemma keys_sorted_dict: "set (map fst (sorted_dict kvs)) = set (map fst kvs)"
  by (force simp: sorted_dict_def)

lemma map_of_sort_key:
  assumes "distinct (map fst kvs)"
  shows "map_of (sort_key f kvs) = map_of kvs"
  using assms by (intro map_of_inject_set [THEN iffD2]) (simp_all add: distinct_keys_sort)

lemma map_of_sorted_dict:
  assumes "distinct (map fst kvs)"
  shows "map_of (sorted_dict kvs) k = map_option sort_keys (map_of kvs k)"
proof -
  have "map_of (sorted_dict kvs) = map_of (map (apsnd sort_keys) kvs)"
    unfolding sorted_dict_def using assms by (intro map_of_sort_key) simp
  then show ?thesis by (simp add: apsnd_def map_prod_def map_of_map)
qed

lemma sort_keys_leaf [simp]:
  "sort_keys v = JNull \<longleftrightarrow> v = JNull" "sort_keys v = JStr s \<longleftrightarrow> v = JStr s"
  by (cases v; simp)+

lemma get_sorted_dict: "distinct (map fst kvs) \<Longrightarrow> get (sorted_dict kvs) k = map_option sort_keys (get kvs k)"
  by (auto simp: get_def map_of_sorted_dict split: option.split json.split)

lemma get_string_sorted: "distinct (map fst kvs) \<Longrightarrow> get_string (sorted_dict kvs) k = get_string kvs k"
  by (auto simp: get_string_def get_sorted_dict split: option.split json.split)

lemma get_matching_sorted: "distinct (map fst kvs) \<Longrightarrow> get_matching (sorted_dict kvs) k rx c = get_matching kvs k rx c"
  by (simp add: get_matching_def get_string_sorted)

lemma get_object_sorted:
  "distinct (map fst kvs) \<Longrightarrow> get_object (sorted_dict kvs) k = map_sum id sorted_dict (get_object kvs k)"
  by (auto simp: get_object_def get_sorted_dict sort_keys_JObj simp del: sort_keys.simps(2) split: option.split json.split)

lemma check_fields_sorted: "check_fields (sorted_dict kvs) a r = check_fields kvs a r"
  using keys_sorted_dict [of kvs] by (simp add: check_fields_def list_all_iff)

lemma check_payload_sorted: "distinct (map fst kvs) \<Longrightarrow> check_payload (sorted_dict kvs) = check_payload kvs"
  using keys_sorted_dict [of kvs]
  by (auto simp: check_payload_def list_all_iff map_of_sorted_dict split: option.split json.split)

lemma check_in_reply_to_sorted:
  "distinct (map fst kvs) \<Longrightarrow> check_in_reply_to (sorted_dict kvs) t = check_in_reply_to kvs t"
  using keys_sorted_dict [of kvs] by (simp add: check_in_reply_to_def get_matching_sorted)

lemma clean_get_object:
  assumes "clean (JObj kvs)" "get_object kvs k = Inr obj"
  shows "clean (JObj obj)"
proof -
  have "map_of kvs k = Some (JObj obj)"
    using assms(2) by (auto simp: get_object_def get_def split: option.splits json.splits)
  then show ?thesis using clean_JObjD [OF assms(1) map_of_SomeD] by blast
qed

lemma and_then_cong: "m = m' \<Longrightarrow> (\<And>x. m' = Inr x \<Longrightarrow> f x = f' x) \<Longrightarrow> and_then m f = and_then m' f'"
  by (cases m') auto

lemma and_then_map: "and_then (map_sum id g m) f = and_then m (\<lambda>x. f (g x))"
  by (cases m) auto

lemma clean_distinct: "clean (JObj kvs) \<Longrightarrow> distinct (map fst kvs)"
  by simp

lemmas sorted_simps = get_matching_sorted get_string_sorted get_object_sorted check_in_reply_to_sorted

lemma check_event_sorted:
  assumes "clean (JObj ev)"
  shows "check_event (sorted_dict ev) origin = check_event ev origin"
  unfolding check_event_def sorted_simps [OF clean_distinct [OF assms]] check_fields_sorted and_then_map
  by (intro and_then_cong refl arg_cong [where f = "\<lambda>m. and_then m _"] prod.case_cong check_payload_sorted
      clean_distinct [OF clean_get_object [OF assms]]) assumption

lemma event_body_sorted:
  assumes "clean (JObj kvs)"
  shows "event_body (sorted_dict kvs) = event_body kvs"
  unfolding event_body_def sorted_simps [OF clean_distinct [OF assms]] and_then_map
  by (intro and_then_cong refl check_event_sorted clean_get_object [OF assms])

lemma receipt_body_sorted:
  assumes "clean (JObj kvs)"
  shows "receipt_body (sorted_dict kvs) = receipt_body kvs"
proof -
  have inner: "check_receipt (sorted_dict rc) = check_receipt rc" if "clean (JObj rc)" for rc
    unfolding check_receipt_def sorted_simps [OF clean_distinct [OF that]] check_fields_sorted ..
  show ?thesis
    unfolding receipt_body_def sorted_simps [OF clean_distinct [OF assms]] and_then_map
    by (intro and_then_cong refl inner clean_get_object [OF assms])
qed

lemma filter_sorted_dict:
  "filter (\<lambda>(k, v). P k) (sorted_dict kvs) = sorted_dict (filter (\<lambda>(k, v). P k) kvs)"
  by (simp add: sorted_dict_def filter_sort filter_map comp_def case_prod_unfold)

lemma check_envelope_sorted:
  assumes "clean (JObj kvs)" "body (sorted_dict kvs) = body kvs"
  shows "check_envelope (JObj (sorted_dict kvs)) kind tops body =
    map_sum id (\<lambda>e. e\<lparr>env_signed := sorted_dict (env_signed e)\<rparr>) (check_envelope (JObj kvs) kind tops body)"
proof -
  have sig: "map_of (sorted_dict kvs) k = Some (JStr s) \<longleftrightarrow> map_of kvs k = Some (JStr s)" for k s
    using map_of_sorted_dict [OF clean_distinct [OF assms(1)], of k] by (cases "map_of kvs k") auto
  note kind = sig [of "lit ''kind''"]
  show ?thesis
  proof (cases "\<exists>s. map_of kvs (lit ''sig'') = Some (JStr s)")
    case True
    then obtain s where s: "map_of kvs (lit ''sig'') = Some (JStr s)" by blast
    have "map_of (sorted_dict kvs) (lit ''sig'') = Some (JStr s)" using s by (simp only: sig)
    with s show ?thesis
      by (simp add: check_envelope_def check_fields_sorted kind assms(2) filter_sorted_dict [of "\<lambda>k. k \<noteq> lit ''sig''"]
          and_then_def require_def split: sum.split)
  next
    case False
    then have "map_of (sorted_dict kvs) (lit ''sig'') \<noteq> Some (JStr s)" for s using sig by blast
    with False show ?thesis
      by (auto simp: check_envelope_def check_fields_sorted kind assms(2) and_then_def require_def
          split: sum.split option.split json.split)
  qed
qed

lemma signed_bytes_sorted:
  assumes "clean (JObj (env_signed e))"
  shows "signed_bytes (e\<lparr>env_signed := sorted_dict (env_signed e)\<rparr>) = signed_bytes e"
proof -
  have "canonical_bytes (sort_keys (JObj (env_signed e))) = canonical_bytes (JObj (env_signed e))"
    unfolding canonical_bytes_def dumps_def sort_keys_idem [OF assms] by (rule refl)
  then show ?thesis by (simp add: signed_bytes_def sort_keys_JObj del: sort_keys.simps)
qed

section \<open>What a sender builds is accepted\<close>

lemma lit_neq: "s \<noteq> t \<Longrightarrow> lit s \<noteq> lit t"
  by simp

lemma event_items_check:
  assumes "event_parts_ok p"
  shows "check_event (event_items p) (ep_origin p) = Inr ()"
proof -
  have src: "parse_address (ep_source_local p @ 64 # ep_origin p) = Inr (ep_source_local p, ep_origin p)"
    using assms by (simp add: parse_address_Inr event_parts_ok_def)
  obtain a f where tgt: "parse_address (ep_target p) = Inr (a, f)"
    using assms by (auto simp: parse_address_Inr event_parts_ok_def address_ok_def)
  show ?thesis
    using assms src tgt
    by (cases "ep_in_reply_to p")
       (auto simp: check_event_def event_items_def check_fields_def EVENT_FIELDS_def EVENT_REQUIRED_def
        get_matching_def get_string_def get_object_def get_def event_parts_ok_def EVENT_TYPES_def timestamp_ok_def
        check_payload_def check_in_reply_to_def)
qed

lemma validate_with_sig:
  assumes "event_parts_ok p" "is_bytes sig" "length sig = 64"
  shows "validate_event_envelope (with_sig (signed_event p) sig) =
    Inr \<lparr>env_kind = EVENT_KIND, env_signed = signed_event p, env_sig_str = encode sig, env_sig = sig\<rparr>"
proof -
  have "decode_strict (JStr (encode sig)) 64 ''signature_length'' ''schema'' = Inr sig"
    using assms by (subst decode_strict_encode) auto
  moreover have "event_body (signed_event p @ [(lit ''sig'', JStr (encode sig))]) = Inr ()"
    using assms(1) event_items_check [OF assms(1)]
    by (simp add: event_body_def signed_event_def get_matching_def get_string_def get_object_def get_def event_parts_ok_def)
  ultimately show ?thesis
    by (simp add: validate_event_envelope_def check_envelope_def with_sig_def check_fields_def EVENT_TOP_def signed_event_def)
qed

section \<open>What is accepted is what a sender can build\<close>

lemma sorted_dict_eqI:
  assumes "distinct (map fst kvs)" "distinct (map fst ys)" "set (map fst kvs) = set (map fst ys)"
    and "\<And>k v. (k, v) \<in> set ys \<Longrightarrow> \<exists>v'. map_of kvs k = Some v' \<and> sort_keys v' = sort_keys v"
  shows "sorted_dict kvs = sorted_dict ys"
proof -
  have "set (map (apsnd sort_keys) ys) \<subseteq> set (map (apsnd sort_keys) kvs)"
  proof
    fix x assume "x \<in> set (map (apsnd sort_keys) ys)"
    then obtain k v where x: "x = (k, sort_keys v)" "(k, v) \<in> set ys" by auto
    then obtain v' where "(k, v') \<in> set kvs" "sort_keys v' = sort_keys v" using assms(4) map_of_SomeD by metis
    then show "x \<in> set (map (apsnd sort_keys) kvs)" unfolding x(1) by (auto intro: image_eqI [of _ _ "(k, v')"])
  qed
  moreover have "length ys = length kvs" using assms(1-3) by (metis distinct_card length_map)
  ultimately have "sort_key fst (map (apsnd sort_keys) ys) = sort_key fst (map (apsnd sort_keys) kvs)"
    using same_sorted_items [of "map (apsnd sort_keys) ys" "map (apsnd sort_keys) kvs"] assms(1,2) by simp
  then show ?thesis by (simp add: sorted_dict_def)
qed

lemma get_string_Inr: "get_string kvs k = Inr s \<longleftrightarrow> map_of kvs k = Some (JStr s)"
  by (auto simp: get_string_def get_def split: option.splits json.splits)

lemma get_object_Inr: "get_object kvs k = Inr obj \<longleftrightarrow> map_of kvs k = Some (JObj obj)"
  by (auto simp: get_object_def get_def split: option.splits json.splits)

lemma get_matching_Inr: "get_matching kvs k rx c = Inr s \<longleftrightarrow> map_of kvs (lit k) = Some (JStr s) \<and> rx s"
  by (auto simp: get_matching_def and_then_Inr get_string_Inr)

lemma check_fields_Inr:
  "check_fields kvs allowed required = Inr u \<longleftrightarrow>
     set (map fst kvs) \<subseteq> set allowed \<and> set required \<subseteq> set (map fst kvs)"
  by (auto simp: check_fields_def and_then_Inr list_all_iff)

lemma check_payload_Inr:
  "check_payload kvs = Inr u \<longleftrightarrow> set (map fst kvs) = {lit ''text''} \<and>
     (\<exists>s. map_of kvs (lit ''text'') = Some (JStr s) \<and> length (utf8 s) \<le> TEXT_LIMIT)"
  by (auto simp: check_payload_def and_then_Inr list_all_iff split: option.splits json.splits)

lemma check_in_reply_to_Inr:
  "check_in_reply_to kvs t = Inr u \<longleftrightarrow>
     (lit ''in_reply_to'' \<in> set (map fst kvs) \<longrightarrow>
        t = lit ''reply'' \<and> (\<exists>r. map_of kvs (lit ''in_reply_to'') = Some (JStr r) \<and> UUID_RE r))"
  by (auto simp: check_in_reply_to_def and_then_Inr get_matching_Inr)

lemma check_event_Inr:
  assumes "check_event ev origin = Inr ()"
  obtains event_id etype agent target created_at payload s where
    "set (map fst ev) \<subseteq> set EVENT_FIELDS" "set EVENT_REQUIRED \<subseteq> set (map fst ev)"
    "map_of ev (lit ''event_id'') = Some (JStr event_id)" "UUID_RE event_id"
    "map_of ev (lit ''type'') = Some (JStr etype)" "etype \<in> set EVENT_TYPES"
    "map_of ev (lit ''source'') = Some (JStr (agent @ 64 # origin))" "AGENT_RE agent"
    "map_of ev (lit ''target'') = Some (JStr target)" "address_ok target"
    "map_of ev (lit ''created_at'') = Some (JStr created_at)" "timestamp_ok created_at"
    "map_of ev (lit ''payload'') = Some (JObj payload)"
    "set (map fst payload) = {lit ''text''}" "map_of payload (lit ''text'') = Some (JStr s)"
    "length (utf8 s) \<le> TEXT_LIMIT"
    "lit ''in_reply_to'' \<in> set (map fst ev) \<longrightarrow>
        etype = lit ''reply'' \<and> (\<exists>r. map_of ev (lit ''in_reply_to'') = Some (JStr r) \<and> UUID_RE r)"
proof -
  from assms obtain x event_id etype source af r target y created_at u payload w
    where h: "check_fields ev EVENT_FIELDS EVENT_REQUIRED = Inr x"
      "get_matching ev ''event_id'' UUID_RE ''event_id_format'' = Inr event_id"
      "get_matching ev ''type'' (\<lambda>s. s \<in> set EVENT_TYPES) ''type_whitelist'' = Inr etype"
      "get_string ev (lit ''source'') = Inr source" "parse_address source = Inr af"
      "require (snd af = origin) (err ''source_family'') = Inr r"
      "get_string ev (lit ''target'') = Inr target" "parse_address target = Inr y"
      "get_string ev (lit ''created_at'') = Inr created_at" "check_timestamp created_at = Inr u"
      "get_object ev (lit ''payload'') = Inr payload" "check_payload payload = Inr w"
      "check_in_reply_to ev etype = Inr ()"
    unfolding check_event_def by (elim and_thenE) (rule that; assumption)
  obtain a where af: "af = (a, origin)" using h(6) by (cases af) simp
  have "set (map fst ev) \<subseteq> set EVENT_FIELDS \<and> set EVENT_REQUIRED \<subseteq> set (map fst ev)"
    using h(1) unfolding check_fields_Inr .
  moreover have "source = a @ 64 # origin" "AGENT_RE a" using h(5) unfolding af by (simp_all add: parse_address_Inr)
  moreover have "address_ok target" using h(8) parse_address_ok by blast
  moreover obtain s where "set (map fst payload) = {lit ''text''}" "map_of payload (lit ''text'') = Some (JStr s)"
      "length (utf8 s) \<le> TEXT_LIMIT"
    using h(12) unfolding check_payload_Inr by blast
  ultimately show thesis
    using h(2-4,7,9-11,13) unfolding get_matching_Inr get_string_Inr get_object_Inr check_in_reply_to_Inr
    by (intro that [of event_id etype a target created_at payload s]) (simp_all add: timestamp_ok_def)
qed

lemma decode_strict_InrD:
  assumes "decode_strict (JStr s) n cat layer = Inr bs"
  shows "s = encode bs" "is_bytes bs" "length bs = n"
proof -
  obtain cs where cs: "is_bytes cs" "cs \<noteq> []" "s = encode cs"
    using decode_strict_other [of "JStr s" n cat layer] assms by auto
  then have "cs = bs" "length bs = n" using assms by (auto simp: decode_strict_encode split: if_splits)
  with cs show "s = encode bs" "is_bytes bs" "length bs = n" by simp_all
qed

lemma map_of_cleanD: "clean (JObj kvs) \<Longrightarrow> map_of kvs k = Some v \<Longrightarrow> clean v"
  using clean_JObjD map_of_SomeD by metis

lemma optional_key:
  "K \<subseteq> insert a R \<Longrightarrow> R \<subseteq> K \<Longrightarrow> a \<in> K \<Longrightarrow> K = insert a R"
  "K \<subseteq> insert a R \<Longrightarrow> R \<subseteq> K \<Longrightarrow> a \<notin> K \<Longrightarrow> K = R"
  by blast+

lemma check_event_shape:
  assumes "clean (JObj ev)" "check_event ev origin = Inr ()" "FAMILY_RE origin" "KEY_ID_RE key_id"
  obtains p where "event_parts_ok p" "ep_origin p = origin" "ep_key_id p = key_id"
    "sorted_dict ev = sorted_dict (event_items p)"
proof -
  from assms(2) obtain event_id etype agent target created_at payload s where
    ev: "set (map fst ev) \<subseteq> set EVENT_FIELDS" "set EVENT_REQUIRED \<subseteq> set (map fst ev)"
    "map_of ev (lit ''event_id'') = Some (JStr event_id)" "UUID_RE event_id"
    "map_of ev (lit ''type'') = Some (JStr etype)" "etype \<in> set EVENT_TYPES"
    "map_of ev (lit ''source'') = Some (JStr (agent @ 64 # origin))" "AGENT_RE agent"
    "map_of ev (lit ''target'') = Some (JStr target)" "address_ok target"
    "map_of ev (lit ''created_at'') = Some (JStr created_at)" "timestamp_ok created_at"
    "map_of ev (lit ''payload'') = Some (JObj payload)"
    "set (map fst payload) = {lit ''text''}" "map_of payload (lit ''text'') = Some (JStr s)"
    "length (utf8 s) \<le> TEXT_LIMIT"
    "lit ''in_reply_to'' \<in> set (map fst ev) \<longrightarrow>
        etype = lit ''reply'' \<and> (\<exists>r. map_of ev (lit ''in_reply_to'') = Some (JStr r) \<and> UUID_RE r)"
    by (rule check_event_Inr)
  have payload: "clean (JObj payload)" using map_of_cleanD [OF assms(1) ev(13)] .
  have "clean (JStr s)" using map_of_cleanD [OF payload ev(15)] .
  have reply: "lit ''in_reply_to'' \<in> set (map fst ev) \<longleftrightarrow> map_of ev (lit ''in_reply_to'') \<noteq> None"
    by (simp add: map_of_eq_None_iff)
  define p where "p = \<lparr>ep_origin = origin, ep_key_id = key_id, ep_event_id = event_id, ep_type = etype,
    ep_source_local = agent, ep_target = target, ep_created_at = created_at, ep_text = s,
    ep_in_reply_to = (case map_of ev (lit ''in_reply_to'') of Some (JStr r) \<Rightarrow> Some r | _ \<Rightarrow> None)\<rparr>"
  have ok: "event_parts_ok p"
    using assms(3,4) ev(4,6,8,10,12,16,17) \<open>clean (JStr s)\<close> reply
    by (auto simp: event_parts_ok_def p_def EVENT_TYPES_def split: option.splits json.splits)
  have "sorted_dict payload = sorted_dict [(lit ''text'', JStr s)]"
    using clean_distinct [OF payload] ev(14,15) by (intro sorted_dict_eqI) auto
  then have pl: "sort_keys (JObj payload) = sort_keys (JObj [(lit ''text'', JStr s)])"
    by (simp add: sort_keys_JObj del: sort_keys.simps)
  have fields: "set EVENT_FIELDS = insert (lit ''in_reply_to'') (set EVENT_REQUIRED)"
    by (simp add: EVENT_FIELDS_def)
  have keys: "set (map fst ev) = set (map fst (event_items p))"
  proof (cases "lit ''in_reply_to'' \<in> set (map fst ev)")
    case True
    then have "set (map fst (event_items p)) = set EVENT_FIELDS"
      using ev(17) by (auto simp: event_items_def p_def EVENT_FIELDS_def EVENT_REQUIRED_def)
    moreover have "set (map fst ev) = set EVENT_FIELDS"
      unfolding fields by (rule optional_key(1) [OF ev(1) [unfolded fields] ev(2) True])
    ultimately show ?thesis by simp
  next
    case False
    then have "set (map fst (event_items p)) = set EVENT_REQUIRED"
      using reply by (auto simp: event_items_def p_def EVENT_REQUIRED_def)
    moreover have "set (map fst ev) = set EVENT_REQUIRED"
      by (rule optional_key(2) [OF ev(1) [unfolded fields] ev(2) False])
    ultimately show ?thesis by simp
  qed
  have "sorted_dict ev = sorted_dict (event_items p)"
  proof (rule sorted_dict_eqI [OF clean_distinct [OF assms(1)] _ keys])
    show "distinct (map fst (event_items p))" by (simp add: event_items_def split: option.split)
    show "\<exists>v'. map_of ev k = Some v' \<and> sort_keys v' = sort_keys v" if "(k, v) \<in> set (event_items p)" for k v
      using that ev(3,5,7,9,11,13) pl
      by (auto simp: event_items_def p_def split: option.splits json.splits)
  qed
  with ok show thesis by (intro that [of p]) (simp_all add: p_def)
qed

lemma validate_event_shape:
  assumes "clean v" "validate_event_envelope v = Inr env"
  obtains p sig where "event_parts_ok p" "is_bytes sig" "length sig = 64"
    "sort_keys v = sort_keys (with_sig (signed_event p) sig)"
proof -
  obtain kvs where v: "v = JObj kvs"
    using assms(2) by (cases v) (auto simp: validate_event_envelope_def check_envelope_def)
  then obtain s sig where top: "check_fields kvs EVENT_TOP EVENT_TOP = Inr ()"
      "map_of kvs (lit ''kind'') = Some (JStr EVENT_KIND)" "event_body kvs = Inr ()"
      "map_of kvs (lit ''sig'') = Some (JStr s)" "decode_strict (JStr s) 64 ''signature_length'' ''schema'' = Inr sig"
    using assms(2)
    by (auto simp: validate_event_envelope_def check_envelope_def and_then_Inr split: option.splits json.splits)
  from top(3) obtain origin key_id ev where body:
      "map_of kvs (lit ''origin'') = Some (JStr origin)" "FAMILY_RE origin"
      "map_of kvs (lit ''key_id'') = Some (JStr key_id)" "KEY_ID_RE key_id"
      "map_of kvs (lit ''event'') = Some (JObj ev)" "check_event ev origin = Inr ()"
    by (auto simp: event_body_def and_then_Inr get_matching_Inr get_object_Inr)
  have cl: "clean (JObj kvs)" using assms(1) v by simp
  from check_event_shape [OF map_of_cleanD [OF cl body(5)] body(6,2,4)] obtain p where p:
      "event_parts_ok p" "ep_origin p = origin" "ep_key_id p = key_id" "sorted_dict ev = sorted_dict (event_items p)"
    by blast
  note sig = decode_strict_InrD [OF top(5)]
  have ev: "sort_keys (JObj ev) = sort_keys (JObj (event_items p))" using p(4) by (simp only: sort_keys_JObj)
  have "sorted_dict kvs = sorted_dict (signed_event p @ [(lit ''sig'', JStr (encode sig))])"
  proof (rule sorted_dict_eqI [OF clean_distinct [OF cl]])
    show "distinct (map fst (signed_event p @ [(lit ''sig'', JStr (encode sig))]))"
      by (simp add: signed_event_def)
    show "set (map fst kvs) = set (map fst (signed_event p @ [(lit ''sig'', JStr (encode sig))]))"
      using top(1) unfolding check_fields_Inr by (simp add: signed_event_def EVENT_TOP_def set_eq_subset)
    show "\<exists>v'. map_of kvs k = Some v' \<and> sort_keys v' = sort_keys v"
      if "(k, v) \<in> set (signed_event p @ [(lit ''sig'', JStr (encode sig))])" for k v
      using that body(1,3,5) top(2,4) p(2,3) ev sig(1)
      by (auto simp: signed_event_def simp del: sort_keys.simps(2))
  qed
  then have "sort_keys v = sort_keys (with_sig (signed_event p) sig)"
    by (simp only: v with_sig_def sort_keys_JObj)
  with p(1) sig(2,3) show thesis by (rule that)
qed

section \<open>Built envelopes are in the domain\<close>

lemma ascii_scalar: "(\<And>c. c \<in> set s \<Longrightarrow> 0 \<le> c \<and> c < 128) \<Longrightarrow> list_all scalar s"
  by (force simp: list_all_iff scalar_def)

lemma all_nth_range: "list_all P [0..<n] \<Longrightarrow> length s = n \<Longrightarrow> (\<And>i. i < n \<Longrightarrow> P i \<Longrightarrow> Q (s ! i)) \<Longrightarrow> c \<in> set s \<Longrightarrow> Q c"
  by (auto simp: list_all_iff in_set_conv_nth)

lemma grammar_scalar:
  "FAMILY_RE s \<Longrightarrow> list_all scalar s" "AGENT_RE s \<Longrightarrow> list_all scalar s" "KEY_ID_RE s \<Longrightarrow> list_all scalar s"
  by (rule ascii_scalar; auto simp: FAMILY_RE_def AGENT_RE_def KEY_ID_RE_def list_all_iff is_lower_def is_upper_def is_digit_def)+

lemma uuid_scalar: "UUID_RE s \<Longrightarrow> list_all scalar s"
proof (rule ascii_scalar)
  fix c assume "UUID_RE s" "c \<in> set s"
  then show "0 \<le> c \<and> c < 128"
    unfolding UUID_RE_def
    by (elim conjE all_nth_range) (auto simp: is_hex_def is_digit_def split: if_splits)
qed

lemma timestamp_scalar: "timestamp_ok s \<Longrightarrow> list_all scalar s"
proof (rule ascii_scalar)
  fix c assume "timestamp_ok s" "c \<in> set s"
  then have "TIMESTAMP_RE s" "c \<in> set s" by (auto simp: timestamp_ok_def check_timestamp_def and_then_Inr)
  then show "0 \<le> c \<and> c < 128"
    unfolding TIMESTAMP_RE_def
    by (elim conjE all_nth_range) (auto simp: is_digit_def split: if_splits)
qed

lemma address_scalar: "address_ok s \<Longrightarrow> list_all scalar s"
  by (auto simp: address_ok_def grammar_scalar scalar_def [of 64])

lemma encode_scalar: "is_bytes bs \<Longrightarrow> list_all scalar (encode bs)"
proof (rule ascii_scalar)
  fix c assume "is_bytes bs" "c \<in> set (encode bs)"
  then have "B64_VAL c \<noteq> None" by (rule encode_chars)
  then show "0 \<le> c \<and> c < 128" unfolding alphabet_class by auto
qed

lemma of_char_nonneg: "0 \<le> (of_char c :: int)"
  by (metis of_nat_0_le_iff of_nat_of_char)

lemma lit_scalar: "list_all (\<lambda>c. of_char c < (128 :: int)) s \<Longrightarrow> list_all scalar (lit s)"
  by (induction s) (auto simp: lit_def scalar_def of_char_nonneg)

lemma clean_with_sig:
  assumes "event_parts_ok p" "is_bytes sig"
  shows "clean (with_sig (signed_event p) sig)"
proof -
  have "list_all scalar (ep_type p)" "list_all scalar EVENT_KIND"
    using assms(1) by (auto simp: event_parts_ok_def EVENT_KIND_def intro!: lit_scalar)
  then show ?thesis
    using assms(1) encode_scalar [OF assms(2)]
    by (auto simp: with_sig_def signed_event_def event_items_def event_parts_ok_def grammar_scalar uuid_scalar
        timestamp_scalar address_scalar scalar_def [of 64] clean_items_all KEY_RE_def lit_def split: option.splits)
qed

section \<open>Guarantees\<close>

lemma validate_event_sorted:
  assumes "clean (JObj kvs)"
  shows "validate_event_envelope (sort_keys (JObj kvs)) =
    map_sum id (\<lambda>e. e\<lparr>env_signed := sorted_dict (env_signed e)\<rparr>) (validate_event_envelope (JObj kvs))"
  unfolding validate_event_envelope_def sort_keys_JObj
  by (rule check_envelope_sorted [OF assms event_body_sorted [OF assms]])

lemma validate_event_order:
  assumes "clean v" "clean w" "sort_keys v = sort_keys w" "validate_event_envelope w = Inr env"
  shows "\<exists>env. validate_event_envelope v = Inr env"
proof -
  obtain ws where w: "w = JObj ws"
    using assms(4) by (cases w) (auto simp: validate_event_envelope_def check_envelope_def)
  obtain vs where v: "v = JObj vs" using assms(3) w by (cases v) auto
  let ?f = "map_sum id (\<lambda>e. e\<lparr>env_signed := sorted_dict (env_signed e)\<rparr>)"
  have "validate_event_envelope (sort_keys v) = ?f (validate_event_envelope v)"
    using assms(1) unfolding v by (rule validate_event_sorted)
  moreover have "validate_event_envelope (sort_keys w) = ?f (validate_event_envelope w)"
    using assms(2) unfolding w by (rule validate_event_sorted)
  ultimately have "?f (validate_event_envelope v) = ?f (Inr env)" unfolding assms(3,4) by (rule trans [OF sym])
  then show ?thesis by (cases "validate_event_envelope v") simp_all
qed

text \<open>
  C29: the schema accepts exactly the envelopes a sender can build.  An object of the protocol
  domain passes \<open>validate_event_envelope\<close> if and only if it is, up to the order of its keys, the
  envelope that \<open>compose_event\<close> builds from some well-formed parts (an agent of the origin family
  as source, a message or a reply, a text of at most 8192 bytes, a reply link only in a reply,
  real calendar times) and a signature of 64 bytes in canonical base64url: no field can be
  added, omitted, renamed or given another shape.
\<close>

theorem event_schema_exact:
  assumes "clean v"
  shows "(\<exists>env. validate_event_envelope v = Inr env) \<longleftrightarrow>
    (\<exists>p sig. event_parts_ok p \<and> is_bytes sig \<and> length sig = 64 \<and> py_eq v (with_sig (signed_event p) sig))"
proof
  assume "\<exists>env. validate_event_envelope v = Inr env"
  then obtain env where "validate_event_envelope v = Inr env" by blast
  with assms obtain p sig where p: "event_parts_ok p" "is_bytes sig" "length sig = 64"
      "sort_keys v = sort_keys (with_sig (signed_event p) sig)"
    by (rule validate_event_shape)
  then show "\<exists>p sig. event_parts_ok p \<and> is_bytes sig \<and> length sig = 64 \<and> py_eq v (with_sig (signed_event p) sig)"
    using py_eq_iff_sort_keys [OF assms clean_with_sig [OF p(1,2)]] by blast
next
  assume "\<exists>p sig. event_parts_ok p \<and> is_bytes sig \<and> length sig = 64 \<and> py_eq v (with_sig (signed_event p) sig)"
  then obtain p sig where p: "event_parts_ok p" "is_bytes sig" "length sig = 64" "py_eq v (with_sig (signed_event p) sig)"
    by blast
  have cl: "clean (with_sig (signed_event p) sig)" using p(1,2) by (rule clean_with_sig)
  show "\<exists>env. validate_event_envelope v = Inr env"
    using validate_event_order [OF assms cl _ validate_with_sig [OF p(1-3)]] py_eq_iff_sort_keys [OF assms cl] p(4) by blast
qed

text \<open>The witness parts: a reply of agent \<open>a\<close> of family \<open>f\<close> to \<open>b@g\<close>.\<close>

definition demo_uuid :: pystr where
  "demo_uuid = lit ''00000000-0000-4000-8000-000000000001''"

definition demo_parts :: event_parts where
  "demo_parts = \<lparr>ep_origin = lit ''f'', ep_key_id = lit ''k1'', ep_event_id = demo_uuid, ep_type = lit ''reply'',
     ep_source_local = lit ''a'', ep_target = lit ''b@g'', ep_created_at = lit ''2026-02-28T23:59:59Z'',
     ep_text = [104, 105], ep_in_reply_to = Some demo_uuid\<rparr>"

definition demo_sig :: bytes where
  "demo_sig = replicate 64 7"

lemma demo_uuid_ok: "UUID_RE demo_uuid"
  by (simp add: UUID_RE_def demo_uuid_def lit_def is_hex_def is_digit_def upt_rec)

lemma demo_timestamp_ok: "timestamp_ok (lit ''2026-02-28T23:59:59Z'')"
  by (simp add: timestamp_ok_def check_timestamp_def TIMESTAMP_RE_def lit_def is_digit_def upt_rec field_def
      digits_value_def valid_ymd_def is_leap_def days_in_month_def)

lemma demo_parts_ok: "event_parts_ok demo_parts"
proof -
  have "address_ok (lit ''b@g'')"
    unfolding address_ok_def by (intro exI [of _ "lit ''b''"] exI [of _ "lit ''g''"])
      (simp add: lit_def AGENT_RE_def FAMILY_RE_def is_lower_def)
  then show ?thesis
    by (simp add: event_parts_ok_def demo_parts_def demo_uuid_ok demo_timestamp_ok)
       (simp add: lit_def AGENT_RE_def FAMILY_RE_def KEY_ID_RE_def is_lower_def is_digit_def scalar_def TEXT_LIMIT_def utf8_char_def)
qed

lemma demo_sig_ok: "is_bytes demo_sig" "length demo_sig = 64"
  by (simp_all add: demo_sig_def is_bytes_def list_all_iff)

theorem event_schema_exact_witness:
  "clean (with_sig (signed_event demo_parts) demo_sig) \<and>
   (\<exists>env. validate_event_envelope (with_sig (signed_event demo_parts) demo_sig) = Inr env)"
proof -
  have cl: "clean (with_sig (signed_event demo_parts) demo_sig)"
    by (rule clean_with_sig [OF demo_parts_ok demo_sig_ok(1)])
  then have "py_eq (with_sig (signed_event demo_parts) demo_sig) (with_sig (signed_event demo_parts) demo_sig)"
    by (simp add: py_eq_iff_sort_keys)
  then show ?thesis using event_schema_exact [OF cl] demo_parts_ok demo_sig_ok cl by blast
qed

text \<open>What the receiver parses from the canonical bytes of a built envelope.\<close>

lemma parse_event_built:
  assumes p: "event_parts_ok p" and sig: "is_bytes sig" "length sig = 64"
    and raw: "canonical_bytes (with_sig (signed_event p) sig) = Some raw" "length raw \<le> REQUEST_BODY_LIMIT"
  shows "parse_event raw = Inr \<lparr>env_kind = EVENT_KIND, env_signed = sorted_dict (signed_event p),
    env_sig_str = encode sig, env_sig = sig\<rparr>"
proof -
  let ?w = "with_sig (signed_event p) sig"
  note cl = clean_with_sig [OF p sig(1)]
  have "is_container ?w" by (simp add: with_sig_def is_container_def)
  moreover have "nesting ?w \<le> NESTING_DEPTH_LIMIT"
    by (simp add: with_sig_def signed_event_def event_items_def NESTING_DEPTH_LIMIT_def split: option.split)
  moreover have "raw = utf8 (dumps ?w)" using raw(1) canonical_bytes_clean [OF cl] by simp
  ultimately have parse: "parse_strict raw = Inr (sort_keys ?w)"
    using parse_strict_dumps [OF cl] by simp
  have "validate_event_envelope (sort_keys ?w) = Inr \<lparr>env_kind = EVENT_KIND,
      env_signed = sorted_dict (signed_event p), env_sig_str = encode sig, env_sig = sig\<rparr>"
    using validate_event_sorted [of "signed_event p @ [(lit ''sig'', JStr (encode sig))]"] cl
      validate_with_sig [OF p sig] unfolding with_sig_def by simp
  then show ?thesis using raw(2) parse by (simp add: parse_event_def check_body_size_def)
qed

lemma signed_bytes_built:
  assumes "event_parts_ok p"
  shows "canonical_bytes (JObj (sorted_dict (signed_event p))) = canonical_bytes (JObj (signed_event p))"
proof -
  have "clean (with_sig (signed_event p) [])" using assms by (rule clean_with_sig) simp
  then have "clean (JObj (signed_event p))" by (simp add: with_sig_def clean_items_all)
  then have "signed_bytes (\<lparr>env_kind = [], env_signed = sorted_dict (signed_event p), env_sig_str = [], env_sig = []\<rparr>) =
      signed_bytes \<lparr>env_kind = [], env_signed = signed_event p, env_sig_str = [], env_sig = []\<rparr>"
    using signed_bytes_sorted [of "\<lparr>env_kind = [], env_signed = signed_event p, env_sig_str = [], env_sig = []\<rparr>"] by simp
  then show ?thesis by (simp add: signed_bytes_def)
qed

text \<open>
  C30: the receiver checks the signature over the very bytes the sender signed.  The canonical
  bytes of a built envelope, if they fit the request limit, are accepted by \<open>parse_event\<close> at the
  other end, which hands out the signature bytes of the sender and a signed object with the
  canonical bytes that were signed, whatever the order of the keys on the way.
\<close>

theorem envelope_survives_the_wire:
  assumes p: "event_parts_ok p" and sig: "is_bytes sig" "length sig = 64"
    and raw: "canonical_bytes (with_sig (signed_event p) sig) = Some raw" "length raw \<le> REQUEST_BODY_LIMIT"
  shows "\<exists>env. parse_event raw = Inr env \<and> env_sig env = sig \<and> env_sig_str env = encode sig \<and>
    signed_bytes env = canonical_bytes (JObj (signed_event p))"
  using parse_event_built [OF assms] signed_bytes_built [OF p] by (simp add: signed_bytes_def)

lemma demo_fits: "length (utf8 (dumps (with_sig (signed_event demo_parts) demo_sig))) \<le> REQUEST_BODY_LIMIT"
  by code_simp

theorem envelope_survives_the_wire_witness:
  "\<exists>raw env. canonical_bytes (with_sig (signed_event demo_parts) demo_sig) = Some raw \<and>
     parse_event raw = Inr env \<and> env_sig env = demo_sig \<and> env_sig_str env = encode demo_sig \<and>
     signed_bytes env = canonical_bytes (JObj (signed_event demo_parts))"
proof -
  have "canonical_bytes (with_sig (signed_event demo_parts) demo_sig) =
      Some (utf8 (dumps (with_sig (signed_event demo_parts) demo_sig)))"
    by (intro canonical_bytes_clean clean_with_sig demo_parts_ok demo_sig_ok)
  from envelope_survives_the_wire [OF demo_parts_ok demo_sig_ok this demo_fits] this
  show ?thesis by blast
qed

lemma event_parts_ok_text:
  "event_parts_ok p \<Longrightarrow> list_all scalar t \<Longrightarrow> length (utf8 t) \<le> TEXT_LIMIT \<Longrightarrow> event_parts_ok (p\<lparr>ep_text := t\<rparr>)"
  by (simp add: event_parts_ok_def split: option.splits)

lemma length_dump_items: "(k, v) \<in> set kvs \<Longrightarrow> length (dump v) \<le> length (dump_items kvs)"
proof (induction kvs)
  case (Cons kv kvs)
  then show ?case by (cases kv; cases kvs) auto
qed simp

lemma length_dumps_member:
  assumes "(k, v) \<in> set kvs"
  shows "length (dumps v) \<le> length (dumps (JObj kvs))"
proof -
  have "(k, sort_keys v) \<in> set (sorted_dict kvs)"
    using assms by (auto simp: sorted_dict_def intro: image_eqI [of _ _ "(k, v)"])
  from length_dump_items [OF this] show ?thesis
    unfolding dumps_def sort_keys_JObj by simp
qed

lemma length_utf8_ge: "length s \<le> length (utf8 s)"
  by (induction s) (auto simp: utf8_char_def)

text \<open>\<open>json.dumps\<close> writes a control character without a short escape as six characters.\<close>

definition long_escape :: "int \<Rightarrow> bool" where
  "long_escape c = (c < 32 \<and> c \<notin> {8, 9, 10, 12, 13})"

lemma length_quote_control: "6 * length (filter long_escape t) \<le> length (dumps (JStr t))"
proof -
  have "6 * length (filter long_escape t) \<le> length (concat (map escape_char t))"
    by (induction t) (auto simp: escape_char_def long_escape_def)
  then show ?thesis by (simp add: dumps_def quote_def)
qed

lemma length_built_ge: "6 * length (filter long_escape (ep_text p)) \<le> length (utf8 (dumps (with_sig (signed_event p) sig)))"
proof -
  have "6 * length (filter long_escape (ep_text p)) \<le> length (dumps (JStr (ep_text p)))"
    by (rule length_quote_control)
  also have "\<dots> \<le> length (dumps (JObj [(lit ''text'', JStr (ep_text p))]))"
    by (rule length_dumps_member [of "lit ''text''"]) simp
  also have "\<dots> \<le> length (dumps (JObj (event_items p)))"
    by (rule length_dumps_member [of "lit ''payload''"]) (simp add: event_items_def)
  also have "\<dots> \<le> length (dumps (with_sig (signed_event p) sig))"
    unfolding with_sig_def by (rule length_dumps_member [of "lit ''event''"]) (simp add: signed_event_def)
  also have "\<dots> \<le> length (utf8 (dumps (with_sig (signed_event p) sig)))" by (rule length_utf8_ge)
  finally show ?thesis .
qed

text \<open>An upper bound for the text of a value, which does not depend on the order of the keys.\<close>

fun jbound :: "json \<Rightarrow> nat" where
  "jbound JNull = 4"
| "jbound (JBool b) = 5"
| "jbound (JInt i) = length (dec_int i)"
| "jbound (JStr s) = 2 + 6 * length s"
| "jbound (JArr xs) = 2 + (\<Sum>x\<leftarrow>xs. 1 + jbound x)"
| "jbound (JObj kvs) = 2 + (\<Sum>(k, v)\<leftarrow>kvs. 4 + 6 * length k + jbound v)"

lemma length_quote_le: "length (quote s) \<le> 2 + 6 * length s"
proof -
  have "length (concat (map escape_char s)) \<le> 6 * length s"
    by (induction s) (auto simp: escape_char_def)
  then show ?thesis by (simp add: quote_def)
qed

lemma length_dump_le:
  "length (dump v) \<le> jbound v"
  "length (dump_list xs) \<le> (\<Sum>x\<leftarrow>xs. 1 + jbound x)"
  "length (dump_items kvs) \<le> (\<Sum>(k, v)\<leftarrow>kvs. 4 + 6 * length k + jbound v)"
proof (induction v and xs and kvs rule: dump_dump_list_dump_items.induct)
  case (4 s)
  show ?case using length_quote_le [of s] by simp
next
  case (11 k v)
  then show ?case using length_quote_le [of k] by simp
next
  case (12 k v kv kvs)
  then show ?case using length_quote_le [of k] by simp
qed (simp_all add: lit_def)

lemma sum_list_sort_key: "(\<Sum>x\<leftarrow>sort_key f xs. g x) = (\<Sum>x\<leftarrow>xs. (g x :: nat))"
proof -
  have "(\<Sum>x\<leftarrow>insort_key f y ys. g x) = g y + (\<Sum>x\<leftarrow>ys. g x)" for y ys
    by (induction ys) simp_all
  then show ?thesis by (induction xs) (simp_all add: sort_key_simps)
qed

lemma jbound_sort_keys:
  "jbound (sort_keys v) = jbound v"
  "(\<Sum>x\<leftarrow>sort_keys_list xs. 1 + jbound x) = (\<Sum>x\<leftarrow>xs. 1 + jbound x)"
  "(\<Sum>(k, v)\<leftarrow>sort_keys_items kvs. 4 + 6 * length k + jbound v) = (\<Sum>(k, v)\<leftarrow>kvs. 4 + 6 * length k + jbound v)"
  by (induction v and xs and kvs rule: sort_keys_sort_keys_list_sort_keys_items.induct)
    (simp_all add: sum_list_sort_key)

lemma length_utf8_dumps_le: "length (utf8 (dumps v)) \<le> 4 * jbound v"
proof -
  have "length (utf8 s) \<le> 4 * length s" for s by (induction s) (auto simp: utf8_def utf8_char_def)
  from this [of "dumps v"] show ?thesis
    using length_dump_le(1) [of "sort_keys v"] by (simp add: dumps_def jbound_sort_keys)
qed

end
