(* ===== verification/Registry.thy ===== *)
theory Registry
  imports Schema
begin

text \<open>
  The peer registry of \<open>federation/registry.py\<close>: the endpoint policy, the records and the
  fail-closed loader.  \<open>urllib.parse.urlsplit\<close> is modelled as far as the policy reads its result;
  the two checks that it delegates to other libraries for a network location with brackets (the
  address inside them) or outside ASCII (the NFKC form) are the parameter \<open>netloc_ok\<close>.
\<close>

section \<open>URLs\<close>

record split_result =
  scheme :: pystr
  netloc :: pystr
  fragment :: pystr

definition ascii_lower :: "pystr \<Rightarrow> pystr" where
  "ascii_lower s = map (\<lambda>c. if 65 \<le> c \<and> c \<le> 90 then c + 32 else c) s"

definition is_alpha :: "int \<Rightarrow> bool" where
  "is_alpha c = (is_lower c \<or> is_upper c)"

definition scheme_char :: "int \<Rightarrow> bool" where
  "scheme_char c = (is_alpha c \<or> is_digit c \<or> c = 43 \<or> c = 45 \<or> c = 46)"

text \<open>\<open>s.partition(c)\<close> as the part before, whether \<open>c\<close> occurs, and the part behind.\<close>

definition partition_at :: "int \<Rightarrow> pystr \<Rightarrow> pystr \<times> bool \<times> pystr" where
  "partition_at c s = (takeWhile (\<lambda>x. x \<noteq> c) s, c \<in> set s, drop 1 (dropWhile (\<lambda>x. x \<noteq> c) s))"

definition split_scheme :: "pystr \<Rightarrow> pystr \<times> pystr" where
  "split_scheme url =
     (case partition_at 58 url of (pre, found, post) \<Rightarrow>
        if found \<and> pre \<noteq> [] \<and> is_alpha (hd pre) \<and> list_all scheme_char pre then (ascii_lower pre, post)
        else ([], url))"

definition split_netloc :: "pystr \<Rightarrow> pystr \<times> pystr" where
  "split_netloc url =
     (if take 2 url = [47, 47] then
        (takeWhile (\<lambda>c. c \<notin> {47, 63, 35}) (drop 2 url), dropWhile (\<lambda>c. c \<notin> {47, 63, 35}) (drop 2 url))
      else ([], url))"

text \<open>\<open>None\<close> is the \<open>ValueError\<close> of a malformed network location.\<close>

definition urlsplit :: "(pystr \<Rightarrow> bool) \<Rightarrow> pystr \<Rightarrow> split_result option" where
  "urlsplit netloc_ok url =
     (case split_scheme url of (sch, rest) \<Rightarrow>
      case split_netloc rest of (loc, rest') \<Rightarrow>
        if (91 \<in> set loc) \<noteq> (93 \<in> set loc) then None
        else if (91 \<in> set loc \<or> list_ex (\<lambda>c. c \<ge> 128) loc) \<and> \<not> netloc_ok loc then None
        else Some \<lparr>scheme = sch, netloc = loc, fragment = snd (snd (partition_at 35 rest'))\<rparr>)"

text \<open>The part behind the last \<open>@\<close>, and the user information before it.\<close>

definition hostinfo :: "split_result \<Rightarrow> pystr" where
  "hostinfo parts = rev (takeWhile (\<lambda>c. c \<noteq> 64) (rev (netloc parts)))"

definition has_userinfo :: "split_result \<Rightarrow> bool" where
  "has_userinfo parts = (64 \<in> set (netloc parts))"

text \<open>\<open>parts._hostinfo\<close>: the host and the text behind the colon, if any.\<close>

definition host_port :: "split_result \<Rightarrow> pystr \<times> pystr option" where
  "host_port parts =
     (case partition_at 91 (hostinfo parts) of (_, bracketed, inner) \<Rightarrow>
        if bracketed then
          (case partition_at 93 inner of (h, _, after) \<Rightarrow>
           case partition_at 58 after of (_, have_port, port) \<Rightarrow> (h, if have_port then Some port else None))
        else
          (case partition_at 58 (hostinfo parts) of (h, have_port, port) \<Rightarrow>
             (h, if have_port then Some port else None)))"

definition hostname :: "split_result \<Rightarrow> pystr option" where
  "hostname parts =
     (let h = fst (host_port parts) in
      if h = [] then None
      else Some (case partition_at 37 h of (pre, found, post) \<Rightarrow> ascii_lower pre @ (if found then 37 # post else [])))"

text \<open>An empty port text behind a colon is read as no port.\<close>

definition port_ok :: "split_result \<Rightarrow> bool" where
  "port_ok parts =
     (case snd (host_port parts) of
        None \<Rightarrow> True
      | Some p \<Rightarrow> p = [] \<or> list_all is_digit p \<and> digits_value p \<le> 65535)"

section \<open>The endpoint policy\<close>

definition LOOPBACK_HOSTS :: "pystr list" where
  "LOOPBACK_HOSTS = map lit [''127.0.0.1'', ''localhost'', ''::1'']"

definition py_isspace :: "int \<Rightarrow> bool" where
  "py_isspace c = (c \<in> {9, 10, 11, 12, 13, 28, 29, 30, 31, 32, 133, 160, 5760, 8232, 8233, 8239, 8287, 12288} \<or>
     8192 \<le> c \<and> c \<le> 8202)"

definition endpoint_url_error :: "(pystr \<Rightarrow> bool) \<Rightarrow> json \<Rightarrow> bool \<Rightarrow> pystr option" where
  "endpoint_url_error netloc_ok value allow_insecure_loopback =
     (case value of
        JStr url \<Rightarrow>
          if url = [] then Some (lit ''empty'')
          else if list_ex (\<lambda>ch. ch < 32 \<or> py_isspace ch) url then Some (lit ''control_or_whitespace'')
          else
            (case urlsplit netloc_ok url of
               None \<Rightarrow> Some (lit ''invalid_url'')
             | Some parts \<Rightarrow>
                 if \<not> port_ok parts then Some (lit ''invalid_url'')
                 else
                   (let host = hostname parts;
                        https = (scheme parts = lit ''https'');
                        loopback_http = (scheme parts = lit ''http'' \<and> allow_insecure_loopback \<and>
                          (case host of None \<Rightarrow> False
                           | Some h \<Rightarrow> h \<in> set LOOPBACK_HOSTS \<or> suffix (lit ''.localhost'') h))
                    in if \<not> https \<and> \<not> loopback_http
                       then Some (lit ''scheme_'' @ (if scheme parts = [] then lit ''missing'' else scheme parts))
                       else if netloc parts = [] \<or> host = None then Some (lit ''missing_host'')
                       else if has_userinfo parts then Some (lit ''userinfo'')
                       else if fragment parts \<noteq> [] then Some (lit ''fragment'')
                       else None))
      | _ \<Rightarrow> Some (lit ''empty''))"

section \<open>Records and the loader\<close>

record peer_record =
  pr_family :: pystr
  pr_key_id :: pystr
  pr_public_key :: pystr
  pr_public_key_bytes :: bytes
  pr_inbox_url :: pystr
  pr_receipts_url :: pystr

definition RECORD_FIELDS :: "pystr list" where
  "RECORD_FIELDS = map lit [''family'', ''key_id'', ''public_key'', ''inbox_url'', ''receipts_url'']"

definition reg_err :: "string \<Rightarrow> fed_error" where
  "reg_err category = FederationError ''registry'' category"

definition string_field :: "dict \<Rightarrow> string \<Rightarrow> (pystr \<Rightarrow> bool) \<Rightarrow> string \<Rightarrow> pystr fed_res" where
  "string_field raw key rx category =
     (case map_of raw (lit key) of
        Some (JStr s) \<Rightarrow> and_then (require (rx s) (reg_err category)) (\<lambda>_. Inr s)
      | _ \<Rightarrow> Inl (reg_err category))"

definition url_field :: "(pystr \<Rightarrow> bool) \<Rightarrow> dict \<Rightarrow> string \<Rightarrow> bool \<Rightarrow> pystr fed_res" where
  "url_field netloc_ok raw key allow =
     and_then (string_field raw key (\<lambda>s. s \<noteq> []) ''record_format'') (\<lambda>s.
     and_then (require (endpoint_url_error netloc_ok (JStr s) allow = None) (reg_err ''unsupported_endpoint_url''))
       (\<lambda>_. Inr s))"

definition parse_record :: "(pystr \<Rightarrow> bool) \<Rightarrow> bool \<Rightarrow> json \<Rightarrow> peer_record fed_res" where
  "parse_record netloc_ok allow value =
     (case value of
        JObj raw \<Rightarrow>
          and_then (require (list_all (\<lambda>k. k \<in> set RECORD_FIELDS) (map fst raw)) (reg_err ''unknown_field'')) (\<lambda>_.
          and_then (require (list_all (\<lambda>k. k \<in> set (map fst raw)) RECORD_FIELDS) (reg_err ''missing_field'')) (\<lambda>_.
          and_then (string_field raw ''family'' FAMILY_RE ''address_grammar'') (\<lambda>family.
          and_then (string_field raw ''key_id'' KEY_ID_RE ''key_id_grammar'') (\<lambda>key_id.
          and_then (string_field raw ''public_key'' (\<lambda>_. True) ''public_key_format'') (\<lambda>public_key.
          and_then (decode_strict (JStr public_key) 32 ''public_key_length'' ''registry'') (\<lambda>pk_bytes.
          and_then (url_field netloc_ok raw ''inbox_url'' allow) (\<lambda>inbox_url.
          and_then (url_field netloc_ok raw ''receipts_url'' allow) (\<lambda>receipts_url.
          Inr \<lparr>pr_family = family, pr_key_id = key_id, pr_public_key = public_key, pr_public_key_bytes = pk_bytes,
               pr_inbox_url = inbox_url, pr_receipts_url = receipts_url\<rparr>))))))))
      | _ \<Rightarrow> Inl (reg_err ''record_format''))"

text \<open>The list comprehension of \<open>parse_peers\<close>: the first bad record raises.\<close>

fun parse_records :: "(pystr \<Rightarrow> bool) \<Rightarrow> bool \<Rightarrow> json list \<Rightarrow> peer_record list fed_res" where
  "parse_records netloc_ok allow [] = Inr []"
| "parse_records netloc_ok allow (item # doc) =
     and_then (parse_record netloc_ok allow item) (\<lambda>rec.
     and_then (parse_records netloc_ok allow doc) (\<lambda>recs. Inr (rec # recs)))"

definition PeerRegistry :: "peer_record list \<Rightarrow> peer_record list fed_res" where
  "PeerRegistry records =
     and_then (require (distinct (map pr_family records)) (reg_err ''duplicate_family'')) (\<lambda>_. Inr records)"

definition lookup :: "peer_record list \<Rightarrow> pystr \<Rightarrow> pystr \<Rightarrow> peer_record option" where
  "lookup records family key_id =
     (case find (\<lambda>r. pr_family r = family) records of
        None \<Rightarrow> None
      | Some r \<Rightarrow> if pr_key_id r = key_id then Some r else None)"

definition receipts_peer :: "peer_record list \<Rightarrow> pystr \<Rightarrow> peer_record option" where
  "receipts_peer records family = find (\<lambda>r. pr_family r = family) records"

definition families :: "peer_record list \<Rightarrow> pystr list" where
  "families records = sort (map pr_family records)"

definition parse_peers :: "(pystr \<Rightarrow> bool) \<Rightarrow> json \<Rightarrow> bool \<Rightarrow> peer_record list fed_res" where
  "parse_peers netloc_ok doc allow =
     (case doc of
        JArr items \<Rightarrow> and_then (parse_records netloc_ok allow items) PeerRegistry
      | _ \<Rightarrow> Inl (reg_err ''registry_format''))"

text \<open>\<open>load_peers\<close> on what reading the file gives; \<open>None\<close> is \<open>OSError\<close>.\<close>

definition load_peers :: "(pystr \<Rightarrow> bool) \<Rightarrow> bytes option \<Rightarrow> bool \<Rightarrow> peer_record list fed_res" where
  "load_peers netloc_ok file allow =
     (case file of
        None \<Rightarrow> Inl (reg_err ''file_unreadable'')
      | Some raw \<Rightarrow>
          (case utf8_decode raw of
             None \<Rightarrow> Inl (reg_err ''invalid_json'')
           | Some text \<Rightarrow>
               (case parse_json_text text ''registry'' of
                  Inl JSONDecodeError \<Rightarrow> Inl (reg_err ''invalid_json'')
                | Inl (Fed_Error e) \<Rightarrow> Inl (reg_err (fe_category e))
                | Inr doc \<Rightarrow> parse_peers netloc_ok doc allow)))"

definition safe_load_peers :: "(pystr \<Rightarrow> bool) \<Rightarrow> bytes option \<Rightarrow> bool \<Rightarrow> peer_record list" where
  "safe_load_peers netloc_ok file allow =
     (case load_peers netloc_ok file allow of Inl _ \<Rightarrow> [] | Inr records \<Rightarrow> records)"

section \<open>What the policy admits\<close>

text \<open>
  An admissible endpoint: https, or with the explicit opt-in plain http to a loopback host; a
  host, a numeric port in range if any, no user information, no fragment, no white space.
\<close>

definition endpoint_ok :: "(pystr \<Rightarrow> bool) \<Rightarrow> bool \<Rightarrow> pystr \<Rightarrow> bool" where
  "endpoint_ok netloc_ok allow url =
     (\<not> list_ex (\<lambda>ch. ch < 32 \<or> py_isspace ch) url \<and>
      (\<exists>parts h. urlsplit netloc_ok url = Some parts \<and> port_ok parts \<and> hostname parts = Some h \<and>
         netloc parts \<noteq> [] \<and> \<not> has_userinfo parts \<and> fragment parts = [] \<and>
         (scheme parts = lit ''https'' \<or>
          allow \<and> scheme parts = lit ''http'' \<and> (h \<in> set LOOPBACK_HOSTS \<or> suffix (lit ''.localhost'') h))))"

lemma urlsplit_Nil: "urlsplit nv [] = Some parts \<Longrightarrow> netloc parts = []"
  by (auto simp: urlsplit_def split_scheme_def split_netloc_def partition_at_def split: if_splits)

lemma endpoint_url_error_None: "endpoint_url_error nv (JStr url) allow = None \<longleftrightarrow> endpoint_ok nv allow url"
proof (cases "url = []")
  case True
  then show ?thesis using urlsplit_Nil [of nv] by (auto simp: endpoint_url_error_def endpoint_ok_def)
next
  case False
  then show ?thesis
    by (auto simp: endpoint_url_error_def endpoint_ok_def Let_def split: option.splits if_splits)
qed

definition record_ok :: "(pystr \<Rightarrow> bool) \<Rightarrow> bool \<Rightarrow> peer_record \<Rightarrow> bool" where
  "record_ok netloc_ok allow r =
     (FAMILY_RE (pr_family r) \<and> KEY_ID_RE (pr_key_id r) \<and>
      pr_public_key r = encode (pr_public_key_bytes r) \<and> is_bytes (pr_public_key_bytes r) \<and>
      length (pr_public_key_bytes r) = 32 \<and>
      endpoint_ok netloc_ok allow (pr_inbox_url r) \<and> endpoint_ok netloc_ok allow (pr_receipts_url r))"

lemma string_field_Inr:
  "string_field raw key rx c = Inr s \<longleftrightarrow> map_of raw (lit key) = Some (JStr s) \<and> rx s"
  by (auto simp: string_field_def and_then_Inr split: option.splits json.splits)

lemma url_field_Inr: "url_field nv raw key allow = Inr s \<Longrightarrow> endpoint_ok nv allow s"
  by (auto simp: url_field_def and_then_Inr endpoint_url_error_None)

lemma parse_record_ok:
  assumes "parse_record nv allow v = Inr r"
  shows "record_ok nv allow r"
proof -
  obtain raw where v: "v = JObj raw" using assms by (cases v) (auto simp: parse_record_def)
  from assms obtain u w family key_id pk bs inbox receipts where h:
      "string_field raw ''family'' FAMILY_RE ''address_grammar'' = Inr family"
      "string_field raw ''key_id'' KEY_ID_RE ''key_id_grammar'' = Inr key_id"
      "decode_strict (JStr pk) 32 ''public_key_length'' ''registry'' = Inr bs"
      "url_field nv raw ''inbox_url'' allow = Inr inbox" "url_field nv raw ''receipts_url'' allow = Inr receipts"
      "Inr \<lparr>pr_family = family, pr_key_id = key_id, pr_public_key = pk, pr_public_key_bytes = bs,
           pr_inbox_url = inbox, pr_receipts_url = receipts\<rparr> = (Inr r :: peer_record fed_res)"
    unfolding parse_record_def v json.case by (elim and_thenE) (rule that; assumption)
  then show ?thesis
    using decode_strict_InrD [OF h(3)] by (auto simp: record_ok_def string_field_Inr dest: url_field_Inr)
qed

lemma parse_records_Inr:
  "parse_records nv allow doc = Inr recs \<longleftrightarrow> map (parse_record nv allow) doc = map Inr recs"
proof (induction doc arbitrary: recs)
  case (Cons item doc)
  then show ?case by (cases recs) (auto simp: and_then_Inr)
qed auto

lemma load_peers_Inr:
  assumes "load_peers nv file allow = Inr recs"
  obtains raw s doc where "file = Some raw" "utf8_decode raw = Some s" "parse_json_text s ''registry'' = Inr (JArr doc)"
    "map (parse_record nv allow) doc = map Inr recs" "distinct (map pr_family recs)"
proof -
  obtain raw s d where h: "file = Some raw" "utf8_decode raw = Some s" "parse_json_text s ''registry'' = Inr d"
      "parse_peers nv d allow = Inr recs"
    using assms by (auto simp: load_peers_def split: option.splits sum.splits json_exn.splits)
  then obtain doc where "d = JArr doc" "and_then (parse_records nv allow doc) PeerRegistry = Inr recs"
    by (cases d) (auto simp: parse_peers_def)
  then show thesis
    using h by (intro that [of raw s doc]) (auto simp: and_then_Inr parse_records_Inr PeerRegistry_def)
qed

text \<open>
  C32: the registry fails closed.  Whatever is in the peers file, every record that the server works
  with has a well-formed family and key id, a public key of exactly 32 bytes in canonical
  base64url, and endpoints that are https with a host and without user information or fragment
  (plain http only to a loopback host and only with the explicit opt-in); a family has one record,
  and \<open>lookup\<close> finds it exactly for its family and key id.  The registry is complete or empty:
  if any entry of the file is bad, or the file cannot be read or parsed, it is empty.
\<close>

theorem registry_fails_closed:
  "(\<forall>r \<in> set (safe_load_peers nv file allow). record_ok nv allow r) \<and>
   distinct (map pr_family (safe_load_peers nv file allow)) \<and>
   (\<forall>f k r. lookup (safe_load_peers nv file allow) f k = Some r \<longleftrightarrow>
      r \<in> set (safe_load_peers nv file allow) \<and> pr_family r = f \<and> pr_key_id r = k) \<and>
   (safe_load_peers nv file allow \<noteq> [] \<longrightarrow>
      (\<exists>raw s doc. file = Some raw \<and> utf8_decode raw = Some s \<and>
         parse_json_text s ''registry'' = Inr (JArr doc) \<and>
         map (parse_record nv allow) doc = map Inr (safe_load_peers nv file allow)))"
proof (cases "load_peers nv file allow")
  case (Inl e)
  then show ?thesis by (simp add: safe_load_peers_def lookup_def)
next
  case (Inr recs)
  then have safe: "safe_load_peers nv file allow = recs" by (simp add: safe_load_peers_def)
  from Inr obtain raw s doc where h: "file = Some raw" "utf8_decode raw = Some s"
      "parse_json_text s ''registry'' = Inr (JArr doc)"
      "map (parse_record nv allow) doc = map Inr recs" "distinct (map pr_family recs)"
    by (rule load_peers_Inr)
  have "record_ok nv allow r" if "r \<in> set recs" for r
  proof -
    have "Inr r \<in> set (map (parse_record nv allow) doc)" using that by (simp add: h(4))
    then show ?thesis by (auto dest: parse_record_ok [OF sym])
  qed
  moreover have "lookup recs f k = Some r \<longleftrightarrow> r \<in> set recs \<and> pr_family r = f \<and> pr_key_id r = k" for f k r
  proof (cases "find (\<lambda>r. pr_family r = f) recs")
    case None
    then have "\<forall>r \<in> set recs. pr_family r \<noteq> f" by (simp only: find_None)
    with None show ?thesis by (auto simp: lookup_def)
  next
    case (Some x)
    then have "r \<in> set recs \<and> pr_family r = f \<longleftrightarrow> r = x"
      unfolding find_Some_iff_unique [OF h(5), of f r, symmetric] by auto
    with Some show ?thesis by (auto simp: lookup_def)
  qed
  ultimately show ?thesis unfolding safe using h by blast
qed

text \<open>The witness: a file with one record.\<close>

definition demo_peers_text :: pystr where
  "demo_peers_text = dump (JArr [JObj [(lit ''family'', JStr (lit ''g'')), (lit ''key_id'', JStr (lit ''k'')),
     (lit ''public_key'', JStr (encode (replicate 32 0))), (lit ''inbox_url'', JStr (lit ''https://h/i'')),
     (lit ''receipts_url'', JStr (lit ''https://h/r''))]])"

definition demo_peer :: peer_record where
  "demo_peer = \<lparr>pr_family = lit ''g'', pr_key_id = lit ''k'', pr_public_key = encode (replicate 32 0),
     pr_public_key_bytes = replicate 32 0, pr_inbox_url = lit ''https://h/i'', pr_receipts_url = lit ''https://h/r''\<rparr>"

lemma demo_peers_load: "load_peers (\<lambda>_. True) (Some (utf8 demo_peers_text)) False = Inr [demo_peer]"
  by code_simp

theorem registry_fails_closed_witness:
  "record_ok (\<lambda>_. True) False demo_peer \<and>
   lookup (safe_load_peers (\<lambda>_. True) (Some (utf8 demo_peers_text)) False) (lit ''g'') (lit ''k'') = Some demo_peer"
  using registry_fails_closed [of "\<lambda>_. True" "Some (utf8 demo_peers_text)" False]
  unfolding safe_load_peers_def demo_peers_load sum.case by (simp add: demo_peer_def)

end
