(* ===== verification/Wake_Hub.thy ===== *)
theory Wake_Hub
  imports Prelude
begin

text \<open>
  The wake hub of \<open>server.py\<close>: one bounded queue of wake hints per connected agent.  Queues
  are objects that a stream may still hold after the hub has dropped them, so they live in a
  store \<open>h_items\<close> of their contents by identity, and the dictionary of the hub maps an agent to
  a set of identities.  Each method holds the lock of the hub while it reads or writes the dictionary.
\<close>

section \<open>Queues and the dictionary of agents\<close>

definition MAXSIZE :: nat where "MAXSIZE = 1024"

record hub =
  h_queues :: "(pystr \<times> nat set) list"
  h_items :: "nat \<Rightarrow> json list"
  h_next :: nat

definition init_hub :: hub where
  "init_hub = \<lparr>h_queues = [], h_items = (\<lambda>_. []), h_next = 0\<rparr>"

definition lanes :: "hub \<Rightarrow> pystr \<Rightarrow> nat set" where
  "lanes h agent = (case map_of (h_queues h) agent of None \<Rightarrow> {} | Some qs \<Rightarrow> qs)"

definition put_lanes :: "pystr \<Rightarrow> nat set \<Rightarrow> (pystr \<times> nat set) list \<Rightarrow> (pystr \<times> nat set) list" where
  "put_lanes agent qs d =
     (if agent \<in> set (map fst d) then map (\<lambda>(a, v). (a, if a = agent then qs else v)) d
      else d @ [(agent, qs)])"

text \<open>\<open>put_nowait\<close>: a full queue drops the item.\<close>

definition full :: "hub \<Rightarrow> nat \<Rightarrow> bool" where
  "full h q = (MAXSIZE \<le> length (h_items h q))"

definition offer :: "nat set \<Rightarrow> json \<Rightarrow> hub \<Rightarrow> hub" where
  "offer qs item h =
     h\<lparr>h_items := (\<lambda>q. if q \<in> qs \<and> \<not> full h q then h_items h q @ [item] else h_items h q)\<rparr>"

section \<open>Operations\<close>

definition subscribe :: "pystr \<Rightarrow> hub \<Rightarrow> nat \<times> hub" where
  "subscribe agent h =
     (h_next h,
      h\<lparr>h_queues := put_lanes agent {h_next h} (h_queues h),
        h_items := (h_items h)(h_next h := []), h_next := Suc (h_next h)\<rparr>)"

definition unsubscribe :: "pystr \<Rightarrow> nat \<Rightarrow> hub \<Rightarrow> hub" where
  "unsubscribe agent q h =
     (let qs = lanes h agent in
      if qs = {} then h
      else if qs - {q} = {} then h\<lparr>h_queues := filter (\<lambda>(a, _). a \<noteq> agent) (h_queues h)\<rparr>
      else h\<lparr>h_queues := put_lanes agent (qs - {q}) (h_queues h)\<rparr>)"

definition notify :: "pystr \<Rightarrow> json \<Rightarrow> hub \<Rightarrow> bool \<times> hub" where
  "notify agent item h =
     (let qs = lanes h agent in
      if qs = {} then (False, h)
      else (\<forall>q \<in> qs. \<not> full h q, offer qs item h))"

definition notify_all :: "json \<Rightarrow> hub \<Rightarrow> hub" where
  "notify_all item h = offer (\<Union> (snd ` set (h_queues h))) item h"

definition connected :: "hub \<Rightarrow> (pystr \<times> nat) list" where
  "connected h = map (\<lambda>(agent, qs). (agent, card qs)) (h_queues h)"

text \<open>The stream that holds a queue takes its first item.\<close>

definition queue_get :: "nat \<Rightarrow> hub \<Rightarrow> json option \<times> hub" where
  "queue_get q h =
     (case h_items h q of [] \<Rightarrow> (None, h) | item # rest \<Rightarrow> (Some item, h\<lparr>h_items := (h_items h)(q := rest)\<rparr>))"

section \<open>One bounded lane per agent\<close>

inductive hub_step :: "hub \<Rightarrow> hub \<Rightarrow> bool" where
  "hub_step h (snd (subscribe agent h))"
| "hub_step h (unsubscribe agent q h)"
| "hub_step h (snd (notify agent item h))"
| "hub_step h (notify_all item h)"
| "hub_step h (snd (queue_get q h))"

definition hub_ok :: "hub \<Rightarrow> bool" where
  "hub_ok h = (distinct (map fst (h_queues h)) \<and>
     (\<forall>(agent, qs) \<in> set (h_queues h). \<exists>q < h_next h. qs = {q}) \<and>
     distinct (map snd (h_queues h)) \<and>
     (\<forall>q. length (h_items h q) \<le> MAXSIZE) \<and> (\<forall>q \<ge> h_next h. h_items h q = []))"

lemma fst_put_lanes:
  "map fst (put_lanes agent qs d) = (if agent \<in> set (map fst d) then map fst d else map fst d @ [agent])"
  by (auto simp: put_lanes_def intro: map_cong)

lemma put_lanes_mem:
  assumes "(a, v) \<in> set (put_lanes agent qs d)"
  shows "a = agent \<and> v = qs \<or> a \<noteq> agent \<and> (a, v) \<in> set d"
  using assms by (auto simp: put_lanes_def image_iff split: if_splits)

lemma put_lanes_same:
  assumes "distinct (map fst d)" "(agent, qs) \<in> set d"
  shows "put_lanes agent qs d = d"
proof -
  have "agent \<in> set (map fst d)" using assms(2) by force
  moreover have "(\<lambda>(a, v). (a, if a = agent then qs else v)) x = x" if "x \<in> set d" for x
    using assms that eq_key_imp_eq_value [OF assms(1), of agent qs "snd x"] by (cases x) auto
  ultimately show ?thesis by (simp add: put_lanes_def map_idI)
qed

lemma distinct_put_lanes:
  assumes keys: "distinct (map fst d)" and vals: "distinct (map snd d)" and new: "qs \<notin> set (map snd d)"
  shows "distinct (map snd (put_lanes agent qs d))"
proof -
  let ?f = "\<lambda>(a, v). if a = agent then qs else v"
  have "inj_on ?f (set d)"
  proof (rule inj_onI)
    fix x y assume xy: "x \<in> set d" "y \<in> set d" "?f x = ?f y"
    have "inj_on snd (set d)" "inj_on fst (set d)" using keys vals by (simp_all add: distinct_map)
    moreover have "snd x \<noteq> qs" "snd y \<noteq> qs" using xy new by auto
    ultimately show "x = y" using xy by (auto simp: split_beta inj_on_def split: if_splits)
  qed
  then have "distinct (map ?f d)" using keys by (simp add: distinct_map)
  moreover have "map ?f d = map snd (map (\<lambda>(a, v). (a, if a = agent then qs else v)) d)" by auto
  ultimately show ?thesis using vals new by (simp add: put_lanes_def)
qed

lemma hub_ok_parts:
  assumes "hub_ok h"
  shows "distinct (map fst (h_queues h))" "distinct (map snd (h_queues h))"
    "(agent, qs) \<in> set (h_queues h) \<Longrightarrow> \<exists>q < h_next h. qs = {q}"
    "length (h_items h q) \<le> MAXSIZE" "h_next h \<le> q \<Longrightarrow> h_items h q = []"
  using assms unfolding hub_ok_def by auto

lemma lanes_cases:
  assumes "hub_ok h"
  shows "lanes h agent = {} \<or> (\<exists>q < h_next h. lanes h agent = {q} \<and> (agent, {q}) \<in> set (h_queues h))"
  using hub_ok_parts(3) [OF assms] by (auto simp: lanes_def split: option.split dest!: map_of_SomeD)

lemma offer_ok:
  assumes "hub_ok h" "\<And>q. q \<in> qs \<Longrightarrow> q < h_next h"
  shows "hub_ok (offer qs item h)"
  using assms by (auto simp: hub_ok_def offer_def full_def not_le)

lemma hub_step_ok:
  assumes inv: "hub_ok h" and "hub_step h h'"
  shows "hub_ok h'"
  using assms(2)
proof cases
  case (1 agent)
  note ok = hub_ok_parts [OF inv]
  have "{h_next h} \<notin> set (map snd (h_queues h))" using ok(3) by fastforce
  then have "distinct (map snd (put_lanes agent {h_next h} (h_queues h)))"
    by (rule distinct_put_lanes [OF ok(1,2)])
  moreover have "distinct (map fst (put_lanes agent {h_next h} (h_queues h)))"
    using ok(1) by (simp add: fst_put_lanes)
  moreover have "\<exists>q < Suc (h_next h). qs = {q}" if "(a, qs) \<in> set (put_lanes agent {h_next h} (h_queues h))" for a qs
    using put_lanes_mem [OF that] ok(3) less_SucI by blast
  ultimately show ?thesis using ok(4,5) 1 by (auto simp: hub_ok_def subscribe_def)
next
  case (2 agent q)
  then show ?thesis
    using lanes_cases [OF inv, of agent] hub_ok_parts [OF inv]
    by (auto simp: hub_ok_def unsubscribe_def Let_def distinct_map_filter put_lanes_same)
next
  case (3 agent item)
  then show ?thesis
    using inv lanes_cases [OF inv, of agent] by (auto simp: notify_def Let_def intro!: offer_ok)
next
  case (4 item)
  then show ?thesis
    using inv hub_ok_parts(3) [OF inv] by (fastforce simp: notify_all_def intro!: offer_ok)
next
  case (5 q)
  have "length (h_items h q) \<le> MAXSIZE" "h_next h \<le> q \<Longrightarrow> h_items h q = []"
    using hub_ok_parts(4,5) [OF inv] by auto
  then have "length rest \<le> MAXSIZE" "\<not> h_next h \<le> q" if "h_items h q = item # rest" for item rest
    using that by auto
  then show ?thesis using inv 5 by (auto simp: hub_ok_def queue_get_def split: list.split)
qed

interpretation hub_sys: invariant_system hub_step hub_ok
  by unfold_locales (rule hub_step_ok)

section \<open>A reported wake is a queued wake\<close>

text \<open>
  C36: In every state the hub can reach, an agent has at most one live queue and no queue holds
  more than 1024 hints.  \<open>notify\<close> returns \<open>True\<close> exactly when the agent is connected and its
  queue has room; then the hint is the last item of that queue and no other queue has changed,
  and when it returns \<open>False\<close> nothing has.  So work may be marked done on \<open>True\<close>.
\<close>

theorem wake_reported_iff_queued:
  assumes "hub_step\<^sup>*\<^sup>* init_hub h"
  shows "length (h_items h q) \<le> 1024 \<and> card (lanes h agent) \<le> 1 \<and>
    (fst (notify agent item h) \<longleftrightarrow> (\<exists>q. lanes h agent = {q} \<and> length (h_items h q) < 1024)) \<and>
    (\<not> fst (notify agent item h) \<longrightarrow> snd (notify agent item h) = h) \<and>
    (fst (notify agent item h) \<longrightarrow> (\<exists>q. lanes h agent = {q} \<and>
       snd (notify agent item h) = h\<lparr>h_items := (h_items h)(q := h_items h q @ [item])\<rparr>))"
proof -
  have "hub_ok init_hub" by (simp add: hub_ok_def init_hub_def)
  then have ok: "hub_ok h" by (rule hub_sys.inv_steps [OF assms])
  have "offer {q'} item h = h" if "full h q'" for q' using that by (auto simp: offer_def intro!: hub.equality)
  moreover have "offer {q'} item h = h\<lparr>h_items := (h_items h)(q' := h_items h q' @ [item])\<rparr>"
    if "\<not> full h q'" for q'
    using that by (auto simp: offer_def intro!: hub.equality)
  ultimately show ?thesis
    using lanes_cases [OF ok, of agent] hub_ok_parts(4) [OF ok, of q]
    by (auto simp: notify_def Let_def full_def MAXSIZE_def not_le)
qed

definition demo_hub :: hub where
  "demo_hub = snd (subscribe (lit ''alpha'') init_hub)"

theorem wake_reported_iff_queued_witness:
  "fst (notify (lit ''alpha'') JNull demo_hub) \<and> \<not> fst (notify (lit ''beta'') JNull demo_hub)"
proof -
  have run: "hub_step\<^sup>*\<^sup>* init_hub demo_hub"
    unfolding demo_hub_def by (intro r_into_rtranclp hub_step.intros)
  have "lanes demo_hub (lit ''alpha'') = {0}" "lanes demo_hub (lit ''beta'') = {}"
      "h_items demo_hub 0 = []"
    by (simp_all add: demo_hub_def subscribe_def init_hub_def lanes_def put_lanes_def)
  then show ?thesis
    using wake_reported_iff_queued [OF run, of 0 "lit ''alpha''" JNull]
      wake_reported_iff_queued [OF run, of 0 "lit ''beta''" JNull] by simp
qed

end
