(* ===== verification/Fed_Runtime.thy ===== *)
theory Fed_Runtime
  imports Registry Fed_Guarantees Wake_Hub
begin

text \<open>
  The federation runtime of \<open>federation/runtime.py\<close>: activation and identity, rate limits,
  composing, and the worker that sends, retries, delivers and hints.

  Durations and instants are whole microseconds, the resolution to which \<open>timedelta\<close> rounds a
  float.  What the worker meets outside the process is an argument: for each item the answer of
  the network, the clocks and the random number are a record \<open>item_io\<close>; the crypto backend's
  \<open>sign\<close>, the check of a network location and \<open>parsedate_to_datetime\<close> are the fields of
  \<open>platform\<close>.  A cycle of the worker is modelled without interleaved requests; every store
  method and every hub method is atomic on its own in the code.
\<close>

section \<open>Platform, configuration, identity\<close>

record platform =
  netloc_ok :: "pystr \<Rightarrow> bool"
  ed_sign :: "bytes \<Rightarrow> bytes \<Rightarrow> bytes"
  http_date :: "pystr \<Rightarrow> int option"

record config =
  cf_enabled :: bool
  cf_outbox_cap :: int
  cf_rate_conn_per_min :: int
  cf_rate_family_per_min :: int
  cf_backoff_base :: int
  cf_backoff_max :: int
  cf_allow_insecure_loopback :: bool

record identity =
  id_family :: pystr
  id_key_id :: pystr
  id_seed :: bytes

text \<open>What \<open>load_identity\<close> finds: no file, or its mode and what reading it gives.\<close>

type_synonym identity_file = "(int \<times> bytes option) option"

definition identity_of :: "json \<Rightarrow> identity fed_res" where
  "identity_of doc =
     (case doc of
        JObj kvs \<Rightarrow>
          and_then (string_field kvs ''family'' FAMILY_RE ''address_grammar'') (\<lambda>family.
          and_then (string_field kvs ''key_id'' KEY_ID_RE ''key_id_grammar'') (\<lambda>key_id.
          and_then (string_field kvs ''seed'' (\<lambda>_. True) ''public_key_format'') (\<lambda>seed.
          and_then (decode_strict (JStr seed) 32 ''public_key_length'' ''registry'') (\<lambda>seed_bytes.
          Inr \<lparr>id_family = family, id_key_id = key_id, id_seed = seed_bytes\<rparr>))))
      | _ \<Rightarrow> Inl (reg_err ''record_format''))"

definition load_identity :: "identity_file \<Rightarrow> identity fed_res" where
  "load_identity file =
     (case file of
        None \<Rightarrow> Inl (reg_err ''file_unreadable'')
      | Some (mode, content) \<Rightarrow>
          if mode \<noteq> 384 then Inl (reg_err ''identity_permissions'')
          else
            (case content of
               None \<Rightarrow> Inl (reg_err ''file_unreadable'')
             | Some raw \<Rightarrow>
                 (case utf8_decode raw of
                    None \<Rightarrow> Inl (reg_err ''invalid_json'')
                  | Some s \<Rightarrow>
                      (case parse_json_text s ''registry'' of
                         Inl JSONDecodeError \<Rightarrow> Inl (reg_err ''invalid_json'')
                       | Inl (Fed_Error e) \<Rightarrow> Inl (reg_err (fe_category e))
                       | Inr doc \<Rightarrow> identity_of doc))))"

record runtime =
  rt_config :: config
  rt_registry :: "peer_record list"
  rt_identity :: identity

text \<open>\<open>FederationRuntime.build\<close>: federation is on only if every requirement holds.\<close>

definition build :: "platform \<Rightarrow> config \<Rightarrow> bool \<Rightarrow> bool \<Rightarrow> bytes option \<Rightarrow> identity_file \<Rightarrow> runtime option" where
  "build P cfg sqlite_store crypto_backend peers_file id_file =
     (if \<not> cf_enabled cfg then None
      else if \<not> sqlite_store then None
      else if \<not> crypto_backend then None
      else
        (case load_peers (netloc_ok P) peers_file (cf_allow_insecure_loopback cfg) of
           Inl _ \<Rightarrow> None
         | Inr registry \<Rightarrow>
             (case load_identity id_file of
                Inl _ \<Rightarrow> None
              | Inr ident \<Rightarrow> Some \<lparr>rt_config = cfg, rt_registry = registry, rt_identity = ident\<rparr>)))"

definition foreign_family :: "runtime \<Rightarrow> pystr \<Rightarrow> pystr option" where
  "foreign_family rt target =
     (if count_list target 64 \<noteq> 1 then None
      else
        (case parse_address target of
           Inl _ \<Rightarrow> None
         | Inr (agent, family) \<Rightarrow> if family = id_family (rt_identity rt) then None else Some family))"

section \<open>Composing\<close>

datatype compose_exn = Compose_Fed fed_error | Unicode_Encode_Error

definition sign_and_seal :: "platform \<Rightarrow> runtime \<Rightarrow> dict \<Rightarrow> (json \<Rightarrow> envelope fed_res) \<Rightarrow> compose_exn + json" where
  "sign_and_seal P rt signed_obj check =
     (case canonical_bytes (JObj signed_obj) of
        None \<Rightarrow> Inl Unicode_Encode_Error
      | Some bs \<Rightarrow>
          (let envelope = with_sig signed_obj (ed_sign P (id_seed (rt_identity rt)) bs) in
           case check envelope of Inl e \<Rightarrow> Inl (Compose_Fed e) | Inr _ \<Rightarrow> Inr envelope))"

definition compose_event ::
    "platform \<Rightarrow> runtime \<Rightarrow> pystr \<Rightarrow> pystr \<Rightarrow> pystr \<Rightarrow> pystr \<Rightarrow> pystr \<Rightarrow> pystr \<Rightarrow> pystr option \<Rightarrow> compose_exn + json" where
  "compose_event P rt source_local target ty body event_id created_at in_reply_to =
     sign_and_seal P rt
       (signed_event \<lparr>ep_origin = id_family (rt_identity rt), ep_key_id = id_key_id (rt_identity rt),
          ep_event_id = event_id, ep_type = ty, ep_source_local = source_local, ep_target = target,
          ep_created_at = created_at, ep_text = body, ep_in_reply_to = in_reply_to\<rparr>)
       validate_event_envelope"

definition signed_receipt :: "runtime \<Rightarrow> pystr \<Rightarrow> pystr \<Rightarrow> pystr \<Rightarrow> pystr \<Rightarrow> pystr \<Rightarrow> pystr \<Rightarrow> dict" where
  "signed_receipt rt event_id origin sig_hash agent ack_type at_time =
     [(lit ''kind'', JStr RECEIPT_KIND), (lit ''issuer'', JStr (id_family (rt_identity rt))),
      (lit ''key_id'', JStr (id_key_id (rt_identity rt))),
      (lit ''receipt'', JObj [(lit ''event_id'', JStr event_id), (lit ''origin'', JStr origin),
         (lit ''origin_event_sig_hash'', JStr sig_hash), (lit ''agent'', JStr agent),
         (lit ''ack_type'', JStr ack_type), (lit ''at'', JStr at_time)])]"

definition compose_receipt ::
    "platform \<Rightarrow> runtime \<Rightarrow> pystr \<Rightarrow> pystr \<Rightarrow> pystr \<Rightarrow> pystr \<Rightarrow> pystr \<Rightarrow> pystr \<Rightarrow> compose_exn + json" where
  "compose_receipt P rt event_id origin sig_hash agent ack_type at_time =
     sign_and_seal P rt (signed_receipt rt event_id origin sig_hash agent ack_type at_time) validate_receipt_envelope"

section \<open>Rate limits\<close>

text \<open>
  The token bucket over real numbers: the rounding of floating point is not modelled.  The clock
  is \<open>time.monotonic()\<close>, in seconds.
\<close>

record bucket =
  b_capacity :: real
  b_tokens :: real
  b_updated :: real

definition new_bucket :: "int \<Rightarrow> real \<Rightarrow> bucket" where
  "new_bucket rate_per_min t =
     \<lparr>b_capacity = of_int (max 1 rate_per_min), b_tokens = of_int (max 1 rate_per_min), b_updated = t\<rparr>"

definition refill_per_sec :: "bucket \<Rightarrow> real" where
  "refill_per_sec b = b_capacity b / 60"

definition allow :: "real \<Rightarrow> bucket \<Rightarrow> bool \<times> bucket" where
  "allow t b =
     (let tokens = min (b_capacity b) (b_tokens b + (t - b_updated b) * refill_per_sec b);
          b' = b\<lparr>b_tokens := tokens, b_updated := t\<rparr>
      in if tokens \<ge> 1 then (True, b'\<lparr>b_tokens := tokens - 1\<rparr>) else (False, b'))"

text \<open>\<open>allow_family\<close>: one bucket per family, created on its first request.\<close>

definition allow_family :: "config \<Rightarrow> real \<Rightarrow> pystr \<Rightarrow> (pystr \<rightharpoonup> bucket) \<Rightarrow> bool \<times> (pystr \<rightharpoonup> bucket)" where
  "allow_family cfg t family buckets =
     (let b = (case buckets family of Some b \<Rightarrow> b | None \<Rightarrow> new_bucket (cf_rate_family_per_min cfg) t);
          (ok, b') = allow t b
      in (ok, buckets(family \<mapsto> b')))"

section \<open>Sending an envelope\<close>

text \<open>
  What opening the request gives: a 2xx response with its body, an \<open>HTTPError\<close> with its code and
  its \<open>Retry-After\<close> header, one of the caught network errors, or an exception the code does not
  catch (\<open>http.client\<close> raises such), both with their class.
\<close>

datatype http_result =
    Response int bytes
  | HTTPError int "pystr option"
  | Network_Error pystr
  | Other_Exception pystr

datatype outcome_kind = Out_Sent | Out_Retry | Out_Permanent

record send_outcome =
  so_kind :: outcome_kind
  so_error :: pystr
  so_retry_after :: "int option"

definition SendOutcome :: "outcome_kind \<Rightarrow> pystr \<Rightarrow> send_outcome" where
  "SendOutcome kind error = \<lparr>so_kind = kind, so_error = error, so_retry_after = None\<rparr>"

definition PERMANENT_HTTP :: "int set" where
  "PERMANENT_HTTP = {400, 401, 403, 409, 413, 422}"

definition MAX_RESPONSE_BYTES :: nat where
  "MAX_RESPONSE_BYTES = 65536"

text \<open>
  \<open>_parse_retry_after\<close>, in microseconds; \<open>time_now\<close> is \<open>time.time()\<close>.  \<open>http_date\<close> is the instant
  \<open>parsedate_to_datetime\<close> reads, a date without a zone taken as UTC.
\<close>

definition parse_retry_after :: "platform \<Rightarrow> int \<Rightarrow> pystr option \<Rightarrow> int option" where
  "parse_retry_after P time_now value =
     (case value of
        None \<Rightarrow> None
      | Some v \<Rightarrow>
          if v = [] then None
          else
            (let v' = strip v in
             if v' \<noteq> [] \<and> list_all is_digit v' then Some (digits_value v' * 1000000)
             else map_option (\<lambda>instant. max 0 (instant - time_now)) (http_date P v')))"

definition response_outcome :: "int \<Rightarrow> bytes \<Rightarrow> send_outcome" where
  "response_outcome code raw =
     (if code \<noteq> 200 then SendOutcome Out_Retry (lit ''unexpected_status_'' @ dec_int code)
      else if MAX_RESPONSE_BYTES < length raw then SendOutcome Out_Retry (lit ''oversized_200_body'')
      else
        (case utf8_decode raw of
           None \<Rightarrow> SendOutcome Out_Retry (lit ''unparseable_200_body'')
         | Some s \<Rightarrow>
             (case parse_json_text s ''response'' of
                Inl _ \<Rightarrow> SendOutcome Out_Retry (lit ''unparseable_200_body'')
              | Inr value \<Rightarrow>
                  if (case value of
                        JObj kvs \<Rightarrow> get kvs (lit ''status'') \<in> {Some (JStr (lit ''stored'')), Some (JStr (lit ''duplicate''))}
                      | _ \<Rightarrow> False)
                  then SendOutcome Out_Sent []
                  else SendOutcome Out_Retry (lit ''unrecognized_200_body''))))"

definition http_error_outcome :: "platform \<Rightarrow> int \<Rightarrow> int \<Rightarrow> pystr option \<Rightarrow> send_outcome" where
  "http_error_outcome P time_now code retry_after =
     (if 300 \<le> code \<and> code < 400 then SendOutcome Out_Permanent (lit ''redirect_not_followed'')
      else if code = 429
      then \<lparr>so_kind = Out_Retry, so_error = lit ''http_429'',
            so_retry_after = parse_retry_after P time_now retry_after\<rparr>
      else if code \<in> PERMANENT_HTTP then SendOutcome Out_Permanent (lit ''http_'' @ dec_int code)
      else SendOutcome Out_Retry (lit ''http_'' @ dec_int code))"

text \<open>
  \<open>send_envelope\<close>: the outcome and the requests it makes, or the class of an exception it lets
  through.  An inadmissible endpoint gets no request.
\<close>

definition send_envelope ::
    "platform \<Rightarrow> bool \<Rightarrow> pystr \<Rightarrow> bytes \<Rightarrow> int \<Rightarrow> http_result \<Rightarrow> (pystr + send_outcome) \<times> (pystr \<times> bytes) list" where
  "send_envelope P allow_loopback url body time_now reply =
     (case endpoint_url_error (netloc_ok P) (JStr url) allow_loopback of
        Some reason \<Rightarrow> (Inr (SendOutcome Out_Permanent (lit ''unsupported_endpoint_url: '' @ reason)), [])
      | None \<Rightarrow>
          (case reply of
             HTTPError code retry_after \<Rightarrow> Inr (http_error_outcome P time_now code retry_after)
           | Network_Error cls \<Rightarrow> Inr (SendOutcome Out_Retry (lit ''connection_error: '' @ cls))
           | Other_Exception cls \<Rightarrow> Inl cls
           | Response code raw \<Rightarrow> Inr (response_outcome code (take (MAX_RESPONSE_BYTES + 1) raw)),
           [(url, body)]))"

section \<open>Backoff\<close>

text \<open>
  \<open>_backoff\<close> on the instant that \<open>datetime.now\<close> reads and the number that \<open>random.uniform\<close> draws.
  \<open>None\<close> is the \<open>OverflowError\<close> that the second branch does not catch.
\<close>

definition round_up :: "int \<Rightarrow> int" where
  "round_up target =
     (if target mod 1000000 \<noteq> 0 \<and> target + 1000000 \<le> max_instant then target + 1000000 else target)"

definition backoff :: "config \<Rightarrow> int \<Rightarrow> int \<Rightarrow> int \<Rightarrow> int option \<Rightarrow> pystr option" where
  "backoff cfg clock rand attempts retry_after =
     (case retry_after of
        Some seconds \<Rightarrow> Some (now_iso (round_up (min (clock + max 0 seconds) max_instant)))
      | None \<Rightarrow>
          (let steps = min (max attempts 1) 10;
               seconds = min (cf_backoff_base cfg * 2 ^ nat (steps - 1) + rand) (cf_backoff_max cfg)
           in if clock + seconds > max_instant then None
              else Some (now_iso (round_up (clock + seconds)))))"

section \<open>The node and one item of the worker\<close>

text \<open>
  The state of a node: the database, the wake hub, the hint cursor and the rate limiters.  An
  item of the worker gets its own readings; a method that calls \<open>_backoff\<close> uses the first clock
  and random reading, and the guard around it the second.  \<open>io_store i\<close> is the class of the exception
  that a store call of the item raises, \<open>None\<close> if it succeeds: 0 is the method's change of the row's
  state, 1 the guard's, 2 the writing of a signed receipt, 3 the reading of a row or event.  A store
  method runs in one transaction, so a call that raises leaves the database as it was.
\<close>

record node =
  nd_db :: fed
  nd_hub :: hub
  nd_hint_cursor :: "(pystr \<times> pystr) option"
  nd_conn_bucket :: bucket
  nd_family_buckets :: "pystr \<rightharpoonup> bucket"

record item_io =
  io_env :: env
  io_reply :: http_result
  io_time :: int
  io_clock :: "nat \<Rightarrow> int"
  io_rand :: "nat \<Rightarrow> int"
  io_store :: "nat \<Rightarrow> pystr option"

text \<open>The result of a worker method: the class of the exception it raises, or the truth value it returns.\<close>

type_synonym item_res = "(pystr + bool) \<times> node"

definition on_db :: "(fed \<Rightarrow> fed) \<Rightarrow> node \<Rightarrow> node" where
  "on_db f n = n\<lparr>nd_db := f (nd_db n)\<rparr>"

definition store_call :: "item_io \<Rightarrow> nat \<Rightarrow> bool \<Rightarrow> (fed \<Rightarrow> fed) \<Rightarrow> node \<Rightarrow> item_res" where
  "store_call io i b f n =
     (case io_store io i of Some cls \<Rightarrow> (Inl cls, n) | None \<Rightarrow> (Inr b, on_db f n))"

definition wake_agent :: "pystr option \<Rightarrow> json \<Rightarrow> node \<Rightarrow> bool \<times> node" where
  "wake_agent agent item n =
     (case agent of
        None \<Rightarrow> (False, n)
      | Some a \<Rightarrow> (let (ok, h) = notify a item (nd_hub n) in (ok, n\<lparr>nd_hub := h\<rparr>)))"

text \<open>Writing the retry deadline; an overflow of the deadline is raised before the store is called.\<close>

definition retry_outbound :: "config \<Rightarrow> item_io \<Rightarrow> nat \<Rightarrow> outbound_row \<Rightarrow> int option \<Rightarrow> pystr \<Rightarrow> node \<Rightarrow> item_res" where
  "retry_outbound cfg io k row retry_after error n =
     (case backoff cfg (io_clock io k) (io_rand io k) (o_attempts row + 1) retry_after of
        None \<Rightarrow> (Inl (lit ''OverflowError''), n)
      | Some t \<Rightarrow>
          store_call io k False (mark_outbound_retry (o_event_id row) (o_attempts row + 1) t error (io_env io)) n)"

definition retry_receipt :: "config \<Rightarrow> item_io \<Rightarrow> nat \<Rightarrow> receipt_out_row \<Rightarrow> int option \<Rightarrow> pystr \<Rightarrow> node \<Rightarrow> item_res" where
  "retry_receipt cfg io k row retry_after error n =
     (case backoff cfg (io_clock io k) (io_rand io k) (ro_attempts row + 1) retry_after of
        None \<Rightarrow> (Inl (lit ''OverflowError''), n)
      | Some t \<Rightarrow>
          store_call io k False (mark_receipt_retry (ro_event_id row) (ro_agent row) (ro_ack_type row)
            (ro_attempts row + 1) t error (io_env io)) n)"

definition apply_outcome ::
    "send_outcome \<Rightarrow> (node \<Rightarrow> item_res) \<Rightarrow> (int option \<Rightarrow> node \<Rightarrow> item_res) \<Rightarrow> (node \<Rightarrow> item_res) \<Rightarrow> node \<Rightarrow> item_res" where
  "apply_outcome outcome sent retry permanent n =
     (case so_kind outcome of
        Out_Sent \<Rightarrow> sent n
      | Out_Permanent \<Rightarrow> permanent n
      | Out_Retry \<Rightarrow> retry (so_retry_after outcome) n)"

definition send_outbound :: "platform \<Rightarrow> runtime \<Rightarrow> item_io \<Rightarrow> outbound_row \<Rightarrow> node \<Rightarrow> item_res" where
  "send_outbound P rt io row n =
     (case receipts_peer (rt_registry rt) (o_target_family row) of
        None \<Rightarrow> retry_outbound (rt_config rt) io 0 row None (lit ''unregistered_family'') n
      | Some peer \<Rightarrow>
          (case fst (send_envelope P (cf_allow_insecure_loopback (rt_config rt)) (pr_inbox_url peer)
                   (o_envelope_json row) (io_time io) (io_reply io)) of
             Inl cls \<Rightarrow> (Inl cls, n)
           | Inr outcome \<Rightarrow>
               apply_outcome outcome
                 (store_call io 0 False (mark_outbound_sent (o_event_id row) (io_env io)))
                 (\<lambda>ra. retry_outbound (rt_config rt) io 0 row ra (so_error outcome))
                 (store_call io 0 False (\<lambda>s. snd (fail_outbound_permanent (o_event_id row) (so_error outcome) (io_env io) s)))
                 n))"

definition exn_class :: "compose_exn \<Rightarrow> pystr" where
  "exn_class e = (case e of Compose_Fed _ \<Rightarrow> lit ''FederationError'' | Unicode_Encode_Error \<Rightarrow> lit ''UnicodeEncodeError'')"

definition materialize_row :: "platform \<Rightarrow> runtime \<Rightarrow> item_io \<Rightarrow> receipt_out_row \<Rightarrow> node \<Rightarrow> item_res" where
  "materialize_row P rt io row n =
     (case compose_receipt P rt (ro_event_id row) (ro_origin row) (ro_origin_event_sig_hash row)
             (ro_agent row) (ro_ack_type row) (ro_at row) of
        Inl e \<Rightarrow> (Inl (exn_class e), n)
      | Inr env \<Rightarrow>
          (let sig = (case env of JObj kvs \<Rightarrow> (case get kvs (lit ''sig'') of Some (JStr sg) \<Rightarrow> sg | _ \<Rightarrow> []) | _ \<Rightarrow> []) in
           store_call io 2 True (\<lambda>s. snd (materialize_receipt (ro_event_id row) (ro_agent row) (ro_ack_type row)
                        (sort_keys env) sig (io_env io) s)) n))"

text \<open>The body of a receipt: the stored object with the stored signature as its \<open>sig\<close>.\<close>

definition receipt_wire :: "receipt_out_row \<Rightarrow> pystr + bytes" where
  "receipt_wire row =
     (case ro_signed_json row of
        Some (JObj kvs) \<Rightarrow>
          (case canonical_bytes (JObj (dict_set kvs (lit ''sig'') (json_opt (ro_sig row)))) of
             None \<Rightarrow> Inl (lit ''UnicodeEncodeError'')
           | Some bs \<Rightarrow> Inr bs)
      | _ \<Rightarrow> Inl (lit ''TypeError''))"

definition send_signed_receipt :: "platform \<Rightarrow> runtime \<Rightarrow> item_io \<Rightarrow> receipt_out_row \<Rightarrow> node \<Rightarrow> item_res" where
  "send_signed_receipt P rt io row n =
     (case receipts_peer (rt_registry rt) (ro_origin row) of
        None \<Rightarrow> retry_receipt (rt_config rt) io 0 row None (lit ''unregistered_family'') n
      | Some peer \<Rightarrow>
          (case receipt_wire row of
             Inl cls \<Rightarrow> (Inl cls, n)
           | Inr body \<Rightarrow>
               (case fst (send_envelope P (cf_allow_insecure_loopback (rt_config rt)) (pr_receipts_url peer)
                        body (io_time io) (io_reply io)) of
                  Inl cls \<Rightarrow> (Inl cls, n)
                | Inr outcome \<Rightarrow>
                    apply_outcome outcome
                      (store_call io 0 False (mark_receipt_sent (ro_event_id row) (ro_agent row) (ro_ack_type row) (io_env io)))
                      (\<lambda>ra. retry_receipt (rt_config rt) io 0 row ra (so_error outcome))
                      (store_call io 0 False (\<lambda>s. snd (fail_receipt_permanent (ro_event_id row) (ro_agent row)
                              (ro_ack_type row) (so_error outcome) (io_env io) s)))
                      n)))"

definition send_receipt :: "platform \<Rightarrow> runtime \<Rightarrow> item_io \<Rightarrow> receipt_out_row \<Rightarrow> node \<Rightarrow> item_res" where
  "send_receipt P rt io row n =
     (if ro_signed_json row = None
      then
        (case materialize_row P rt io row n of
           (Inl cls, n') \<Rightarrow> (Inl cls, n')
         | (Inr _, n') \<Rightarrow>
             (case io_store io 3 of
                Some cls \<Rightarrow> (Inl cls, n')
              | None \<Rightarrow>
                  send_signed_receipt P rt io
                    (case get_receipt_out (ro_event_id row) (ro_agent row) (ro_ack_type row) (nd_db n') of
                       None \<Rightarrow> row | Some stored \<Rightarrow> stored) n'))
      else send_signed_receipt P rt io row n)"

definition deliver_one :: "item_io \<Rightarrow> inbound_row \<Rightarrow> node \<Rightarrow> item_res" where
  "deliver_one io row n =
     (case io_store io 3 of
        Some cls \<Rightarrow> (Inl cls, n)
      | None \<Rightarrow>
          store_call io 0 True (mark_delivered (i_origin row) (i_event_id row))
            (case get_event (i_local_event_id row) (nd_db n) of
               Inl _ \<Rightarrow> n
             | Inr ev \<Rightarrow>
                 snd (wake_agent (Some (ev_target ev))
                   (JObj [(lit ''kind'', JStr (lit ''event'')), (lit ''event'', event_to_dict ev)]) n)))"

definition hint_payload :: "notification_row \<Rightarrow> json" where
  "hint_payload row =
     JObj [(lit ''kind'', JStr (lit ''federation_notification'')),
       (lit ''notification'', JObj [(lit ''intent_id'', JStr (n_intent_id row)), (lit ''kind'', JStr (n_kind row)),
          (lit ''agent'', json_opt (n_agent row)), (lit ''event_id'', json_opt (n_event_id row)),
          (lit ''detail'', n_detail_json row)])]"

definition hint_one :: "item_io \<Rightarrow> notification_row \<Rightarrow> node \<Rightarrow> item_res" where
  "hint_one io row n =
     (if n_agent row = None then (Inr False, n)
      else
        (case wake_agent (n_agent row) (hint_payload row) n of
           (False, n') \<Rightarrow> (Inr False, n')
         | (True, n') \<Rightarrow> store_call io 0 True (mark_notification_hint_sent (n_intent_id row)) n'))"

section \<open>The guard and the cycle\<close>

datatype work_row =
    Work_Outbound outbound_row
  | Work_Receipt receipt_out_row
  | Work_Delivery inbound_row
  | Work_Notification notification_row

text \<open>
  \<open>_guarded\<close>: an exception of the method is persisted as backoff where the row has retry state.  An
  exception of that (the overflow of the deadline or the store) is caught as well and leaves the row.
\<close>

definition guarded :: "config \<Rightarrow> item_io \<Rightarrow> work_row \<Rightarrow> (node \<Rightarrow> item_res) \<Rightarrow> node \<Rightarrow> bool \<times> node" where
  "guarded cfg io row fn n =
     (case fn n of
        (Inr b, n') \<Rightarrow> (b, n')
      | (Inl cls, n') \<Rightarrow>
          (False,
           case row of
             Work_Outbound r \<Rightarrow> snd (retry_outbound cfg io 1 r None (lit ''worker_error: '' @ cls) n')
           | Work_Receipt r \<Rightarrow> snd (retry_receipt cfg io 1 r None (lit ''worker_error: '' @ cls) n')
           | _ \<Rightarrow> n'))"

fun each_row :: "(nat \<Rightarrow> 'r \<Rightarrow> node \<Rightarrow> bool \<times> node) \<Rightarrow> nat \<Rightarrow> 'r list \<Rightarrow> node \<Rightarrow> nat \<times> node" where
  "each_row step k [] n = (0, n)"
| "each_row step k (row # rows) n =
     (let (done_one, n1) = step k row n; (count, n2) = each_row step (Suc k) rows n1
      in ((if done_one then Suc count else count), n2))"

type_synonym world = "nat \<Rightarrow> item_io"

definition deliver_pending :: "config \<Rightarrow> world \<Rightarrow> node \<Rightarrow> nat \<times> node" where
  "deliver_pending cfg W n =
     each_row (\<lambda>k row. guarded cfg (W k) (Work_Delivery row) (deliver_one (W k) row)) 0
       (pending_delivery 100 (nd_db n)) n"

definition HINT_SCAN_BUDGET :: nat where "HINT_SCAN_BUDGET = 5000"
definition HINT_PAGE :: nat where "HINT_PAGE = 100"

definition hint_page :: "config \<Rightarrow> world \<Rightarrow> nat \<Rightarrow> notification_row list \<Rightarrow> node \<Rightarrow> nat \<times> node" where
  "hint_page cfg W scanned page n =
     each_row (\<lambda>k row. guarded cfg (W k) (Work_Notification row) (hint_one (W k) row)) scanned page n"

text \<open>The loop of \<open>hint_notifications\<close>; the cursor is kept in the node, as the code keeps it.\<close>

function hint_loop :: "config \<Rightarrow> world \<Rightarrow> (pystr \<times> pystr) option \<Rightarrow> nat \<Rightarrow> nat \<Rightarrow> node \<Rightarrow> nat \<times> node" where
  "hint_loop cfg W after scanned hinted n =
     (if HINT_SCAN_BUDGET \<le> scanned then (hinted, n)
      else
        (let page = undelivered_notification_hints after HINT_PAGE (nd_db n) in
         if page = [] then (hinted, n\<lparr>nd_hint_cursor := None\<rparr>)
         else
           (let (count, n1) = hint_page cfg W scanned page n;
                cursor = Some (n_created_at (last page), n_intent_id (last page))
            in if length page < HINT_PAGE then (hinted + count, n1\<lparr>nd_hint_cursor := None\<rparr>)
               else hint_loop cfg W cursor (scanned + length page) (hinted + count) (n1\<lparr>nd_hint_cursor := cursor\<rparr>))))"
  by auto

termination
  by (relation "measure (\<lambda>(cfg, W, after, scanned, hinted, n). HINT_SCAN_BUDGET - scanned)")
    (auto simp: HINT_PAGE_def)

declare hint_loop.simps [simp del]

definition hint_notifications :: "config \<Rightarrow> world \<Rightarrow> node \<Rightarrow> nat \<times> node" where
  "hint_notifications cfg W n = hint_loop cfg W (nd_hint_cursor n) 0 0 n"

record cycle_io =
  cy_now :: pystr
  cy_outbound :: world
  cy_receipts :: world
  cy_delivery :: world
  cy_hints :: world

definition process_due :: "platform \<Rightarrow> runtime \<Rightarrow> cycle_io \<Rightarrow> node \<Rightarrow> node" where
  "process_due P rt C n =
     (let cfg = rt_config rt;
          n1 = snd (each_row (\<lambda>k row. guarded cfg (cy_outbound C k) (Work_Outbound row)
                 (send_outbound P rt (cy_outbound C k) row)) 0 (due_outbound (cy_now C) 20 (nd_db n)) n);
          n2 = snd (each_row (\<lambda>k row. guarded cfg (cy_receipts C k) (Work_Receipt row)
                 (send_receipt P rt (cy_receipts C k) row)) 0 (due_receipts (cy_now C) 20 (nd_db n1)) n1);
          n3 = snd (deliver_pending cfg (cy_delivery C) n2)
      in snd (hint_notifications cfg (cy_hints C) n3))"

definition recovery_scan :: "platform \<Rightarrow> runtime \<Rightarrow> world \<Rightarrow> cycle_io \<Rightarrow> node \<Rightarrow> node" where
  "recovery_scan P rt W C n =
     process_due P rt C
       (snd (each_row (\<lambda>k row. guarded (rt_config rt) (W k) (Work_Receipt row) (materialize_row P rt (W k) row)) 0
          (filter (\<lambda>row. ro_signed_json row = None) (due_receipts (cy_now C) 1000 (nd_db n))) n))"

end
