(* ===== verification/Fed_Worker.thy ===== *)
theory Fed_Worker
  imports Fed_Runtime
begin

text \<open>
  What the worker of the federation runtime promises: every cycle is a run of store operations,
  no row of a batch keeps another from being handled, a retry is never due too early, a rate
  limiter admits no more than its rate, and the hint sweep reaches every pending row.
\<close>

section \<open>Retry deadlines\<close>

text \<open>The delay that \<open>_backoff\<close> intends, before the deadline is rounded up to a whole second.\<close>

definition backoff_delay :: "config \<Rightarrow> int \<Rightarrow> int \<Rightarrow> int option \<Rightarrow> int" where
  "backoff_delay cfg rand attempts retry_after =
     (case retry_after of
        Some seconds \<Rightarrow> max 0 seconds
      | None \<Rightarrow> min (cf_backoff_base cfg * 2 ^ nat (min (max attempts 1) 10 - 1) + rand) (cf_backoff_max cfg))"

lemma div_le_round:
  fixes a b c :: int
  assumes "0 < c"
  shows "a mod c = 0 \<Longrightarrow> a div c \<le> b div c \<longleftrightarrow> a \<le> b"
    and "a mod c \<noteq> 0 \<Longrightarrow> (a + c) div c \<le> b div c \<Longrightarrow> a < b"
    and "a + c \<le> b \<Longrightarrow> (a + c) div c \<le> b div c"
proof -
  have a: "a = a div c * c + a mod c" and b: "b = b div c * c + b mod c" by simp_all
  have m: "0 \<le> a mod c" "a mod c < c" "0 \<le> b mod c" "b mod c < c" using assms by simp_all
  show "a div c \<le> b div c \<longleftrightarrow> a \<le> b" if "a mod c = 0"
  proof
    assume "a div c \<le> b div c"
    then have "a div c * c \<le> b div c * c" using assms by (simp add: mult_right_mono)
    then show "a \<le> b" using a b m that by linarith
  qed (rule zdiv_mono1 [OF _ assms])
  show "a < b" if "a mod c \<noteq> 0" "(a + c) div c \<le> b div c"
  proof -
    have "a div c + 1 \<le> b div c" using that(2) assms by simp
    then have "(a div c + 1) * c \<le> b div c * c" using assms by (simp add: mult_right_mono)
    then have "a div c * c + c \<le> b div c * c" by (simp add: algebra_simps)
    then show ?thesis using a b m by linarith
  qed
  show "(a + c) div c \<le> b div c" if "a + c \<le> b" using that assms by (rule zdiv_mono1)
qed

text \<open>
  C38: A deadline that \<open>_backoff\<close> writes is never due too early and at most one second late: at an
  instant \<open>u\<close>, whose second the due scan compares with the stored text, the row is due only if
  the whole delay has passed, and it is due once the delay and one second have passed.  A
  \<open>Retry-After\<close> of the peer is honoured in full.  The only exception is the last second of year
  9999, at which a longer delay is capped.  Without \<open>Retry-After\<close> the delay is the capped
  exponential one; the code raises only if its deadline is beyond year 9999.
\<close>

theorem backoff_never_early:
  assumes "representable clock" "0 \<le> backoff_delay cfg rand attempts retry_after" "representable u"
  defines "deadline \<equiv> clock + backoff_delay cfg rand attempts retry_after"
  shows "(\<forall>t. backoff cfg clock rand attempts retry_after = Some t \<longrightarrow>
       (due (now_iso u) (Some t) \<longrightarrow> min deadline (max_instant - 999999) \<le> u) \<and>
       (deadline + 1000000 \<le> u \<longrightarrow> due (now_iso u) (Some t))) \<and>
    (backoff cfg clock rand attempts retry_after = None \<longleftrightarrow> retry_after = None \<and> max_instant < deadline)"
proof -
  define D where "D = min deadline max_instant"
  have D: "representable D" using assms(1,2) by (simp add: D_def deadline_def representable_def)
  have val: "backoff cfg clock rand attempts retry_after =
      (if retry_after = None \<and> max_instant < deadline then None else Some (now_iso (round_up D)))"
    by (auto simp: backoff_def backoff_delay_def deadline_def D_def Let_def split: option.split)
  have rep: "representable (round_up D)" using D by (simp add: round_up_def representable_def)
  have due: "due (now_iso u) (Some (now_iso (round_up D))) \<longleftrightarrow> round_up D div 1000000 \<le> u div 1000000"
    using now_iso_le_iff [OF rep assms(3)] by (simp add: due_def)
  have u: "u \<le> max_instant" using assms(3) by (simp add: representable_def)
  have early: "min deadline (max_instant - 999999) \<le> u" if *: "round_up D div 1000000 \<le> u div 1000000"
  proof (cases "D mod 1000000 = 0")
    case True
    then have "D \<le> u" using * div_le_round(1) [of 1000000 D u] by (simp add: round_up_def)
    then show ?thesis by (simp add: D_def min_def split: if_splits)
  next
    case False
    show ?thesis
    proof (cases "D + 1000000 \<le> max_instant")
      case True
      then have "D < u" using * False div_le_round(2) [of 1000000 D u] by (simp add: round_up_def)
      then show ?thesis by (simp add: D_def min_def split: if_splits)
    next
      case late: False
      then have "(max_instant - 999999) div 1000000 \<le> D div 1000000" by (intro zdiv_mono1) simp_all
      also have "\<dots> \<le> u div 1000000" using * late by (simp add: round_up_def)
      finally have "max_instant - 999999 \<le> u"
        using div_le_round(1) [of 1000000 "max_instant - 999999" u] by (simp add: max_instant_def)
      then show ?thesis by simp
    qed
  qed
  have late: "round_up D div 1000000 \<le> u div 1000000" if "deadline + 1000000 \<le> u"
  proof -
    have "round_up D \<le> D + 1000000" by (simp add: round_up_def)
    also have "\<dots> \<le> u" using that by (simp add: D_def)
    finally show ?thesis by (intro zdiv_mono1) simp_all
  qed
  show ?thesis unfolding val using due early late by auto
qed

definition demo_config :: config where
  "demo_config = \<lparr>cf_enabled = True, cf_outbox_cap = 1000, cf_rate_conn_per_min = 300,
     cf_rate_family_per_min = 60, cf_backoff_base = 2000000, cf_backoff_max = 300000000,
     cf_allow_insecure_loopback = False\<rparr>"

theorem backoff_never_early_witness:
  "\<not> due (now_iso 7200899999) (Some (now_iso (round_up 7200900000))) \<and>
   backoff demo_config 900000 0 1 (Some 7200000000) = Some (now_iso (round_up 7200900000))"
proof -
  have val: "backoff demo_config 900000 0 1 (Some 7200000000) = Some (now_iso (round_up 7200900000))"
    by (simp add: backoff_def max_instant_def)
  then show ?thesis
    using backoff_never_early [of 900000 demo_config 0 1 "Some 7200000000" 7200899999]
    by (auto simp: representable_def max_instant_def backoff_delay_def)
qed

section \<open>Rate limits\<close>

text \<open>The requests of a bucket at the given times, in order, and how many of them it admits.\<close>

fun admitted :: "real list \<Rightarrow> bucket \<Rightarrow> nat \<times> bucket" where
  "admitted [] b = (0, b)"
| "admitted (t # ts) b =
     (let (ok, b1) = allow t b; (k, b2) = admitted ts b1 in ((if ok then Suc k else k), b2))"

definition bucket_ok :: "bucket \<Rightarrow> bool" where
  "bucket_ok b = (1 \<le> b_capacity b \<and> 0 \<le> b_tokens b \<and> b_tokens b \<le> b_capacity b)"

definition refilled :: "real \<Rightarrow> bucket \<Rightarrow> real" where
  "refilled t b = min (b_capacity b) (b_tokens b + (t - b_updated b) * refill_per_sec b)"

lemma allow_simps:
  "fst (allow t b) \<longleftrightarrow> 1 \<le> refilled t b"
  "b_capacity (snd (allow t b)) = b_capacity b"
  "b_updated (snd (allow t b)) = t"
  "b_tokens (snd (allow t b)) = (if 1 \<le> refilled t b then refilled t b - 1 else refilled t b)"
  by (simp_all add: allow_def Let_def refilled_def)

lemma allow_effect:
  assumes "bucket_ok b" "b_updated b \<le> t"
  shows "bucket_ok (snd (allow t b))" "b_capacity (snd (allow t b)) = b_capacity b"
    "b_updated (snd (allow t b)) = t"
    "(if fst (allow t b) then 1 else 0) + b_tokens (snd (allow t b)) = refilled t b"
    "refilled t b \<le> b_tokens b + (t - b_updated b) * refill_per_sec b" "refilled t b \<le> b_capacity b"
    "1 \<le> b_tokens b + (t - b_updated b) * refill_per_sec b \<Longrightarrow> fst (allow t b)"
proof -
  have "0 \<le> (t - b_updated b) * refill_per_sec b"
    using assms by (simp add: bucket_ok_def refill_per_sec_def)
  then have "0 \<le> refilled t b" using assms(1) by (simp add: bucket_ok_def refilled_def)
  moreover show "refilled t b \<le> b_capacity b" by (simp add: refilled_def)
  ultimately show "bucket_ok (snd (allow t b))" using assms(1) by (simp add: bucket_ok_def allow_simps)
  show "1 \<le> b_tokens b + (t - b_updated b) * refill_per_sec b \<Longrightarrow> fst (allow t b)"
    using assms(1) by (simp add: bucket_ok_def allow_simps refilled_def)
qed (simp_all add: allow_simps refilled_def)

lemma admitted_bound:
  assumes "bucket_ok b" "sorted (b_updated b # ts)"
  shows "bucket_ok (snd (admitted ts b)) \<and> b_capacity (snd (admitted ts b)) = b_capacity b \<and>
    real (fst (admitted ts b)) + b_tokens (snd (admitted ts b)) \<le>
      b_tokens b + (last (b_updated b # ts) - b_updated b) * refill_per_sec b"
  using assms
proof (induction ts arbitrary: b)
  case Nil
  then show ?case by simp
next
  case (Cons t ts)
  define b1 where "b1 = snd (allow t b)"
  have t: "b_updated b \<le> t" using Cons.prems(2) by simp
  note one = allow_effect [OF Cons.prems(1) t, folded b1_def]
  have "sorted (b_updated b1 # ts)" using Cons.prems(2) one(3) by simp
  note IH = Cons.IH [OF one(1) this]
  have rate: "refill_per_sec b1 = refill_per_sec b" using one(2) by (simp add: refill_per_sec_def)
  have "(last (t # ts) - t) * refill_per_sec b + (t - b_updated b) * refill_per_sec b =
      (last (t # ts) - b_updated b) * refill_per_sec b"
    by (simp add: algebra_simps)
  then show ?case
    using IH one(2,3,4,5) rate by (cases "fst (allow t b)") (simp_all add: b1_def [symmetric] split_beta Let_def)
qed

lemma admitted_all:
  assumes "bucket_ok b" "sorted (b_updated b # ts)"
    "ts \<noteq> [] \<Longrightarrow> 1 \<le> b_tokens b + (hd ts - b_updated b) * refill_per_sec b"
    "sorted_wrt (\<lambda>t t'. 60 / b_capacity b \<le> t' - t) ts"
  shows "fst (admitted ts b) = length ts"
  using assms
proof (induction ts arbitrary: b)
  case (Cons t ts)
  define b1 where "b1 = snd (allow t b)"
  have t: "b_updated b \<le> t" using Cons.prems(2) by simp
  note one = allow_effect [OF Cons.prems(1) t, folded b1_def]
  have cap: "0 < b_capacity b" using Cons.prems(1) by (simp add: bucket_ok_def)
  have "1 \<le> b_tokens b1 + (hd ts - b_updated b1) * refill_per_sec b1" if "ts \<noteq> []"
  proof -
    have "60 / b_capacity b \<le> hd ts - t" using Cons.prems(4) that by simp
    then have "1 \<le> (hd ts - t) * refill_per_sec b" using cap by (simp add: refill_per_sec_def field_simps)
    then show ?thesis using one(1,2,3) by (simp add: bucket_ok_def refill_per_sec_def)
  qed
  then have "fst (admitted ts b1) = length ts"
    using Cons.IH [OF one(1)] Cons.prems(2,4) one(2,3) by simp
  then show ?case using one(7) Cons.prems(3) by (simp add: b1_def split_beta Let_def)
qed simp

text \<open>
  C39: A token bucket enforces its rate and no more than its rate: after any earlier requests
  \<open>past\<close>, the requests at times \<open>t # ts\<close> admit at most the capacity (the requests per minute) plus
  one capacity per minute elapsed, and if their distance is at least a minute divided by
  the capacity and the bucket has a whole token for the first, none of them is refused.
\<close>

theorem token_bucket_rate:
  fixes rate :: int
  assumes "sorted (start # past @ t # ts)"
  defines "b \<equiv> snd (admitted past (new_bucket rate start))"
  shows "real (fst (admitted (t # ts) b)) \<le>
      of_int (max 1 rate) + (last (t # ts) - t) * (of_int (max 1 rate) / 60) \<and>
    (fst (allow t b) \<and> sorted_wrt (\<lambda>x y. 60 / of_int (max 1 rate) \<le> y - x) (t # ts) \<longrightarrow>
      fst (admitted (t # ts) b) = length (t # ts))"
proof -
  have new: "bucket_ok (new_bucket rate start)" "b_updated (new_bucket rate start) = start"
      "b_capacity (new_bucket rate start) = of_int (max 1 rate)"
    by (simp_all add: new_bucket_def bucket_ok_def)
  have upd: "b_updated (snd (admitted ps c)) = last (b_updated c # ps)" for ps c
    by (induction ps arbitrary: c) (simp_all add: split_beta Let_def allow_simps)
  have "sorted (start # past)" using assms(1) by (auto simp: sorted_append)
  then have b: "bucket_ok b" "b_capacity b = of_int (max 1 rate)" "b_updated b = last (start # past)"
    using admitted_bound [OF new(1)] new upd by (simp_all add: b_def)
  have "last (start # past) \<in> set (start # past)" by (rule last_in_set) simp
  then have t: "b_updated b \<le> t" using assms(1) b(3) by (auto simp: sorted_append)
  define b1 where "b1 = snd (allow t b)"
  note one = allow_effect [OF b(1) t, folded b1_def]
  have srt: "sorted (b_updated b1 # ts)" using assms(1) one(3) by (simp add: sorted_append)
  note bound = admitted_bound [OF one(1) srt]
  have rate: "refill_per_sec b1 = of_int (max 1 rate) / 60" using one(2) b(2) by (simp add: refill_per_sec_def)
  have "(if fst (allow t b) then 1 else 0) + b_tokens b1 \<le> of_int (max 1 rate)"
    using one(4,6) b(2) by simp
  moreover have "0 \<le> b_tokens (snd (admitted ts b1))" using bound by (simp add: bucket_ok_def)
  ultimately have "real (fst (admitted (t # ts) b)) \<le>
      of_int (max 1 rate) + (last (t # ts) - t) * (of_int (max 1 rate) / 60)"
    using bound rate one(3) by (cases "fst (allow t b)") (simp_all add: b1_def [symmetric] split_beta Let_def)
  moreover have "fst (admitted (t # ts) b) = length (t # ts)"
    if "fst (allow t b)" "sorted_wrt (\<lambda>x y. 60 / of_int (max 1 rate) \<le> y - x) (t # ts)"
  proof -
    have "1 \<le> b_tokens b + (t - b_updated b) * refill_per_sec b"
      using that(1) by (simp add: allow_simps refilled_def)
    moreover have "sorted (b_updated b # t # ts)" using t assms(1) by (auto simp: sorted_append)
    ultimately show ?thesis using admitted_all [OF b(1), of "t # ts"] that(2) b(2) by simp
  qed
  ultimately show ?thesis by blast
qed

theorem token_bucket_rate_witness:
  "real (fst (admitted [0, 0, 30] (new_bucket 2 0))) \<le> 2 + 30 * (2 / 60)"
  using token_bucket_rate [of 0 "[]" 0 "[0, 30]" 2] by simp

section \<open>A cycle is a run of store operations\<close>

abbreviation db_run :: "node \<Rightarrow> node \<Rightarrow> bool" where
  "db_run n n' \<equiv> fed_next\<^sup>*\<^sup>* (nd_db n) (nd_db n')"

lemma nd_db_simps [simp]:
  "nd_db (on_db f n) = f (nd_db n)" "nd_hub (on_db f n) = nd_hub n"
  "nd_db (snd (wake_agent agent item n)) = nd_db n"
  by (simp_all add: on_db_def wake_agent_def split_beta Let_def split: option.split)

lemma fed_run: "fed_step E s s' \<Longrightarrow> fed_next\<^sup>*\<^sup>* s s'"
  unfolding fed_next_def by (rule r_into_rtranclp) (rule exI)

lemmas fed_runs = fed_step.intros [THEN fed_run]

lemma store_call_simps [simp]:
  "io_store io i = None \<Longrightarrow> store_call io i b f n = (Inr b, on_db f n)"
  "io_store io i = Some cls \<Longrightarrow> store_call io i b f n = (Inl cls, n)"
  by (simp_all add: store_call_def)

lemma store_call_run: "fed_next\<^sup>*\<^sup>* (nd_db n) (f (nd_db n)) \<Longrightarrow> db_run n (snd (store_call io i b f n))"
  by (cases "io_store io i") simp_all

lemma store_call_frame: "F (f (nd_db n)) = F (nd_db n) \<Longrightarrow> F (nd_db (snd (store_call io i b f n))) = F (nd_db n)"
  by (cases "io_store io i") simp_all

lemma retry_outbound_run: "db_run n (snd (retry_outbound cfg io k row ra error n))"
  by (auto simp: retry_outbound_def split: option.split intro: store_call_run fed_runs)

lemma retry_receipt_run: "db_run n (snd (retry_receipt cfg io k row ra error n))"
  by (auto simp: retry_receipt_def split: option.split intro: store_call_run fed_runs)

lemma send_outbound_run: "db_run n (snd (send_outbound P rt io row n))"
  using retry_outbound_run
  by (auto simp: send_outbound_def apply_outcome_def split: option.split sum.split outcome_kind.split
      intro: store_call_run fed_runs)

lemma materialize_row_run: "db_run n (snd (materialize_row P rt io row n))"
  by (auto simp: materialize_row_def Let_def split: sum.split intro: store_call_run fed_runs)

lemma send_signed_receipt_run: "db_run n (snd (send_signed_receipt P rt io row n))"
  using retry_receipt_run
  by (auto simp: send_signed_receipt_def apply_outcome_def split: option.split sum.split outcome_kind.split
      intro: store_call_run fed_runs)

lemma send_receipt_run: "db_run n (snd (send_receipt P rt io row n))"
proof (cases "ro_signed_json row = None")
  case True
  obtain r n1 where n1: "materialize_row P rt io row n = (r, n1)" by force
  have "db_run n n1" using materialize_row_run [of n P rt io row] n1 by simp
  moreover have "db_run n1 (snd (send_signed_receipt P rt io x n1))" for x by (rule send_signed_receipt_run)
  ultimately show ?thesis
    using True n1 rtranclp_trans [of fed_next] by (auto simp: send_receipt_def split: sum.split option.split)
next
  case False
  then have "send_receipt P rt io row n = send_signed_receipt P rt io row n" by (simp only: send_receipt_def if_False)
  then show ?thesis using send_signed_receipt_run by simp
qed

lemma deliver_one_run: "db_run n (snd (deliver_one io row n))"
proof -
  have "db_run n (snd (store_call io 0 True (mark_delivered org eid) m))" if "nd_db m = nd_db n" for org eid m
    using that by (auto simp: store_call_def split: option.split intro: fed_runs)
  then show ?thesis by (simp add: deliver_one_def split: option.split sum.split)
qed

lemma hint_one_run: "db_run n (snd (hint_one io row n))"
proof (cases "wake_agent (n_agent row) (hint_payload row) n")
  case (Pair ok n1)
  then have "nd_db n1 = nd_db n" using nd_db_simps(3) [of "n_agent row" "hint_payload row" n] by simp
  then show ?thesis
    using Pair store_call_run [of n1 "mark_notification_hint_sent (n_intent_id row)" io 0 True]
    by (auto simp: hint_one_def split: bool.split intro: fed_runs)
qed

lemma guarded_run:
  assumes "db_run n (snd (fn n))"
  shows "db_run n (snd (guarded cfg io row fn n))"
proof (cases "fn n")
  case (Pair r n1)
  have "db_run n n1" using assms Pair by simp
  then show ?thesis
    using Pair rtranclp_trans [OF _ retry_outbound_run] rtranclp_trans [OF _ retry_receipt_run]
    by (auto simp: guarded_def split: sum.split work_row.split)
qed

lemma each_row_run:
  assumes "\<And>k row n. db_run n (snd (step k row n))"
  shows "db_run n (snd (each_row step k rows n))"
proof (induction rows arbitrary: k n)
  case (Cons row rows)
  show ?case
    using rtranclp_trans [OF assms [of n k row] Cons.IH] by (simp add: split_beta Let_def)
qed simp

lemma hint_page_run: "db_run n (snd (hint_page cfg W scanned page n))"
  unfolding hint_page_def by (intro each_row_run guarded_run hint_one_run)

lemma hint_loop_run: "db_run n (snd (hint_loop cfg W after scanned hinted n))"
proof (induction cfg W after scanned hinted n rule: hint_loop.induct)
  case (1 cfg W after scanned hinted n)
  define page where "page = undelivered_notification_hints after HINT_PAGE (nd_db n)"
  obtain count n1 where n1: "hint_page cfg W scanned page n = (count, n1)" by force
  have "db_run n n1" using hint_page_run [of n cfg W scanned page] n1 by simp
  then show ?case
    using 1 [of page _ count n1] n1 rtranclp_trans [of fed_next "nd_db n" "nd_db n1"]
    by (subst hint_loop.simps) (auto simp: page_def [symmetric] Let_def)
qed

lemma deliver_pending_run: "db_run n (snd (deliver_pending cfg W n))"
  unfolding deliver_pending_def by (intro each_row_run guarded_run deliver_one_run)

lemma hint_notifications_run: "db_run n (snd (hint_notifications cfg W n))"
  unfolding hint_notifications_def by (rule hint_loop_run)

section \<open>No row keeps another from being handled\<close>

text \<open>
  The interface of a batch: processing an open row of the table replaces that row, found by its
  key, and no other.  Then a whole batch is handled, in whatever way each row ends.
\<close>

locale row_batch =
  fixes item :: "nat \<Rightarrow> 'r \<Rightarrow> node \<Rightarrow> bool \<times> node" and rows :: "node \<Rightarrow> 'r list" and key :: "'r \<Rightarrow> 'k"
    and good :: "node \<Rightarrow> bool" and open_row :: "'r \<Rightarrow> bool" and ended :: "nat \<Rightarrow> 'r \<Rightarrow> 'r \<Rightarrow> bool"
  assumes good_keys: "good n \<Longrightarrow> distinct (map key (rows n))"
    and item_good: "good n \<Longrightarrow> good (snd (item k row n))"
    and item_replaces: "good n \<Longrightarrow> row \<in> set (rows n) \<Longrightarrow> open_row row \<Longrightarrow>
      \<exists>row'. key row' = key row \<and> ended k row row' \<and>
        rows (snd (item k row n)) = upd_where (\<lambda>r. key r = key row) (\<lambda>_. row') (rows n)"
begin

lemma batch_by_key:
  assumes "good n" "distinct (map key batch)" "set batch \<subseteq> set (rows n)" "\<forall>row \<in> set batch. open_row row"
  shows "good (snd (each_row item k batch n)) \<and>
    (\<forall>i < length batch. \<exists>row' \<in> set (rows (snd (each_row item k batch n))).
       key row' = key (batch ! i) \<and> ended (k + i) (batch ! i) row') \<and>
    (\<forall>row \<in> set (rows n). key row \<notin> key ` set batch \<longrightarrow> row \<in> set (rows (snd (each_row item k batch n))))"
  using assms
proof (induction batch arbitrary: k n)
  case (Cons row batch)
  define n1 where "n1 = snd (item k row n)"
  obtain row' where row': "key row' = key row" "ended k row row'"
      "rows n1 = upd_where (\<lambda>r. key r = key row) (\<lambda>_. row') (rows n)"
    using item_replaces [of n row k] Cons.prems unfolding n1_def by auto
  have keep: "r \<in> set (rows n1)" if "r \<in> set (rows n)" "key r \<noteq> key row" for r
    using that unfolding row'(3) set_upd_where by force
  have new: "row' \<in> set (rows n1)" using Cons.prems(3) unfolding row'(3) set_upd_where by force
  have "set batch \<subseteq> set (rows n1)" using keep Cons.prems(2,3) by (fastforce simp: image_iff)
  then have IH: "good (snd (each_row item (Suc k) batch n1))"
      "\<forall>i < length batch. \<exists>r' \<in> set (rows (snd (each_row item (Suc k) batch n1))).
         key r' = key (batch ! i) \<and> ended (Suc k + i) (batch ! i) r'"
      "\<forall>r \<in> set (rows n1). key r \<notin> key ` set batch \<longrightarrow> r \<in> set (rows (snd (each_row item (Suc k) batch n1)))"
    using Cons.IH [of n1 "Suc k"] Cons.prems item_good [OF Cons.prems(1)] unfolding n1_def by auto
  have "each_row item k (row # batch) n = (fst (each_row item k (row # batch) n), snd (each_row item (Suc k) batch n1))"
    by (simp add: n1_def split_beta Let_def)
  then have eq: "snd (each_row item k (row # batch) n) = snd (each_row item (Suc k) batch n1)" by (metis snd_conv)
  have first: "row' \<in> set (rows (snd (each_row item (Suc k) batch n1)))"
    using IH(3) new row'(1) Cons.prems(2) by simp
  have "\<exists>r' \<in> set (rows (snd (each_row item (Suc k) batch n1))).
      key r' = key ((row # batch) ! i) \<and> ended (k + i) ((row # batch) ! i) r'" if "i < length (row # batch)" for i
    using that first row'(1,2) IH(2) by (cases i) auto
  then show ?case unfolding eq using IH(1,3) keep by auto
qed simp

lemma batch_ends:
  assumes "good n" "distinct (map key batch)" "set batch \<subseteq> set (rows n)" "\<forall>row \<in> set batch. open_row row"
  shows "good (snd (each_row item 0 batch n))"
    and "\<forall>i < length batch. \<exists>row' \<in> set (rows (snd (each_row item 0 batch n))).
      key row' = key (batch ! i) \<and> ended i (batch ! i) row'"
    and "set (rows n) - set batch \<subseteq> set (rows (snd (each_row item 0 batch n)))"
proof -
  note B = batch_by_key [OF assms, of 0]
  show "good (snd (each_row item 0 batch n))"
    and "\<forall>i < length batch. \<exists>row' \<in> set (rows (snd (each_row item 0 batch n))).
      key row' = key (batch ! i) \<and> ended i (batch ! i) row'"
    using B by simp_all
  have "inj_on key (set (rows n))" using good_keys [OF assms(1)] by (simp add: distinct_map)
  then have "key row \<notin> key ` set batch" if "row \<in> set (rows n) - set batch" for row
    using that assms(3) by (auto dest: inj_onD)
  then show "set (rows n) - set batch \<subseteq> set (rows (snd (each_row item 0 batch n)))" using B by blast
qed

end

lemma upd_where_single:
  assumes "distinct (map key rows)" "row \<in> set rows" "P row" "\<And>r. r \<in> set rows \<Longrightarrow> P r \<Longrightarrow> key r = key row"
  shows "upd_where P f rows = upd_where (\<lambda>r. key r = key row) (\<lambda>_. f row) rows"
proof -
  have "r = row" if "r \<in> set rows" "key r = key row" for r
    using assms(1,2) that by (auto simp: distinct_map dest: inj_onD)
  then show ?thesis using assms(3,4) by (auto simp: upd_where_def)
qed

lemma find_single:
  assumes "distinct (map key rows)" "row \<in> set rows" "P row" "\<And>r. r \<in> set rows \<Longrightarrow> P r \<Longrightarrow> key r = key row"
  shows "find P rows = Some row"
proof (cases "find P rows")
  case None
  then show ?thesis using assms(2,3) unfolding find_None by blast
next
  case (Some r)
  then have r: "r \<in> set rows" "P r" using find_SomeD by fast+
  have "inj_on key (set rows)" using assms(1) by (simp add: distinct_map)
  from inj_onD [OF this assms(4) [OF r] r(1) assms(2)] show ?thesis using Some by simp
qed

text \<open>A table after an operation: the table of before with one row, found by its key, replaced.\<close>

definition replaced :: "('r \<Rightarrow> 'k) \<Rightarrow> ('r \<Rightarrow> 'r \<Rightarrow> bool) \<Rightarrow> 'r \<Rightarrow> 'r list \<Rightarrow> 'r list \<Rightarrow> bool" where
  "replaced key R row rows rows' = (\<exists>row'. key row' = key row \<and> R row row' \<and>
     rows' = upd_where (\<lambda>r. key r = key row) (\<lambda>_. row') rows)"

lemma replacedI:
  assumes "distinct (map key rows)" "row \<in> set rows" "rows' = upd_where Q f rows"
    and Q: "Q row" "\<And>r. r \<in> set rows \<Longrightarrow> Q r \<Longrightarrow> key r = key row"
    and f: "key (f row) = key row" "R row (f row)"
  shows "replaced key R row rows rows'"
  unfolding replaced_def assms(3)
  using upd_where_single [where P = Q and key = key, OF assms(1,2) Q] f by blast

lemma replaced_same:
  assumes "distinct (map key rows)" "row \<in> set rows" "R row row"
  shows "replaced key R row rows rows"
proof -
  have "r = row" if "r \<in> set rows" "key r = key row" for r
    using assms(1,2) that by (auto simp: distinct_map dest: inj_onD)
  then have "upd_where (\<lambda>r. key r = key row) (\<lambda>_. row) rows = rows"
    unfolding upd_where_def by (intro map_idI) auto
  with assms(3) show ?thesis unfolding replaced_def by metis
qed

lemma replaced_mono: "replaced key R row rows rows' \<Longrightarrow> (\<And>x. R row x \<Longrightarrow> S row x) \<Longrightarrow> replaced key S row rows rows'"
  unfolding replaced_def by blast

lemma replaced_twice:
  assumes "key row' = key row" "mid = upd_where (\<lambda>r. key r = key row) (\<lambda>_. row') rows"
    and "replaced key S row' mid rows'" "\<And>x. S row' x \<Longrightarrow> T row x"
  shows "replaced key T row rows rows'"
proof -
  from assms(3) obtain x where x: "key x = key row'" "S row' x"
      "rows' = upd_where (\<lambda>r. key r = key row') (\<lambda>_. x) mid"
    unfolding replaced_def by blast
  have "rows' = upd_where (\<lambda>r. key r = key row) (\<lambda>_. x) rows"
    unfolding x(3) assms(2) using assms(1) by (simp add: upd_where_def)
  then show ?thesis unfolding replaced_def using x assms(1,4) by auto
qed

text \<open>The deadlines of the ordinary backoff stay within the years that can be written.\<close>

definition deadlines_fit :: "config \<Rightarrow> world \<Rightarrow> bool" where
  "deadlines_fit cfg W = (\<forall>k j. io_clock (W k) j + cf_backoff_max cfg \<le> max_instant)"

lemma backoff_fits:
  assumes "deadlines_fit cfg W"
  obtains t where "backoff cfg (io_clock (W k) j) rand attempts ra = Some t"
proof -
  have "io_clock (W k) j + cf_backoff_max cfg \<le> max_instant" using assms by (simp add: deadlines_fit_def)
  then have "\<exists>t. backoff cfg (io_clock (W k) j) rand attempts ra = Some t"
    by (auto simp: backoff_def Let_def split: option.split)
  with that show thesis by blast
qed

text \<open>
  An outgoing event was attempted: what was signed is unchanged, there is one attempt more, and a row
  that is still pending has a deadline and an error.  It is left alone only if the store raised in the
  guard as well.
\<close>

definition outbound_handled :: "outbound_row \<Rightarrow> outbound_row \<Rightarrow> bool" where
  "outbound_handled r r' = (outbound_keeps r r' \<and> o_attempts r' = o_attempts r + 1 \<and>
     (o_status r' = Pending \<longrightarrow> o_next_retry_at r' \<noteq> None \<and> o_last_error r' \<noteq> None))"

definition outbound_ended :: "item_io \<Rightarrow> outbound_row \<Rightarrow> outbound_row \<Rightarrow> bool" where
  "outbound_ended io r r' = (outbound_handled r r' \<or> (io_store io 1 \<noteq> None \<and> r' = r))"

abbreviation outbox_replaced :: "outbound_row \<Rightarrow> node \<Rightarrow> node \<Rightarrow> bool" where
  "outbox_replaced row n n' \<equiv> replaced o_event_id outbound_handled row (federation_outbound (nd_db n))
     (federation_outbound (nd_db n'))"

lemma outbox_keys: "fed_ok s \<Longrightarrow> distinct (map o_event_id (federation_outbound s))"
  using fed_ok_parts(2) by (auto simp: outbound_ok_def)

lemma outbox_sent:
  assumes "fed_ok (nd_db n)" "row \<in> set (federation_outbound (nd_db n))" "o_status row = Pending"
  shows "outbox_replaced row n (on_db (mark_outbound_sent (o_event_id row) E) n)"
  unfolding mark_outbound_sent_def
  by (rule replacedI [OF outbox_keys [OF assms(1)] assms(2), where
        Q = "\<lambda>r. o_event_id r = o_event_id row \<and> o_status r = Pending" and
        f = "\<lambda>r. r\<lparr>o_status := Sent, o_attempts := o_attempts r + 1, o_last_error := None, o_updated_at := now E 0\<rparr>"])
    (simp_all add: assms outbound_handled_def outbound_keeps_def)

lemma outbox_retried:
  assumes "fed_ok (nd_db n)" "row \<in> set (federation_outbound (nd_db n))" "o_status row = Pending"
  shows "outbox_replaced row n (on_db (mark_outbound_retry (o_event_id row) (o_attempts row + 1) t error E) n)"
  unfolding mark_outbound_retry_def
  by (rule replacedI [OF outbox_keys [OF assms(1)] assms(2), where
        Q = "\<lambda>r. o_event_id r = o_event_id row \<and> o_status r = Pending" and
        f = "\<lambda>r. r\<lparr>o_attempts := o_attempts row + 1, o_next_retry_at := Some t, o_last_error := Some error,
          o_updated_at := now E 0\<rparr>"])
    (simp_all add: assms outbound_handled_def outbound_keeps_def)

lemma outbox_failed:
  assumes "fed_ok (nd_db n)" "row \<in> set (federation_outbound (nd_db n))" "o_status row = Pending"
  shows "outbox_replaced row n (on_db (\<lambda>s. snd (fail_outbound_permanent (o_event_id row) error E s)) n)"
proof -
  let ?f = "\<lambda>r. r\<lparr>o_status := Failed_Permanent, o_attempts := o_attempts r + 1,
      o_last_error := Some error, o_updated_at := now E 0\<rparr>"
  have "find (\<lambda>r. o_event_id r = o_event_id row \<and> o_status r = Pending) (federation_outbound (nd_db n)) = Some row"
    by (rule find_single [OF outbox_keys [OF assms(1)]]) (simp_all add: assms)
  then have eq: "federation_outbound (nd_db (on_db (\<lambda>s. snd (fail_outbound_permanent (o_event_id row) error E s)) n)) =
      upd_where (\<lambda>r. o_id r = o_id row) ?f (federation_outbound (nd_db n))"
    by (simp add: fail_outbound_permanent_def)
  have inj: "inj_on o_id (set (federation_outbound (nd_db n)))"
    using fed_ok_parts(2) [OF assms(1)] ascending_distinct [of o_id "federation_outbound (nd_db n)"]
    by (simp add: outbound_ok_def distinct_map)
  have same: "o_event_id r = o_event_id row"
    if "r \<in> set (federation_outbound (nd_db n))" "o_id r = o_id row" for r
    using inj_onD [OF inj that(2,1) assms(2)] by simp
  have f: "o_event_id (?f row) = o_event_id row" "outbound_handled row (?f row)"
    by (simp_all add: outbound_handled_def outbound_keeps_def)
  show ?thesis by (rule replacedI [OF outbox_keys [OF assms(1)] assms(2) eq]) (rule refl same f | assumption)+
qed

lemma retry_outbound_replaces:
  assumes "deadlines_fit cfg W" "fed_ok (nd_db n)"
    "row \<in> set (federation_outbound (nd_db n))" "o_status row = Pending"
  shows "(\<exists>cls. io_store (W k) j = Some cls \<and> retry_outbound cfg (W k) j row ra error n = (Inl cls, n)) \<or>
    (\<exists>n'. io_store (W k) j = None \<and> retry_outbound cfg (W k) j row ra error n = (Inr False, n') \<and> outbox_replaced row n n')"
proof -
  obtain t where "backoff cfg (io_clock (W k) j) (io_rand (W k) j) (o_attempts row + 1) ra = Some t"
    using backoff_fits [OF assms(1)] .
  then show ?thesis
    using outbox_retried [OF assms(2-4)] by (cases "io_store (W k) j") (simp_all add: retry_outbound_def)
qed

text \<open>An outgoing event either ends as an exception without effect, or its row is replaced.\<close>

lemma send_outbound_cases:
  assumes "deadlines_fit (rt_config rt) W" "fed_ok (nd_db n)"
    "row \<in> set (federation_outbound (nd_db n))" "o_status row = Pending"
  obtains (raised) cls where "send_outbound P rt (W k) row n = (Inl cls, n)"
    | (written) n' where "send_outbound P rt (W k) row n = (Inr False, n')" "outbox_replaced row n n'"
proof -
  have r: "(\<exists>cls. retry_outbound (rt_config rt) (W k) 0 row ra e n = (Inl cls, n)) \<or>
      (\<exists>n'. retry_outbound (rt_config rt) (W k) 0 row ra e n = (Inr False, n') \<and> outbox_replaced row n n')" for ra e
    using retry_outbound_replaces [OF assms, of k 0 ra e] by blast
  have "(\<exists>cls. send_outbound P rt (W k) row n = (Inl cls, n)) \<or>
      (\<exists>n'. send_outbound P rt (W k) row n = (Inr False, n') \<and> outbox_replaced row n n')"
    using r outbox_sent [OF assms(2-4)] outbox_failed [OF assms(2-4)]
    by (simp add: send_outbound_def apply_outcome_def store_call_def split: option.split sum.split outcome_kind.split)
  then show thesis using that by blast
qed

lemma guarded_outbound_replaces:
  assumes "deadlines_fit (rt_config rt) W" "fed_ok (nd_db n)"
    "row \<in> set (federation_outbound (nd_db n))" "o_status row = Pending"
  shows "replaced o_event_id (outbound_ended (W k)) row (federation_outbound (nd_db n))
    (federation_outbound (nd_db (snd (guarded (rt_config rt) (W k) (Work_Outbound row) (send_outbound P rt (W k) row) n))))"
  using assms
proof (cases rule: send_outbound_cases [where P = P and k = k])
  case (raised cls)
  then show ?thesis
    using retry_outbound_replaces [OF assms, of k 1 None "lit ''worker_error: '' @ cls"]
      replaced_same [where R = "outbound_ended (W k)", OF outbox_keys [OF assms(2)] assms(3)]
    by (auto simp: guarded_def outbound_ended_def intro: replaced_mono)
next
  case (written n')
  then show ?thesis by (auto simp: guarded_def outbound_ended_def intro: replaced_mono)
qed

text \<open>The same for receipts, which the worker may have to sign first.\<close>

definition receipt_handled :: "receipt_out_row \<Rightarrow> receipt_out_row \<Rightarrow> bool" where
  "receipt_handled r r' = (receipt_keeps r r' \<and> ro_attempts r' = ro_attempts r + 1 \<and>
     (ro_status r' = Pending \<longrightarrow> ro_next_retry_at r' \<noteq> None \<and> ro_last_error r' \<noteq> None))"

definition receipt_signed :: "receipt_out_row \<Rightarrow> receipt_out_row \<Rightarrow> bool" where
  "receipt_signed r r' = (receipt_keeps r r' \<and> ro_attempts r' = ro_attempts r \<and> ro_status r' = Pending)"

definition receipt_ended :: "item_io \<Rightarrow> receipt_out_row \<Rightarrow> receipt_out_row \<Rightarrow> bool" where
  "receipt_ended io r r' = (receipt_handled r r' \<or> (io_store io 1 \<noteq> None \<and> receipt_signed r r'))"

lemma receipt_signed_refl: "ro_status r = Pending \<Longrightarrow> receipt_signed r r"
  by (simp add: receipt_signed_def receipt_keeps_def)

abbreviation receipts_replaced :: "receipt_out_row \<Rightarrow> node \<Rightarrow> node \<Rightarrow> bool" where
  "receipts_replaced row n n' \<equiv> replaced receipt_key receipt_handled row (federation_receipt_out (nd_db n))
     (federation_receipt_out (nd_db n'))"

lemma receipt_keys: "fed_ok s \<Longrightarrow> distinct (map receipt_key (federation_receipt_out s))"
  using fed_ok_parts(4) by (auto simp: receipts_out_ok_def)

lemma receipt_sent:
  assumes "fed_ok (nd_db n)" "row \<in> set (federation_receipt_out (nd_db n))" "ro_status row = Pending"
  shows "receipts_replaced row n
    (on_db (mark_receipt_sent (ro_event_id row) (ro_agent row) (ro_ack_type row) E) n)"
  unfolding mark_receipt_sent_def
  by (rule replacedI [OF receipt_keys [OF assms(1)] assms(2), where
        Q = "\<lambda>r. receipt_key r = (ro_event_id row, ro_agent row, ro_ack_type row) \<and> ro_status r = Pending" and
        f = "\<lambda>r. r\<lparr>ro_status := Sent, ro_attempts := ro_attempts r + 1, ro_last_error := None, ro_updated_at := now E 0\<rparr>"])
    (simp_all add: assms receipt_key_def receipt_handled_def receipt_keeps_def)

lemma receipt_retried:
  assumes "fed_ok (nd_db n)" "row \<in> set (federation_receipt_out (nd_db n))" "ro_status row = Pending"
  shows "receipts_replaced row n (on_db (mark_receipt_retry (ro_event_id row) (ro_agent row) (ro_ack_type row)
    (ro_attempts row + 1) t error E) n)"
  unfolding mark_receipt_retry_def
  by (rule replacedI [OF receipt_keys [OF assms(1)] assms(2), where
        Q = "\<lambda>r. receipt_key r = (ro_event_id row, ro_agent row, ro_ack_type row) \<and> ro_status r = Pending" and
        f = "\<lambda>r. r\<lparr>ro_attempts := ro_attempts row + 1, ro_next_retry_at := Some t, ro_last_error := Some error,
          ro_updated_at := now E 0\<rparr>"])
    (simp_all add: assms receipt_key_def receipt_handled_def receipt_keeps_def)

lemma receipt_failed:
  assumes "fed_ok (nd_db n)" "row \<in> set (federation_receipt_out (nd_db n))" "ro_status row = Pending"
  shows "receipts_replaced row n
    (on_db (\<lambda>s. snd (fail_receipt_permanent (ro_event_id row) (ro_agent row) (ro_ack_type row) error E s)) n)"
proof -
  let ?f = "\<lambda>r. r\<lparr>ro_status := Failed_Permanent, ro_attempts := ro_attempts r + 1,
      ro_last_error := Some error, ro_updated_at := now E 0\<rparr>"
  have "find (\<lambda>r. receipt_key r = (ro_event_id row, ro_agent row, ro_ack_type row) \<and> ro_status r = Pending)
      (federation_receipt_out (nd_db n)) = Some row"
    by (rule find_single [OF receipt_keys [OF assms(1)]]) (simp_all add: assms receipt_key_def)
  then have eq: "federation_receipt_out (nd_db (on_db (\<lambda>s. snd (fail_receipt_permanent (ro_event_id row)
        (ro_agent row) (ro_ack_type row) error E s)) n)) =
      upd_where (\<lambda>r. ro_id r = ro_id row) ?f (federation_receipt_out (nd_db n))"
    by (simp add: fail_receipt_permanent_def)
  have inj: "inj_on ro_id (set (federation_receipt_out (nd_db n)))"
    using fed_ok_parts(4) [OF assms(1)] ascending_distinct [of ro_id "federation_receipt_out (nd_db n)"]
    by (simp add: receipts_out_ok_def distinct_map)
  have same: "receipt_key r = receipt_key row"
    if "r \<in> set (federation_receipt_out (nd_db n))" "ro_id r = ro_id row" for r
    using inj_onD [OF inj that(2,1) assms(2)] by simp
  have f: "receipt_key (?f row) = receipt_key row" "receipt_handled row (?f row)"
    by (simp_all add: receipt_key_def receipt_handled_def receipt_keeps_def)
  show ?thesis by (rule replacedI [OF receipt_keys [OF assms(1)] assms(2) eq]) (rule refl same f | assumption)+
qed

lemma retry_receipt_replaces:
  assumes "deadlines_fit cfg W" "fed_ok (nd_db n)"
    "row \<in> set (federation_receipt_out (nd_db n))" "ro_status row = Pending"
  shows "(\<exists>cls. io_store (W k) j = Some cls \<and> retry_receipt cfg (W k) j row ra error n = (Inl cls, n)) \<or>
    (\<exists>n'. io_store (W k) j = None \<and> retry_receipt cfg (W k) j row ra error n = (Inr False, n') \<and> receipts_replaced row n n')"
proof -
  obtain t where "backoff cfg (io_clock (W k) j) (io_rand (W k) j) (ro_attempts row + 1) ra = Some t"
    using backoff_fits [OF assms(1)] .
  then show ?thesis
    using receipt_retried [OF assms(2-4)] by (cases "io_store (W k) j") (simp_all add: retry_receipt_def)
qed

lemma send_signed_receipt_cases:
  assumes "deadlines_fit (rt_config rt) W" "fed_ok (nd_db n)"
    "row \<in> set (federation_receipt_out (nd_db n))" "ro_status row = Pending"
  obtains (raised) cls where "send_signed_receipt P rt (W k) row n = (Inl cls, n)"
    | (written) n' where "send_signed_receipt P rt (W k) row n = (Inr False, n')" "receipts_replaced row n n'"
proof -
  have r: "(\<exists>cls. retry_receipt (rt_config rt) (W k) 0 row ra e n = (Inl cls, n)) \<or>
      (\<exists>n'. retry_receipt (rt_config rt) (W k) 0 row ra e n = (Inr False, n') \<and> receipts_replaced row n n')" for ra e
    using retry_receipt_replaces [OF assms, of k 0 ra e] by blast
  have "(\<exists>cls. send_signed_receipt P rt (W k) row n = (Inl cls, n)) \<or>
      (\<exists>n'. send_signed_receipt P rt (W k) row n = (Inr False, n') \<and> receipts_replaced row n n')"
    using r receipt_sent [OF assms(2-4)] receipt_failed [OF assms(2-4)]
    by (simp add: send_signed_receipt_def apply_outcome_def store_call_def
        split: option.split sum.split outcome_kind.split)
  then show thesis using that by blast
qed

lemma materialize_row_cases:
  assumes "fed_ok (nd_db n)" "row \<in> set (federation_receipt_out (nd_db n))" "ro_status row = Pending"
    "ro_signed_json row = None"
  obtains (raised) cls where "materialize_row P rt io row n = (Inl cls, n)"
    | (written) n' where "materialize_row P rt io row n = (Inr True, n')"
      "replaced receipt_key receipt_signed row (federation_receipt_out (nd_db n)) (federation_receipt_out (nd_db n'))"
proof (cases "compose_receipt P rt (ro_event_id row) (ro_origin row) (ro_origin_event_sig_hash row)
    (ro_agent row) (ro_ack_type row) (ro_at row)")
  case (Inl e)
  then show thesis using raised by (simp add: materialize_row_def)
next
  case (Inr env)
  have "replaced receipt_key receipt_signed row (federation_receipt_out (nd_db n))
      (federation_receipt_out (snd (materialize_receipt (ro_event_id row) (ro_agent row) (ro_ack_type row) j sg E (nd_db n))))"
    for j sg E
    unfolding materialize_receipt_def
    by (rule replacedI [OF receipt_keys [OF assms(1)] assms(2), where
          Q = "\<lambda>r. receipt_key r = (ro_event_id row, ro_agent row, ro_ack_type row) \<and> ro_signed_json r = None \<and>
            ro_status r = Pending" and
          f = "\<lambda>r. r\<lparr>ro_signed_json := Some j, ro_sig := Some sg, ro_updated_at := now E 0\<rparr>"])
      (simp_all add: assms receipt_key_def receipt_signed_def receipt_keeps_def Let_def)
  then show thesis using raised written Inr
    by (cases "io_store io 2") (simp_all add: materialize_row_def Let_def)
qed

lemma retry_receipt_cong:
  "receipt_key row' = receipt_key row \<Longrightarrow> ro_attempts row' = ro_attempts row \<Longrightarrow>
   retry_receipt cfg io j row' ra error n = retry_receipt cfg io j row ra error n"
  by (simp add: retry_receipt_def receipt_key_def split: option.split)

lemma receipt_ended_signed: "receipt_signed r r1 \<Longrightarrow> receipt_ended io r1 r2 \<Longrightarrow> receipt_ended io r r2"
  by (auto simp: receipt_ended_def receipt_signed_def receipt_handled_def intro: receipt_keeps_trans)

text \<open>The guard around a method that has got as far as the node \<open>n\<close>, where the row is \<open>row\<close>.\<close>

lemma guarded_receipt_at:
  assumes fit: "deadlines_fit (rt_config rt) W" and ok: "fed_ok (nd_db n)"
    and row: "row \<in> set (federation_receipt_out (nd_db n))" "ro_status row = Pending"
    and orig: "receipt_key row = receipt_key orig" "ro_attempts row = ro_attempts orig"
    and fn: "(\<exists>cls. fn m = (Inl cls, n)) \<or> (\<exists>n'. fn m = (Inr False, n') \<and> receipts_replaced row n n')"
  shows "replaced receipt_key (receipt_ended (W k)) row (federation_receipt_out (nd_db n))
    (federation_receipt_out (nd_db (snd (guarded (rt_config rt) (W k) (Work_Receipt orig) fn m))))"
  using fn
proof (elim disjE exE conjE)
  fix cls assume "fn m = (Inl cls, n)"
  then show ?thesis
    using retry_receipt_replaces [OF fit ok row, of k 1 None "lit ''worker_error: '' @ cls"]
      replaced_same [where R = "receipt_ended (W k)", OF receipt_keys [OF ok] row(1)] receipt_signed_refl [OF row(2)]
    by (auto simp: guarded_def retry_receipt_cong [OF orig] receipt_ended_def intro: replaced_mono)
next
  fix n' assume "fn m = (Inr False, n')" "receipts_replaced row n n'"
  then show ?thesis by (auto simp: guarded_def receipt_ended_def intro: replaced_mono)
qed

lemma guarded_receipt_replaces:
  assumes fit: "deadlines_fit (rt_config rt) W" and ok: "fed_ok (nd_db n)"
    and row: "row \<in> set (federation_receipt_out (nd_db n))" "ro_status row = Pending"
  shows "replaced receipt_key (receipt_ended (W k)) row (federation_receipt_out (nd_db n))
    (federation_receipt_out (nd_db (snd (guarded (rt_config rt) (W k) (Work_Receipt row) (send_receipt P rt (W k) row) n))))"
proof (cases "ro_signed_json row = None")
  case False
  then have "send_receipt P rt (W k) row n = send_signed_receipt P rt (W k) row n"
    by (simp only: send_receipt_def if_False)
  then show ?thesis
    using send_signed_receipt_cases [OF fit ok row, of P k] by (intro guarded_receipt_at fit ok row refl) metis
next
  case None: True
  from ok row None show ?thesis
  proof (cases rule: materialize_row_cases [where P = P and rt = rt and io = "W k"])
    case (raised cls)
    then have "send_receipt P rt (W k) row n = (Inl cls, n)" using None by (simp add: send_receipt_def)
    then show ?thesis by (intro guarded_receipt_at fit ok row refl) blast
  next
    case (written n1)
    then obtain row1 where row1: "receipt_key row1 = receipt_key row" "receipt_signed row row1"
        "federation_receipt_out (nd_db n1) =
          upd_where (\<lambda>r. receipt_key r = receipt_key row) (\<lambda>_. row1) (federation_receipt_out (nd_db n))"
      unfolding replaced_def by blast
    have mem: "row1 \<in> set (federation_receipt_out (nd_db n1))"
      using row(1) unfolding row1(3) set_upd_where by force
    have ok1: "fed_ok (nd_db n1)"
      using fed_sys.inv_steps [OF materialize_row_run ok, of P rt "W k" row] written(1) by simp
    have "get_receipt_out (ro_event_id row) (ro_agent row) (ro_ack_type row) (nd_db n1) = Some row1"
      unfolding get_receipt_out_def
      by (rule find_single [OF receipt_keys [OF ok1] mem]) (use row1(1) in \<open>simp_all add: receipt_key_def\<close>)
    then have eq: "send_receipt P rt (W k) row n =
        (case io_store (W k) 3 of Some cls \<Rightarrow> (Inl cls, n1) | None \<Rightarrow> send_signed_receipt P rt (W k) row1 n1)"
      using None written(1) by (simp add: send_receipt_def split: option.split)
    have row1': "ro_status row1 = Pending" "ro_attempts row1 = ro_attempts row"
      using row1(2) by (simp_all add: receipt_signed_def)
    have "(\<exists>cls. send_receipt P rt (W k) row n = (Inl cls, n1)) \<or>
        (\<exists>n'. send_receipt P rt (W k) row n = (Inr False, n') \<and> receipts_replaced row1 n1 n')"
      unfolding eq using send_signed_receipt_cases [OF fit ok1 mem row1'(1), of P k]
      by (simp split: option.split) metis
    from guarded_receipt_at [where fn = "send_receipt P rt (W k) row" and m = n and k = k, OF fit ok1 mem row1'(1) row1(1) row1'(2) this] show ?thesis
      by (auto intro: replaced_twice [OF row1(1,3)] receipt_ended_signed [OF row1(2)])
  qed
qed

section \<open>Every row of a batch is handled\<close>

interpretation outbound_batch: row_batch
  "\<lambda>k row. guarded (rt_config rt) (W k) (Work_Outbound row) (send_outbound P rt (W k) row)"
  "\<lambda>n. federation_outbound (nd_db n)" o_event_id
  "\<lambda>n. fed_ok (nd_db n) \<and> deadlines_fit (rt_config rt) W" "\<lambda>row. o_status row = Pending" "\<lambda>k. outbound_ended (W k)"
  for P rt W
proof unfold_locales
  show "distinct (map o_event_id (federation_outbound (nd_db n)))"
    if "fed_ok (nd_db n) \<and> deadlines_fit (rt_config rt) W" for n
    using that outbox_keys by blast
  show "fed_ok (nd_db (snd (guarded (rt_config rt) (W k) (Work_Outbound row) (send_outbound P rt (W k) row) n))) \<and>
      deadlines_fit (rt_config rt) W"
    if "fed_ok (nd_db n) \<and> deadlines_fit (rt_config rt) W" for n k row
    using that fed_sys.inv_steps [OF guarded_run [where fn = "send_outbound P rt (W k) row", OF send_outbound_run]] by blast
qed (use guarded_outbound_replaces in \<open>unfold replaced_def, blast\<close>)

interpretation receipt_batch: row_batch
  "\<lambda>k row. guarded (rt_config rt) (W k) (Work_Receipt row) (send_receipt P rt (W k) row)"
  "\<lambda>n. federation_receipt_out (nd_db n)" receipt_key
  "\<lambda>n. fed_ok (nd_db n) \<and> deadlines_fit (rt_config rt) W" "\<lambda>row. ro_status row = Pending" "\<lambda>k. receipt_ended (W k)"
  for P rt W
proof unfold_locales
  show "distinct (map receipt_key (federation_receipt_out (nd_db n)))"
    if "fed_ok (nd_db n) \<and> deadlines_fit (rt_config rt) W" for n
    using that receipt_keys by blast
  show "fed_ok (nd_db (snd (guarded (rt_config rt) (W k) (Work_Receipt row) (send_receipt P rt (W k) row) n))) \<and>
      deadlines_fit (rt_config rt) W"
    if "fed_ok (nd_db n) \<and> deadlines_fit (rt_config rt) W" for n k row
    using that fed_sys.inv_steps [OF guarded_run [where fn = "send_receipt P rt (W k) row", OF send_receipt_run]] by blast
qed (use guarded_receipt_replaces in \<open>unfold replaced_def, blast\<close>)

definition inbound_key :: "inbound_row \<Rightarrow> pystr \<times> pystr" where
  "inbound_key r = (i_origin r, i_event_id r)"

definition delivery_ended :: "item_io \<Rightarrow> inbound_row \<Rightarrow> inbound_row \<Rightarrow> bool" where
  "delivery_ended io r r' = (r' = r\<lparr>i_delivery_state := Delivered\<rparr> \<or>
     ((io_store io 0 \<noteq> None \<or> io_store io 3 \<noteq> None) \<and> r' = r))"

lemma inbound_keys: "fed_ok s \<Longrightarrow> distinct (map inbound_key (federation_inbound s))"
  using fed_ok_parts(3) [of s] by (simp add: inbound_ok_def inbound_key_def [abs_def])

lemma guarded_delivery_db:
  "nd_db (snd (guarded cfg io (Work_Delivery row) (deliver_one io row) n)) =
   (if io_store io 0 = None \<and> io_store io 3 = None then mark_delivered (i_origin row) (i_event_id row) (nd_db n)
    else nd_db n)"
  by (cases "io_store io 0"; cases "io_store io 3")
    (simp_all add: guarded_def deliver_one_def split: sum.split)

interpretation delivery_batch: row_batch
  "\<lambda>k row. guarded cfg (W k) (Work_Delivery row) (deliver_one (W k) row)"
  "\<lambda>n. federation_inbound (nd_db n)" inbound_key "\<lambda>n. fed_ok (nd_db n)" "\<lambda>_. True" "\<lambda>k. delivery_ended (W k)"
  for cfg W
proof unfold_locales
  fix n :: node and k row
  assume ok: "fed_ok (nd_db n)"
  show "distinct (map inbound_key (federation_inbound (nd_db n)))" using ok by (rule inbound_keys)
  show "fed_ok (nd_db (snd (guarded cfg (W k) (Work_Delivery row) (deliver_one (W k) row) n)))"
    unfolding guarded_delivery_db using ok mark_delivered_ok [OF ok] by simp
  assume row: "row \<in> set (federation_inbound (nd_db n))"
  have "replaced inbound_key (delivery_ended (W k)) row (federation_inbound (nd_db n))
      (federation_inbound (mark_delivered (i_origin row) (i_event_id row) (nd_db n)))"
    unfolding mark_delivered_def
    by (rule replacedI [OF inbound_keys [OF ok] row, where
          Q = "\<lambda>r. i_origin r = i_origin row \<and> i_event_id r = i_event_id row" and
          f = "\<lambda>r. r\<lparr>i_delivery_state := Delivered\<rparr>"])
      (simp_all add: inbound_key_def delivery_ended_def)
  moreover have "replaced inbound_key (delivery_ended (W k)) row (federation_inbound (nd_db n)) (federation_inbound (nd_db n))"
    if "\<not> (io_store (W k) 0 = None \<and> io_store (W k) 3 = None)"
    by (rule replaced_same [OF inbound_keys [OF ok] row]) (use that in \<open>auto simp: delivery_ended_def\<close>)
  ultimately have "replaced inbound_key (delivery_ended (W k)) row (federation_inbound (nd_db n))
      (federation_inbound (nd_db (snd (guarded cfg (W k) (Work_Delivery row) (deliver_one (W k) row) n))))"
    unfolding guarded_delivery_db by simp
  then show "\<exists>row'. inbound_key row' = inbound_key row \<and> delivery_ended (W k) row row' \<and>
      federation_inbound (nd_db (snd (guarded cfg (W k) (Work_Delivery row) (deliver_one (W k) row) n))) =
        upd_where (\<lambda>r. inbound_key r = inbound_key row) (\<lambda>_. row') (federation_inbound (nd_db n))"
    unfolding replaced_def .
qed

text \<open>The phases of a cycle write different tables.\<close>

lemma each_row_frame:
  assumes "\<And>k row n. F (nd_db (snd (step k row n))) = F (nd_db n)"
  shows "F (nd_db (snd (each_row step k rows n))) = F (nd_db n)"
  using assms by (induction rows arbitrary: k n) (simp_all add: split_beta Let_def)

lemma retry_frame [simp]:
  "federation_receipt_out (nd_db (snd (retry_outbound cfg io k r ra e n))) = federation_receipt_out (nd_db n)"
  "federation_inbound (nd_db (snd (retry_outbound cfg io k r ra e n))) = federation_inbound (nd_db n)"
  "federation_outbound (nd_db (snd (retry_receipt cfg io k r' ra e n))) = federation_outbound (nd_db n)"
  "federation_inbound (nd_db (snd (retry_receipt cfg io k r' ra e n))) = federation_inbound (nd_db n)"
  by (simp_all add: retry_outbound_def retry_receipt_def store_call_def mark_outbound_retry_def mark_receipt_retry_def
      split: option.split)

lemma send_outbound_frame [simp]:
  "federation_receipt_out (nd_db (snd (send_outbound P rt io row n))) = federation_receipt_out (nd_db n)"
  "federation_inbound (nd_db (snd (send_outbound P rt io row n))) = federation_inbound (nd_db n)"
  by (simp_all add: send_outbound_def apply_outcome_def store_call_def mark_outbound_sent_def fail_outbound_permanent_def
      split: option.split sum.split outcome_kind.split)

lemma send_signed_frame [simp]:
  "federation_outbound (nd_db (snd (send_signed_receipt P rt io row n))) = federation_outbound (nd_db n)"
  "federation_inbound (nd_db (snd (send_signed_receipt P rt io row n))) = federation_inbound (nd_db n)"
  by (simp_all add: send_signed_receipt_def apply_outcome_def store_call_def mark_receipt_sent_def fail_receipt_permanent_def
      split: option.split sum.split outcome_kind.split)

lemma materialize_frame [simp]:
  "federation_outbound (nd_db (snd (materialize_row P rt io row n))) = federation_outbound (nd_db n)"
  "federation_inbound (nd_db (snd (materialize_row P rt io row n))) = federation_inbound (nd_db n)"
  by (simp_all add: materialize_row_def store_call_def materialize_receipt_def Let_def split: sum.split option.split)

lemma send_receipt_frame [simp]:
  "federation_outbound (nd_db (snd (send_receipt P rt io row n))) = federation_outbound (nd_db n)"
  "federation_inbound (nd_db (snd (send_receipt P rt io row n))) = federation_inbound (nd_db n)"
  using materialize_frame [of P rt io row n]
  by (cases "materialize_row P rt io row n"; simp add: send_receipt_def split: sum.split option.split)+

lemma guarded_frame:
  assumes "\<And>n. F (nd_db (snd (fn n))) = F (nd_db n)"
    "\<And>cfg io k r ra e n. row = Work_Outbound r \<Longrightarrow> F (nd_db (snd (retry_outbound cfg io k r ra e n))) = F (nd_db n)"
    "\<And>cfg io k r ra e n. row = Work_Receipt r \<Longrightarrow> F (nd_db (snd (retry_receipt cfg io k r ra e n))) = F (nd_db n)"
  shows "F (nd_db (snd (guarded cfg io row fn n))) = F (nd_db n)"
  using assms(1) [of n] assms(2,3) by (cases "fn n") (auto simp: guarded_def split: sum.split work_row.split)

lemma hint_one_frame [simp]:
  "federation_outbound (nd_db (snd (hint_one io row n))) = federation_outbound (nd_db n)"
  "federation_receipt_out (nd_db (snd (hint_one io row n))) = federation_receipt_out (nd_db n)"
  "federation_inbound (nd_db (snd (hint_one io row n))) = federation_inbound (nd_db n)"
  using nd_db_simps(3) [of "n_agent row" "hint_payload row" n]
  by (cases "wake_agent (n_agent row) (hint_payload row) n";
      simp add: hint_one_def store_call_def mark_notification_hint_sent_def split: bool.split option.split)+

lemma hint_loop_frame:
  assumes "\<And>io row n. F (nd_db (snd (hint_one io row n))) = F (nd_db n)"
  shows "F (nd_db (snd (hint_loop cfg W after scanned hinted n))) = F (nd_db n)"
proof (induction cfg W after scanned hinted n rule: hint_loop.induct)
  case (1 cfg W after scanned hinted n)
  define page where "page = undelivered_notification_hints after HINT_PAGE (nd_db n)"
  obtain count n1 where n1: "hint_page cfg W scanned page n = (count, n1)" by force
  have "F (nd_db (snd (hint_page cfg W scanned page n))) = F (nd_db n)"
    unfolding hint_page_def by (intro each_row_frame guarded_frame assms) simp_all
  then show ?case
    using 1 [of page _ count n1] n1 by (subst hint_loop.simps) (auto simp: page_def [symmetric] Let_def)
qed

lemma due_batches:
  assumes "fed_ok s"
  shows "distinct (map o_event_id (due_outbound ts k s))" "set (due_outbound ts k s) \<subseteq> set (federation_outbound s)"
    "\<forall>r \<in> set (due_outbound ts k s). o_status r = Pending"
    "distinct (map receipt_key (due_receipts ts k s))" "set (due_receipts ts k s) \<subseteq> set (federation_receipt_out s)"
    "\<forall>r \<in> set (due_receipts ts k s). ro_status r = Pending"
    "distinct (map inbound_key (pending_delivery k s))" "set (pending_delivery k s) \<subseteq> set (federation_inbound s)"
  using outbox_keys [OF assms] receipt_keys [OF assms] inbound_keys [OF assms]
  by (auto simp: due_outbound_def due_receipts_def pending_delivery_def take_map [symmetric]
      intro!: distinct_take distinct_map_filter dest: in_set_takeD)

text \<open>
  C37: One cycle of the worker is a run of store operations from a consistent state to a consistent
  state, and it handles every row of its batches (the first 20 due outgoing events, the first 20 due
  receipts, the first 100 undelivered inbound events), whatever the network answers and whichever
  method or store call raises: each outgoing event and each receipt of the batch keeps what was
  signed and has one attempt more, and if it is still pending it has a deadline and an error, unless
  the store raised in the guard as well; then an outgoing event is as it was, and a receipt is at
  most signed.  Each inbound event of the batch is marked as delivered, unless the store raised for
  that very row; then it is as it was.  The rows outside the batches stay as they were.  So no row
  keeps the rows behind it from being handled.  The clock must leave room for the largest backoff
  before the end of year 9999, and the scans themselves succeed.
\<close>

theorem worker_cycle_handles_its_batches:
  fixes P :: platform
  assumes ok: "fed_ok (nd_db n)"
    and fit: "deadlines_fit (rt_config rt) (cy_outbound C)" "deadlines_fit (rt_config rt) (cy_receipts C)"
  defines "n' \<equiv> process_due P rt C n"
    and "out \<equiv> due_outbound (cy_now C) 20 (nd_db n)"
    and "receipts \<equiv> due_receipts (cy_now C) 20 (nd_db n)"
    and "inb \<equiv> pending_delivery 100 (nd_db n)"
  shows "fed_next\<^sup>*\<^sup>* (nd_db n) (nd_db n') \<and> fed_ok (nd_db n') \<and>
    (\<forall>i < length out. \<exists>row' \<in> set (federation_outbound (nd_db n')). o_event_id row' = o_event_id (out ! i) \<and>
       (outbound_handled (out ! i) row' \<or> io_store (cy_outbound C i) 1 \<noteq> None \<and> row' = out ! i)) \<and>
    set (federation_outbound (nd_db n)) - set out \<subseteq> set (federation_outbound (nd_db n')) \<and>
    (\<forall>i < length receipts. \<exists>row' \<in> set (federation_receipt_out (nd_db n')). receipt_key row' = receipt_key (receipts ! i) \<and>
       (receipt_handled (receipts ! i) row' \<or> io_store (cy_receipts C i) 1 \<noteq> None \<and> receipt_signed (receipts ! i) row')) \<and>
    set (federation_receipt_out (nd_db n)) - set receipts \<subseteq> set (federation_receipt_out (nd_db n')) \<and>
    (\<forall>i < length inb. (inb ! i)\<lparr>i_delivery_state := Delivered\<rparr> \<in> set (federation_inbound (nd_db n')) \<or>
       (io_store (cy_delivery C i) 0 \<noteq> None \<or> io_store (cy_delivery C i) 3 \<noteq> None) \<and>
       inb ! i \<in> set (federation_inbound (nd_db n'))) \<and>
    set (federation_inbound (nd_db n)) - set inb \<subseteq> set (federation_inbound (nd_db n'))"
proof -
  let ?cfg = "rt_config rt"
  define n1 where "n1 = snd (each_row (\<lambda>k row. guarded ?cfg (cy_outbound C k) (Work_Outbound row)
      (send_outbound P rt (cy_outbound C k) row)) 0 out n)"
  define n2 where "n2 = snd (each_row (\<lambda>k row. guarded ?cfg (cy_receipts C k) (Work_Receipt row)
      (send_receipt P rt (cy_receipts C k) row)) 0 (due_receipts (cy_now C) 20 (nd_db n1)) n1)"
  define n3 where "n3 = snd (deliver_pending ?cfg (cy_delivery C) n2)"
  have n': "n' = snd (hint_notifications ?cfg (cy_hints C) n3)"
    by (simp add: n'_def process_due_def n1_def n2_def n3_def out_def Let_def)
  note outgoing = due_batches(1-3) [OF ok, of "cy_now C" 20, folded out_def]
    and owed = due_batches(4-6) [OF ok, of "cy_now C" 20, folded receipts_def]
    and undelivered = due_batches(7,8) [OF ok, of 100, folded inb_def]
  have run1: "db_run n n1" unfolding n1_def by (intro each_row_run guarded_run send_outbound_run)
  have run2: "db_run n1 n2" unfolding n2_def by (intro each_row_run guarded_run send_receipt_run)
  have run3: "db_run n2 n3" unfolding n3_def by (rule deliver_pending_run)
  have run4: "db_run n3 n'" unfolding n' by (rule hint_notifications_run)
  note ok1 = fed_sys.inv_steps [OF run1 ok] and ok2 = fed_sys.inv_steps [OF run2 fed_sys.inv_steps [OF run1 ok]]
  have frame1: "federation_receipt_out (nd_db n1) = federation_receipt_out (nd_db n)"
      "federation_inbound (nd_db n1) = federation_inbound (nd_db n)"
    unfolding n1_def by (intro each_row_frame guarded_frame; simp)+
  have frame2: "federation_outbound (nd_db n2) = federation_outbound (nd_db n1)"
      "federation_inbound (nd_db n2) = federation_inbound (nd_db n1)"
    unfolding n2_def by (intro each_row_frame guarded_frame; simp)+
  have frame3: "federation_outbound (nd_db n3) = federation_outbound (nd_db n2)"
      "federation_receipt_out (nd_db n3) = federation_receipt_out (nd_db n2)"
    unfolding n3_def deliver_pending_def
    by (intro each_row_frame; simp add: guarded_delivery_db mark_delivered_def)+
  have frame4: "federation_outbound (nd_db n') = federation_outbound (nd_db n3)"
      "federation_receipt_out (nd_db n') = federation_receipt_out (nd_db n3)"
      "federation_inbound (nd_db n') = federation_inbound (nd_db n3)"
    unfolding n' hint_notifications_def by (intro hint_loop_frame hint_one_frame)+
  have receipts1: "due_receipts (cy_now C) 20 (nd_db n1) = receipts"
    by (simp add: due_receipts_def receipts_def frame1)
  have pending: "pending_delivery 100 (nd_db n2) = inb"
    by (simp add: pending_delivery_def inb_def frame1 frame2)
  note outs = outbound_batch.batch_ends(2,3) [where n = n and rt = rt and W = "cy_outbound C" and P = P,
      OF conjI [OF ok fit(1)] outgoing, folded n1_def]
  note recs = receipt_batch.batch_ends(2,3) [where n = n1 and rt = rt and W = "cy_receipts C" and P = P,
      OF conjI [OF ok1 fit(2)] owed(1), unfolded frame1, OF owed(2,3), folded n2_def [unfolded receipts1]]
  note inbs = delivery_batch.batch_ends(2,3) [where n = n2 and cfg = ?cfg and W = "cy_delivery C",
      OF ok2 undelivered(1), unfolded frame2 frame1, OF undelivered(2)]
  have n3: "n3 = snd (each_row (\<lambda>k row. guarded ?cfg (cy_delivery C k) (Work_Delivery row)
      (deliver_one (cy_delivery C k) row)) 0 inb n2)"
    by (simp add: n3_def deliver_pending_def pending)
  have run: "db_run n n'" using run1 run2 run3 run4 by (meson rtranclp_trans)
  show ?thesis
    using run fed_sys.inv_steps [OF run ok] outs [unfolded outbound_ended_def] recs [unfolded receipt_ended_def]
      inbs [folded n3, unfolded delivery_ended_def]
    unfolding frame4 frame3 frame2 by (intro conjI) (assumption | blast)+
qed

text \<open>A node with one queued event whose target family is not registered; the store raises in the method.\<close>

definition demo_platform :: platform where
  "demo_platform = \<lparr>netloc_ok = (\<lambda>_. True), ed_sign = (\<lambda>_ _. replicate 64 0), http_date = (\<lambda>_. None)\<rparr>"

definition demo_runtime :: runtime where
  "demo_runtime = \<lparr>rt_config = demo_config, rt_registry = [],
     rt_identity = \<lparr>id_family = lit ''org-a'', id_key_id = lit ''k1'', id_seed = replicate 32 7\<rparr>\<rparr>"

definition demo_node :: node where
  "demo_node = \<lparr>nd_db = snd demo_queued, nd_hub = init_hub, nd_hint_cursor = None,
     nd_conn_bucket = new_bucket 300 0, nd_family_buckets = Map.empty\<rparr>"

definition demo_item :: item_io where
  "demo_item = \<lparr>io_env = demo_env, io_reply = Network_Error (lit ''URLError''), io_time = clk demo_env 0,
     io_clock = clk demo_env, io_rand = (\<lambda>_. 0),
     io_store = (\<lambda>i. if i = 0 then Some (lit ''OperationalError'') else None)\<rparr>"

definition demo_cycle :: cycle_io where
  "demo_cycle = \<lparr>cy_now = now demo_env 0, cy_outbound = (\<lambda>_. demo_item), cy_receipts = (\<lambda>_. demo_item),
     cy_delivery = (\<lambda>_. demo_item), cy_hints = (\<lambda>_. demo_item)\<rparr>"

theorem worker_cycle_handles_its_batches_witness:
  "\<exists>row' \<in> set (federation_outbound (nd_db (process_due demo_platform demo_runtime demo_cycle demo_node))).
     o_event_id row' = lit ''m1'' \<and> o_attempts row' = 1"
proof -
  have ok: "fed_ok (nd_db demo_node)" by (simp add: demo_node_def demo_queued_ok)
  have fit: "deadlines_fit (rt_config demo_runtime) (\<lambda>_. demo_item)"
    by (simp add: deadlines_fit_def demo_runtime_def demo_config_def demo_item_def demo_env_def max_instant_def)
  have rows: "\<exists>row. due_outbound (now demo_env 0) 20 (nd_db demo_node) = [row] \<and> o_event_id row = lit ''m1'' \<and>
      o_attempts row = 0"
    by (simp add: demo_node_def demo_queued_def enqueue_outbound_def due_outbound_def due_def)
  have guard: "io_store demo_item 1 = None" by (simp add: demo_item_def)
  show ?thesis
    using worker_cycle_handles_its_batches [OF ok, of demo_runtime demo_cycle demo_platform] fit rows guard
    by (auto simp: demo_cycle_def outbound_handled_def simp del: One_nat_def)
qed

end
