(* ===== verification/Ed25519_Field.thy ===== *)
theory Ed25519_Field
  imports Base64url
begin

text \<open>
  The prime field of \<open>federation/ed25519strict.py\<close>: Python's \<open>pow\<close>, the constants, and the one number
  fact that decoding rests on, that \<open>_SQRT_M1\<close> is a square root of \<open>-1\<close>.  It is proved by
  squaring 246 times; every squaring is checked from its quotient.
\<close>

section \<open>Modular arithmetic\<close>

text \<open>Python's \<open>pow(base, exponent, modulus)\<close>, by squaring.\<close>

fun pow_mod :: "int \<Rightarrow> nat \<Rightarrow> int \<Rightarrow> int" where
  "pow_mod b n m =
     (if n = 0 then 1 mod m
      else let h = pow_mod (b * b mod m) (n div 2) m in if even n then h else b * h mod m)"

declare pow_mod.simps [simp del]

lemma pow_mod_eq: "pow_mod b n m = b ^ n mod m"
proof (induction b n m rule: pow_mod.induct)
  case (1 b n m)
  have "(b * b mod m) ^ (n div 2) mod m = b ^ (2 * (n div 2)) mod m"
    by (simp add: power_mod power_mult power2_eq_square)
  then show ?case
    using 1 by (subst pow_mod.simps) (auto simp: Let_def mod_mult_right_eq elim!: oddE evenE)
qed

definition P_ed :: int where "P_ed = 2 ^ 255 - 19"
definition L_ed :: int where "L_ed = 2 ^ 252 + 27742317777372353535851937790883648493"
definition D_ed :: int where "D_ed = (- 121665 * pow_mod 121666 (nat (P_ed - 2)) P_ed) mod P_ed"
definition SQRT_M1 :: int where "SQRT_M1 = pow_mod 2 (nat ((P_ed - 1) div 4)) P_ed"


section \<open>A square root of minus one\<close>

text \<open>
  Square and multiply for the base 2, the exponent's bits from the top: each step squares, doubles if
  the bit is set, and subtracts a given multiple of the prime.
\<close>

fun squarings :: "nat \<Rightarrow> int \<Rightarrow> (bool \<times> int \<times> int) list \<Rightarrow> nat \<Rightarrow> int \<Rightarrow> bool" where
  "squarings e a [] e' b = (e = e' \<and> a = b)"
| "squarings e a ((odd_bit, q, r) # rest) e' b =
     ((if odd_bit then 2 else 1) * (a * a) + 19 * q = q * 2 ^ 255 + r \<and>
      squarings (2 * e + (if odd_bit then 1 else 0)) r rest e' b)"

lemma squaring_step:
  fixes a q r t k x p :: int
  assumes "k * (a * a) + 19 * q = q * t + r" "p = t - 19" "x mod p = a mod p"
  shows "k * (x * x) mod p = r mod p"
proof -
  have "k * (x * x) mod p = k * ((x mod p) * (x mod p)) mod p" by (metis mod_mult_eq mod_mult_right_eq)
  also have "\<dots> = k * (a * a) mod p" unfolding assms(3) by (metis mod_mult_eq mod_mult_right_eq)
  also have "k * (a * a) = q * p + r" using assms(1) unfolding assms(2) by (simp add: algebra_simps)
  finally show ?thesis by simp
qed

lemma squarings_power:
  "squarings e a steps e' b \<Longrightarrow> 2 ^ e mod P_ed = a mod P_ed \<Longrightarrow> 2 ^ e' mod P_ed = b mod P_ed"
proof (induction e a steps e' b rule: squarings.induct)
  case (2 e a odd_bit q r rest e' b)
  define k :: int where "k = (if odd_bit then 2 else 1)"
  have "k * (a * a) + 19 * q = q * 2 ^ 255 + r" using 2(2) by (simp only: squarings.simps k_def)
  from squaring_step [OF this P_ed_def 2(3)]
  moreover have "2 ^ (2 * e + (if odd_bit then 1 else 0)) = k * (2 ^ e * 2 ^ e)"
    unfolding k_def mult_2 power_add by (cases odd_bit) (simp_all only: if_True if_False power_0 power_one_right mult.commute mult_1)
  ultimately have "2 ^ (2 * e + (if odd_bit then 1 else 0)) mod P_ed = r mod P_ed" by (simp only:)
  then show ?case using 2(1,2) by (simp only: squarings.simps)
qed simp

lemma squarings_1: "squarings 255
    19
   [(True, 0,
     722),
    (True, 0,
     1042568),
    (True, 0,
     2173896069248),
    (True, 0,
     9451648239783810422571008),
    (True, 0,
     178667308897216803844041172019681532254433604272128),
    (True, 1102735341553402596310854,
     5224276227137439182359211610032770964119227448329156370456386700117210870322),
    (True, 942829938632377296283697278013626408871977656445920132388689198435089693638,
     14046422762284079012395795304813587913913707185210629010741763570782359982906),
    (True, 6815733051070227683007179917180087812609369800448030980539184427408636433503,
     57667402193205334524132346572890988529514358996637946074273776214954518058325),
    (True, 114879325439831120582747090688887667074747292471742683459243989529882896618193,
     6282583251470661375988401844536932193162997771953941038931304321688160879093),
    (True, 1363507734306928362696447675741476609570644136198115698492051297579001177689,
     41773579711171363526115061832776734394027191205387144658354332233763888087437),
    (True, 60281560627484322310792839924240717015033807934019655554939244451219324850406,
     12423445338605615203288152012494886359718374004368866621880955284358764908644),
    (True, 5331693904062729566037547984692072219510661479864448302962544173935049584407,
     31860177317140150806945610515978157008538745288633840599826077183006098902229),
    (True, 35065293505473288976672381607127066069505943702778691011549454109933861234535,
     29965682538202139238154452199528621436240239400679311591035909128474666598167),
    (True, 31019118348922017079496557108320858793725621413120280228424085478614676735374,
     37220419053942053202281425929749818891562230118522756619478076890995066343852),
    (True, 47856795871840759911024015570744251322235577976228105126831564726359485557293,
     41673073471405172056591865107464322704643582559670806345915694214728927557751),
    (True, 59991837576878843771554544271772015880025582439139954621350529534145438039506,
     14357806875099573081046010407345500900557142388859621890028323395882441450808),
    (True, 7121267769516051285566233254304252315191214831187063451453953938710815970236,
     55874371979775216649385573191891013441786433360772204296104158392582684667764),
    (True, 107846588301411657130737652676825599297713318326640615414520771407115973263167,
     8456664400796649213982160158192303565222228470151974305050350702246773000909),
    (True, 2470468345765169256498627346708025649968788340042232423154962042227618355247,
     24730223749460300751989297794801363965226145514383745241035203824332555230159),
    (True, 21126968888001574160911701676469058525009290688311535334857835858306499080215,
     1444992902726793028090455788455824656657439623120520683073984908815343121527),
    (True, 72129434840800993737594766937562980241504242759286808727511959662022683254,
     831549168060017679827524564160905062311858293960840749036373044768214189412),
    (True, 23886744714801014886696507769537827772679352855246385159771542539295817218,
     31481322809643635092733215727019093627902277071797746415030516831487441729606),
    (True, 34236317605904163585681062992716918235371304725150807566214975380922891374656,
     37822683121557414710095899167460663848543473551043355343191920648275892017928),
    (True, 49418068814073027786939222965101384818570426595103275001994154559470811450263,
     26842178458649787340962453003574671094533543717061574803129506058013583129781),
    (True, 24889525671458636133049918620134199815995737275128861818537651559096112549957,
     31330852820456173428782778976368283529963853047524718861656227614838005523729)]
    8589934591
    31330852820456173428782778976368283529963853047524718861656227614838005523729"
  by (simp only: squarings.simps if_True if_False numeral_sqr [symmetric] sqr.simps add_num_simps) simp

lemma squarings_2: "squarings 8589934591
    31330852820456173428782778976368283529963853047524718861656227614838005523729
   [(True, 33909823889445468395816053112666583997348647557673551830151649432773615972057,
     1410276654374142921912072096561494027695175688319923564839723865256343965789),
    (True, 68705220018839470701708344091363781623830380996174727005071506490276201279,
     31212145392841138827272572664870072556204669421137992332397064300137686270271),
    (True, 33653353227861115471807244732842623038077835185459716990702003422470968482121,
     2312173971283518761497399288637533573442699377561835361619694099549526195053),
    (True, 184680957350171053601008169484232251864932553604089789576768160930510728638,
     45194746422429305393991597713404774341842436791187289784139113732634335346156),
    (True, 70559746098075625025131452555425960169398508764954262929862801133083377400181,
     4500455057296538258870812134262857057835079713243151331317076981750702941903),
    (True, 699671138370607142638158399561479379192385640216381956865657898524272280113,
     1153787188972287606307593351232234866874600405081045113565790564094448148581),
    (True, 45986729705108761893603616490337953950205357797901125778761069926574284463,
     40855687261085163679075598424383040827337295504513323885754385820034201474735),
    (True, 57661527400359551235189990161715595912155971929750886157147215303049275347867,
     12725503070822417001986919429249837080124537636621394363448261139776490441667),
    (True, 5594110253028340288798724916772088337448547922689054508110472075031578891454,
     37940261703003466530301850464572031464419938347212980071669803697540934661932),
    (True, 49725796211940085457352700556331510706638872021124800585935446561303865667288,
     46131046929608509272025581854558611791457008173809605434919116803945800816936),
    (True, 73513605457459201063452174545633124813758896002802747858592922549656155836418,
     38312950625439929102367916361458591974819898438434820790339388288940301753510),
    (True, 50707511896394559525332794583552196075700316238902702544794226182985420195280,
     31618672342086410660348971369570541766697605926830740459969996597839974999480),
    (True, 34535707828096941879021334208018637816193227708579053180709331689349993804823,
     46829877536710347127320434698448566838685447823836470715081022519073557726773),
    (True, 75757763576012600060890577488242269808913106080196825788218696325009937112779,
     43507094491014531035987560149431406451208903237536722355187496825765599958787),
    (True, 65388483220840084844503722245902371806649787950636647710512328994131542996056,
     57216950547371830068827719320242948460997140955201589226694955077452539901594),
    (True, 113091643876664973192676911548936802639023553217373243526750777290065189757887,
     25208240221263666284244628749673508130280695788255750471349331134717349793909),
    (True, 21951598912791625014794482044960899374008813768385607956460346571117008405495,
     29425705163516375894843110016508176480686115837392058736552579167725289780807),
    (True, 29911270452874792860804306021600080138446300369475900803036699849147729663689,
     45046667171868977845557852166343106279028118565024834275292957446337603010637),
    (True, 70098129730927745549334358220234237641903814119017147622221604529308147930369,
     33554756388950575406643830339888255401410403513173150599997540331253196160357),
    (True, 38894597506198890090533248757559052673473776389786401076392118655196940720228,
     44642026779291232422354173453679535107134480188421520711687674042532114506526),
    (True, 68844445871547581578443438305970153888435062845642087781737184812917979347250,
     14064963947811269298278524791691281423084908609845960596586683121720194887102),
    (True, 6833738372153958390816763840328580942651894780661843387767566082887943899746,
     42377152215527182989335328374971173558542091039079385017153574542379655083854),
    (True, 62036121525276786361129582727978514126980334016848541147639853690961492930535,
     21847452534710602092746359412823104712261255210105361772448459469926903743917),
    (True, 16488559292791830443437233576266510341323679343687904878891414320641194052143,
     51233491304434306593820827809579342932574496836920566022732946117164516405071),
    (True, 90675300826876570257964173589869632215551221053836429204874863958324782489758,
     3544437534908314905125170100574045874120208348111117397610725049021502447740)]
    288230376151711743
    3544437534908314905125170100574045874120208348111117397610725049021502447740"
  by (simp only: squarings.simps if_True if_False numeral_sqr [symmetric] sqr.simps add_num_simps) simp

lemma squarings_3: "squarings 288230376151711743
    3544437534908314905125170100574045874120208348111117397610725049021502447740
   [(True, 433986035544067378768525724930806284753631410967524787277712256961097284482,
     11031103431658649564284950039691621335441819141482003785330424283625700483782),
    (True, 4203577074097247009668451653940048620250453719405284675649793245333694165784,
     22694371332599253447191450960592330978402329053668220499847134565853973622032),
    (True, 17791698675592190232474878770473095402612049298441782134410277495684257472537,
     28310783642159936751895284043735237400895841602549197481456743190793174377435),
    (True, 27687572638594103054705923628922746716039573944299549405064096788681639080602,
     40774605092474466487059636332982967235493057760401563919383642614545645829152),
    (True, 57432884453438137317648403559665629027897111204616886666763003208069461109571,
     29681671761315073482538582626460610693621576637624872798416464178705770446329),
    (True, 30433914591206086655608294228763483276043747474712097525447955223123828159904,
     18878952571897396674442432668174851814068411255301696874725003248685998027586),
    (True, 12312234887876602463302682203350084809372534625901331288256269873514451665759,
     50961823044044079682291874088886034062798460829831489998068398232543870548501),
    (True, 89716229323738468356297928799983150520706210586994565637666193051278784164853,
     46281085050630773963913766411004831667293261619053526625279778566314907641505),
    (True, 73992579201980196177133953064924036416258108289854623838354300765080031423563,
     42518445290574344389416482979224524143612826477025266152184200731679946271763),
    (True, 62450490420720726365096473025375917461390301069702083230526517023196685986030,
     10776410042155387628757347139278587990459279206029733971475795250528422943868),
    (True, 4011708024670205646904773237461208104412745582931813139880285262458445039294,
     57140289167386179571914958435061541047398071664847524067297069223469617526842),
    (True, 112788798186061165568232112285415094613530685650188299178786624149805459222425,
     32267931274891655478184199467643527553561737611723686052487006347161512829603),
    (True, 35968584576694150731802210657912269816102424359723198576522881775916193206618,
     31270142707819730893125732811113788503899031967334786644522954160691301052736),
    (True, 33778536389074492167093623245750137635126640889871494829332431893709929059776,
     34258166528311316488034424742641032338801523995662611775475450041611407899968),
    (True, 40542388745613475419412795521961885166191856346960060743357652930813232951229,
     32701138785477294685022258595473138323480591694189213720300681212597505534727),
    (True, 36940847510761537049519302323760336569418914353754154818909612656321600318701,
     6551952651523179037334401176720959874396649372538283057572150954033323362809),
    (True, 1482936661063965941508723763038234862371988036480666090347743413112811770965,
     2265485014633511331062933614384272003015725064121437119583661948537437760177),
    (True, 177297858094954578974222487749192763172459566360835587831674896873228531320,
     21840033593278604262908027835695239214198655467837862420243244211695626839978),
    (True, 16477362849130450598533503689684345657660639061566213704638782611607952819942,
     544734975573418274629760138647082823830392536981593142938960017249991458010),
    (True, 10250655137755083936554601777335218503622461026677150232654266668018655170,
     43584484221788900868419546690254479977558121850951190428318500286667018333870),
    (True, 65621314111920564825831336846232123239208664988423875896416652106963270576764,
     49591944006784683262192128848541511732298204188838084179687636006996535288764),
    (True, 84957821439134776331261502280840113420261735806276486858221555402042411995466,
     20756486169383920521134455532562552711687687217901827738778514137285634944158),
    (True, 14882941345564124828066017612008485121994852820235293373220361869233929282172,
     43765620297419971205843694015456769443004566965438152645146172353629561008700),
    (True, 66167888761114278329360047299677447646835902200218611490803830916393541628264,
     34446819942962459076117508892498008554615060722037806425794218891933501941464),
    (True, 40990137132804309067993861405480738383748193085991310918309078030973619724934,
     17428871526260863785429713356690096210201905366964099854960834977827949018226)]
    9671406556917033397649407
    17428871526260863785429713356690096210201905366964099854960834977827949018226"
  by (simp only: squarings.simps if_True if_False numeral_sqr [symmetric] sqr.simps add_num_simps) simp

lemma squarings_4: "squarings 9671406556917033397649407
    17428871526260863785429713356690096210201905366964099854960834977827949018226
   [(True, 10493482402112578222049733773275244280863471691002947925447218845449690248560,
     48984009914529255597717947851481220773766393842112514106411440539177103850712),
    (True, 82887639150859627985695389084459401301614568515524425440814149350044640278977,
     34173355633475482035240025096660577257963197104544359244241478442929630901715),
    (True, 40341900485396506810626534887925053320998289030557401725810308111996057365195,
     839549009537373727335591448127933459387573416171681425111262846257465607395),
    (True, 24348555900761357856719497658816941186952571108290407458726547343078040770,
     30924531555065913850500907411981598969540926802104713979980629951941826051320),
    (True, 33035992638159361878070554388821304506817225796044458999502934228030073007292,
     10206601475148846935039781527637194584781325524341657018546582116449603416692),
    (True, 3598681545818014046532595030349327627238966246022107880752365188520292762450,
     10078996197941591827521117654050648724757670787365913398510810294488290330678),
    (True, 3509260953049044626037840471861058536515752603446055066082547407964220423174,
     24829494668832271851873095263695645243787012425653556421762256145675278781242),
    (True, 21296923116951245854307701228943322563305897622673032852674013740373971891202,
     7738230911551345549198896152119266338804972681543835554519681511733634936430),
    (True, 2068542610636003040148657141626538149954058585666694678296033673991557851997,
     28386134145047664064908648067853568489164700854806897628919141988772787201647),
    (True, 27835152366901602869213775208870338142669300156406924730895913480295754491170,
     46946574363901951083065463873840241654700729642342945764501467377662918674888),
    (True, 76135800261391303496220006170475584376563810867234292070259099341430269826758,
     55660232023739941517405710433965571046517923154926197258950504889269991229746),
    (True, 107021522777331710532511463055934353685744418295791798033768540634561326231025,
     19328068596642071616388258773760056600004400873025819700775715201434807731307),
    (True, 12905000268571371168102031251766382466034814903427797583691205750547279589538,
     50474905824970365894909409390984680001117021966810417657380743844501021762936),
    (True, 88010023303684465038199101971432350675823760395079792878159552348849283571707,
     31033228444585348421315759418180536040465828339768681257889441578444681097249),
    (True, 33268637746747086649300906977479322187440244455853081277110274589156067877483,
     34893493536391011707119872334858521129496918020628390137352446654800704427635),
    (True, 42060071605713142253378839584932387232486306678018152651713985412535598399254,
     33959849040268441603383559630429610870692267676446120304775157931210777468404),
    (True, 39839382964208848360334067271390003525226080343821050650903459576745340575850,
     54432116579986566612700064865178477388249008452809642039202947956959208982782),
    (True, 102350871631821708217226978349463918223567800242376397877045874881216697941533,
     24977296195056901874042652720105099310444481248060662814903730573525270877231),
    (True, 21551224416963073931958173655969196502583458339059700066971628739627552918331,
     44666734350811345786922297534185848357330186680870171487507256750286031869603),
    (True, 68920672239601872127110438747516143379289217536109008933192685770761686249272,
     43913945491668488238467437891642359526858952048146193627709874418675378428090),
    (True, 66617145310951226535649859049230895090316809445487499335578021564514512252907,
     57608036939302764840478145776034576230768319873591038614247645218099795254457),
    (True, 114642923946157193179762947389674802568062366165219526288805946914335514412463,
     12388985866120953976310377947444982970384487555830578790313727805310640105311),
    (True, 5302157403045826681819926891373769556938583205314960449317747356958154950146,
     56452777568112233575728564218974371806371177993011520015533434823606779550888),
    (True, 110090978274799507594614258164302118311941260200430991148351067799459978824447,
     27121771317718166130446342152088812480578842322560199196561157068188728683885),
    (True, 25410733470850677615756904457297141522519319513288968301441171753949001603956,
     8693388228197790815718534177035537785053224711574691503741616077445171268206)]
    324518553658426726783156020576255
    8693388228197790815718534177035537785053224711574691503741616077445171268206"
  by (simp only: squarings.simps if_True if_False numeral_sqr [symmetric] sqr.simps add_num_simps) simp

lemma squarings_5: "squarings 324518553658426726783156020576255
    8693388228197790815718534177035537785053224711574691503741616077445171268206
   [(True, 2610713715728084432186256106008826940331119867475596889210724823511239868971,
     7165800087628305419906348963162552686507119412646729856902501367281806014393),
    (True, 1773823798640148924971310911663430344809015098267929626626178457686530130358,
     49792237624548631371459520503827467480723489230450235332529824117671677405156),
    (True, 85645468321354912537564040079950959173999572124923354990543607696877755765852,
     31811642783378886829211474911892627132032788008300638327977767020779768187124),
    (True, 34958540716999933903659224261659778987741104028921057937050563883786112750261,
     21880558264494216808287980994218397563141933685170264459882187058272291026063),
    (True, 16538567811302158141411194913492995872801123104428166834159714586081056640480,
     57587431105925644872911601351995929038311179672182140389836888104460665624418),
    (True, 114560925300620211026059563263751061831340433501817202116617979490432906880385,
     1852334911467617730563258363249118600141597140885538955656229673690870877083),
    (True, 118527773247431684770500858927808657703675953607098613768931043887889997902,
     2999873641857064848050458994987355362871396067847211588725782548222771430780),
    (True, 310875878529656691448703851227893817197627909111716434032923063868271649320,
     56741858940553540454691345612168397481200062484931002208351244857929594532120),
    (True, 111221365025412675747956376611849817076852491744775589072119894329333407438431,
     52983284024645604748356606426061694763976161113936548640232552828396605328781),
    (True, 96974790057819721861825314266735192123796800858614364812552591900009386467466,
     23441663550800467214817254139361687330701016758839580700761892247398777612688),
    (True, 18982698857871083086182549736300479685966229295121067527056855531859555548581,
     44219520063360469453149303383715684669581732282357224556220104279732889728319),
    (True, 67547479884447420660787454060870603558801664896804797072970719315679249953620,
     55937530409946316548552502116686273223393472796871774714777090375113360366142),
    (True, 108090538100604096118304240725110680872291140372784317374303727527994397312650,
     4043360565791032338078027380609862533945144841446388649871217817879889873478),
    (True, 564762749257840590673440239729974843475440910701497854226515968137418131555,
     30004323796572083792199736105378546854862298935002078911621058436625125242273),
    (True, 31099169292798843622050696140956521451060393021839821803782179280418658226990,
     21002727013096797169004675847215356244075625075770601455342047954896970189548),
    (True, 15238158146800529077116263893970360384118671085496816356940712432952763817373,
     17683968136273031964748761461046074121640974398427507673212257537224433714631),
    (True, 10802904796157320391335265115260989674685824036037660820338680353868854321115,
     33670049901019569500871006427074058907676259723424101617658397332857683009187),
    (True, 39162338906026079335215335328304674344687630835566103104216223267883526155280,
     11338079573254137144714295952580911299677830590163390051859627963489637121218),
    (True, 4440788632666432019249815997819417179592159489060161313891228094890738425608,
     50503907384779849179363696987365820920550266664725850379172394941928600753056),
    (True, 88111188870696254755449552974409393815014423354944383796027125958950030473209,
     26963434268030124490232869225365333943046998147329985868172663616110233431931),
    (True, 25114903524586653826662315338969714662406522073540194989592059475750281158218,
     4187519072817056328568485486024279769409738840626811667464950563644469086640),
    (True, 605751778060345461671016514523729909423593143178471046232124619385626244189,
     7107064703472137553390016727696887278224065643217254122925776710931760452839),
    (True, 1744864231469849974112354672122145060993553896207903176120682340458473632686,
     29496294275899497481912582965637454402090666302592967900353443089829135066828),
    (True, 30054950445788393613605989667092520738884439554979612480591510034787511326693,
     50000476100785037372762746889064864080695006262063619269247590084856389364511),
    (True, 86363330233426273396377911430734596397474272800053473858361391588585251686947,
     31135492015806444414737471008134301620896546760764129796378474588803284032539)]
    10889035741470030830827987437816582766591
    31135492015806444414737471008134301620896546760764129796378474588803284032539"
  by (simp only: squarings.simps if_True if_False numeral_sqr [symmetric] sqr.simps add_num_simps) simp

lemma squarings_6: "squarings 10889035741470030830827987437816582766591
    31135492015806444414737471008134301620896546760764129796378474588803284032539
   [(True, 33488258807715967697761766448059055738404468817230433671428649140773875457260,
     46812062959751952380575244630234810940688005458028127061524926515372476693302),
    (True, 75700136442190403065218753352009466604487886460409827937139038491364131597516,
     40106794658385117354770859867621150384110113681558623316461986703750067679724),
    (True, 55567007672627143614729654096522897032199591137465526892863225225929085584284,
     33417327200782650993787628772606431437902672847704516142353609196254157350836),
    (True, 38576651120110702197779600441666693884358827431915363858168627966250487250875,
     17648620390273356357020134462309692498714675943790013590705331000182812092417),
    (True, 10759761007217206031325290023206550541743494695725873171292104845553763856339,
     13112761563863023931459458615335431701999506154879951249469996812584060497067),
    (True, 5939767283352931431985716365734046376026248774106787094486113023710149896781,
     27824130243647834693943021692430694884199168506770451210322983763184031520809),
    (True, 26743872708913286202373842799721015217206051541719712602785366798746573947123,
     20214254819784530476572656051887077550238535948296280650423414391220058472235),
    (True, 14115509983820132625438042482052551167784297491585821798176394036057575417378,
     9071231205899977564151271366498780104845740454626553539977526889129436116728),
    (True, 2842585745982893617293124083823514537634167012734764358418444497757315728595,
     31317987425793256789907905358765479205452620350800147189927333389226957110313),
    (True, 33881980811036541472033898503473800664499624824355458435912878190270506044514,
     1359025561427706785952284000887504036478567612089220490382823253603912706152),
    (True, 63802302515798422379245586793185974195111664963371835224704263527059282209,
     14398822984063074768968153532697637190471276264929534688614638524962533306867),
    (True, 7162012696790284798398180312341660849474109904106232763679276648418733861101,
     57536954078394898341561058596771979671434564551776157719280604183017138807529),
    (True, 114360181474381813137840557426815433171026860246966996689286650914105276457265,
     40547459852214399804323473420694576591072346817955398647431362105468896192197),
    (True, 56794777995493576020240577562350491590808922494996314790896039574132059826598,
     45971980921394367875587158654687982103435759201417385735055715081479896170116),
    (True, 73007510055564560104349826962464043465309804757690126818907219567773497171056,
     27684301228299730442981507030630901095912202244823809002810756354766128710768),
    (True, 26475747680083983496230108936423991337635288002028276688922985176814745290899,
     35757025066575975253653098954451781796433373486781824308350643199978034955497),
    (True, 44167605923106563104188016223590846343945229021755613036295058864461190317974,
     38127182720244788537581039343329974557372141358442408506114334627016172570692),
    (True, 50216973258116365209524540063075467803417184657892748373851398968378418394460,
     13901224617088797557110006582934073320367546309008609680113272247555915635188),
    (True, 6675552609080276611244349742173351464965958472069789748282620977888559021339,
     5454410152077933777103100970173391160692099338506939472643174185754823698977),
    (True, 1027724443113446721845149397926748437689418674520782065013613455796394928743,
     55362729019363284635602246820605937821515778654018841355971440409296941798951),
    (True, 105880523778775898649789442283871116994999172150061642298388401429050124189705,
     21765073601240440394004195196733367356284140392914731226844435028259364975757),
    (True, 16364448797414004016935442433817151154903072771179003446381278293219766429705,
     6868468521684803207615437430387374804254365021580786674773294649260505261053),
    (True, 1629674709010145781567724911074021394837156596698000293511699479921077136332,
     21540161437867206792264745630437124108648831241490862309653559019023251050550),
    (True, 16027988019749990667968078807425288476783301496478787031260703591891746647388,
     23310579803174567687392393518795196592504696180061856406369418281530699461788),
    (True, 18770993228959014375168938097518852292827013663389723557022526825773154578937,
     9295663124364450797527547070745142724484968397426519232838479866529431499675)]
    365375409332725729550921208179070754913983135743
    9295663124364450797527547070745142724484968397426519232838479866529431499675"
  by (simp only: squarings.simps if_True if_False numeral_sqr [symmetric] sqr.simps add_num_simps) simp

lemma squarings_7: "squarings 365375409332725729550921208179070754913983135743
    9295663124364450797527547070745142724484968397426519232838479866529431499675
   [(True, 2984982946272706557730076495588203411743423818118343095025383949986404589165,
     26389076693310116141985250835199949026874418449444379430995625568753508958665),
    (True, 24056336605108267934262722213082671422221194304435394145711208271514514723157,
     41577931303125218655368411065379178664242088974509779353166293289040071305457),
    (True, 59718220228477775803430539865569976364492777564242064434753391855748161551541,
     26581867791059424736998914131786935395247100185720215298147869473475247466289),
    (True, 24409118098325100620684301060475331658149855347303882843425660276191920168233,
     55590360218998282887189888048440386046650429025517689767088323422846948382925),
    (True, 106752997363902227275846233111344972455748592338486832573991598035947091827971,
     7138300081214773490902001799287249147252904381900996808424164052295966117771),
    (True, 1760235207261448101400917070109583781090077042682496295978264267509801174521,
     21363423181746877609111268711041542253138779060801629243052671443405792697453),
    (True, 15766045955247093706865167660048932482760871291574595400024946796442405901939,
     27935597705990857044596004281158840715176448634484849678803416174709500393307),
    (True, 26958581517310207078548026223582635705116482300748825839201561774177508778390,
     35579438349793358381572025108442492934664453576748305360961308541578088690388),
    (True, 43729979884628844514961163959984934689027826546456740975827991814152907761552,
     57866903068063127764661670395535172659072410669887183287178532001232342380240),
    (True, 115675552371309004746650172950541549573762991964391863556167314696094380637985,
     43360846569293993820275693050384192156330769926392333168517301831384209752435),
    (True, 64949618841489442485459062567039650228872921051349390588448231638339439105859,
     15684242169343610675938633510107053195079618631387286693842602453664090877259),
    (True, 8497832763771902775038090377298488152418614983823215514164015516462540094787,
     1536504363613701847894867300414741110172459555250118742995152291136358200299),
    (True, 81554644188702301886043824368740835519840372024765971879505442436884737630,
     10174754984538454556267894105915698025200616652384454510632651876057352397932),
    (True, 3576259472552189766538554144532384344725373148939601174843544444239720922392,
     53241440335614123920049335849618705599788617803539401677470731327189273355240),
    (True, 97922094252954841580436158849962182015990245232388346444910758876004225220097,
     14027931116174711974312877722162477075845082495311616644575421411282769600147),
    (True, 6797799493774940782315341229939043353078157670583260907545545786492207907446,
     6065461000593967686201644147469699507884414012396859043024075587031478402964),
    (True, 1270892248064565011731931979229484580348423213730173914072204635218210266200,
     16440926874779247207396427489514528874519454921103911874653412964701567546792),
    (True, 9337566263196083440880237632939595892353753175270164222661303864127377219790,
     6194970277937707253775099527297108592051974592490823042763801755464669391818),
    (True, 1325743649581327930090533642166358718458614003655066599811942150110280948209,
     684614496836416649787906379392285011927598899598562528098251400672931668907),
    (True, 16190985493593925008338701609184484960630540785055286743058726999387120317,
     54365033985168141306022265729958169761829617159194845758540630505539836345465),
    (True, 102098750948385263615548679805957788779318581884505064888051734666373773862407,
     41386377741921754056700424941473791974722792115338212604641688420019397375207),
    (True, 59169232505567184305421169843227849156496285224945090245673964009779441861981,
     53502266011507298565676768324199732940023720279442518681700110239273703126729),
    (True, 98883869777991591692200403316074888097861101298223795119979037365591047168210,
     29769714498032076210166807474819013544447509023848694974789569031297101857592),
    (True, 30614730492615893651777564138148123007690506370754340805410261947675162337450,
     6528249132286365709654196922569572509716464893905265972235628165028866286878),
    (True, 1472226194860407327939406112525751104797216619309044555009447628076961690518,
     12854018797251641308374136387378939352483716320918111721110096356924659430186)]
    12259964326927110866866776217202473468949912977468817407
    12854018797251641308374136387378939352483716320918111721110096356924659430186"
  by (simp only: squarings.simps if_True if_False numeral_sqr [symmetric] sqr.simps add_num_simps) simp

lemma squarings_8: "squarings 12259964326927110866866776217202473468949912977468817407
    12854018797251641308374136387378939352483716320918111721110096356924659430186
   [(True, 5707671407550746083628861245160355009642684000121147243669686455470024521054,
     24023237773304088355367946030695448843319069214091389862021789217161946282946),
    (True, 19936282587661189517389820021190447876345778058782210102910438172928597695032,
     37008626383577036881806629661822850263240381849752111154573360970710289084464),
    (True, 47313713253488906042808340731428985355312158499563503835177313716807217353298,
     40976972857154150938827157254409068204129712880595484192193128742204960992790),
    (True, 58004387539622085164282737983403807747971906696474994356321912320073377024490,
     30460314274043604819673758530503676511725237214240063293831192481254650417190),
    (True, 32051610840941404713960218040075651889489654966559030743224553634388224793791,
     48311673985348507728741468902012948953142664038330626952387585498656526855541),
    (True, 80627886020193451209957314133038230128900897545505519542167669177457174326302,
     24233097835806840212876053465345452678284176986654458383856149761728159806764),
    (True, 20286119184402312896158504202260467186492442673769965307943695141234975076626,
     44543206194479786795328863844863295531809228891211781783131460436919471891318),
    (True, 68539992020267633820485159182892409706122368845377809604639198334172019229466,
     53821164031703208189080431028209409696023511366568294270491627813890002137014),
    (True, 100066169176399347822725591111289443593712392604818543848675560599062036023280,
     32059910633176193622138024243719773757257401337919911903483392576788485259672),
    (True, 35506324363858311991321119460829789107798122759392181367135885037886599880587,
     51112254427615305009901759741924517510279757244838123682606985713533983665105),
    (True, 90246667795034992004292730401003788333181651450349129958268996401971357097414,
     48754557550952872105209550496347674417710959653730114307448477872931425810164),
    (True, 82112928357912042852474345081823957601113537828821950574218809391071779775414,
     36227438829045814509927442875215714798190109276434149535428280465454964479906),
    (True, 45337374349380054044296182014974884345690896089732339320745467038170136790065,
     38725988975554836836261693331247132583308376864819596228891641900046618530987),
    (True, 51806724691223113204700370986623414773557566701137437371103298936036983839482,
     45479349884507628301698123796250445596652345077353159483318819597649710961920),
    (True, 71451211547909170306290127088657338243372272262820662278598676986816170828882,
     43148221398861912654878150651583556894950920730774984615012326700886961205782),
    (True, 64314203920079705065838344435537391234321221815124083317341594043375963705872,
     50200440481698919585213819744643434144352553022329073818314918686710226422520),
    (True, 87055488545220954442423999313867354390128224210491086455916563780750119739487,
     32130093957348876535958107736349013334990574945634455035178054147542185674637),
    (True, 35661950466832917681117845387774122029854310315808135677675700499843949427455,
     11056534755336441226498492808108261289195462485940569264063461083603937863743),
    (True, 4222981435127824194292833681671228515188221348082536523085798595517273828694,
     5509472318170026184457828863391795017510754830936479629593488654910888123492),
    (True, 1048578894279059557835586831415461858190826159564810201554052990818311686293,
     39182422482334497014118289882429877725228100176802129302739402859527968289071),
    (True, 53035133632924709134138584286381598742332730364314402303128189876192530140635,
     31298399990674153193572642070113929186128749250418980644598906944843612558467),
    (True, 33839611960660277626943348216192562676643815907243995882872804003236853248769,
     16016535929395975659978764171596312767014544623914800237889741581420795887397),
    (True, 8861725351612733179999554277473080924110981746402813108971046972581479777367,
     6867356314802072500137672020365772398649811024958711628042637258408446576935),
    (True, 1629146967295707459833087767044304513434445771118578304807454679216681049649,
     2623918248308615220828121720255052394918917448532756518915771777981733340549),
    (True, 237838250234737005399441533290637460414814956761644585837062302903020817331,
     27289357948726713611986542207589493182563159105075691984536234051570781506683)]
    411376139330301510538742295639337626245683966408394965837152255
    27289357948726713611986542207589493182563159105075691984536234051570781506683"
  by (simp only: squarings.simps if_True if_False numeral_sqr [symmetric] sqr.simps add_num_simps) simp

lemma squarings_9: "squarings 411376139330301510538742295639337626245683966408394965837152255
    27289357948726713611986542207589493182563159105075691984536234051570781506683
   [(True, 25725731771794899367554746637524451810544976575527858686160411599106482776284,
     24779736756518239262134786564833979098176951288651987557576585047857040035462),
    (True, 21211651254132705903606869028799928617524066286236292272655086648503571851196,
     44073974636539183643196518952896103138684389691110778399627147914726074797884),
    (True, 67103556142979995951677411268714025613358797236225737859292948855529943662172,
     57079518814717006129559040589390601886102144762720731787304697448910039485684),
    (True, 112549017452900656837600807460527727797542322127410421293783528396358024973824,
     3071949427213583281562656910526188114764181754740924459574672836798483880736),
    (True, 325993713232584152403783305726775850020875897191370107993638466699407322542,
     17144314256986813274476140473712444112177023766797766200554335356044944813034),
    (True, 10153630123726883954600382569867503067257969122756506876810668466206730065849,
     3165891640717593200786762078156449118083566803391380297476050855428833748611),
    (True, 346236774784282048982287196507942687420048610765782093316028690887186637220,
     54864376144835610778091815697625521774567190232236766343665203152016606956862),
    (True, 103982915917262684091713821539452261199422400941298162738031943512584732294036,
     38167929923336629992940764174428308519642977592094795664038841569520591249924),
    (True, 50324366171407062071915938371308680622477068193435267725030145000815887663853,
     40708934432730130651322167211264057559822842830536907232677053187710079408055),
    (True, 57248033214146416679004895045047970885313643423296373108434881316451182644036,
     11547632910069633913615370700207887367810604134713919823128354979068299091886),
    (True, 4606457201145289209030883952814959167680934483499460463844363761512686800012,
     9142642502628947595601055162406050501866612098636667730066404712196791034604),
    (True, 2887517186413785412147386624891128719852770957645866966101228741041567248543,
     4882997256204588887345417740635705617157621401990104841753515336715323289325),
    (True, 823671543061422590538933473883423503098856488889328699614575005671998107518,
     23831477938961091992659029161882590259549528906548330511742067278450904634668),
    (True, 19619279503324135551736184995424164311143606891945765330952709817161126290394,
     56713486864942564343515026382452337645161272677378998056718354471378196670542),
    (True, 111110166974807829943924490733480896646621990295083136777488477894090277179203,
     21316658154331738910193541779585055043469702896516072202627221661286878826881),
    (True, 15697097024904490023314644856311081511390184007456081443080285325696271689298,
     24605409678848788938025967347965514085894017404791575956843964561310096170520),
    (True, 20914250341339401260809467524537702095655217325448129132055419330101915082559,
     52690110670145470389354969733677398040905379530483294791374464377200528971309),
    (True, 95904574508272335054729634748457204111150957928688871484759248037084303558943,
     12329658577085121505735788901738140674414910983404876297849933017120786593055),
    (True, 5251497978101848495924295816387004670950041672497871491771754700927306395447,
     168274596723269311747058085710366988357898918760177840875994024352600093847),
    (True, 978178737041163663962443647466362324135524544872190231728991176354193162,
     47786050790763851049981906562182647077748863621709482674342791699566717530080),
    (True, 78882993310446606079518835831723378978727237688761759971463048956226180081609,
     19503180772758402817567362257769427592749798537153604074569836368588198394859),
    (True, 13139897993387627732373127986684184230359577417313662381823690285498056949606,
     16826699064328860228531004055853964690023742207467919279868379270196598769668),
    (True, 9780903108888347696821915469366969466452103835306477429771145416059591070340,
     32688828802654143177559518765903582606604909550033534751544165635592339447788),
    (True, 36913040796740976079687075135687449967910678913365092604224181346215831692497,
     37708960546153945843958973812618546261670618580507553614517327413904816963235),
    (True, 49121342048058996202818384028079788763593058647873047451064990681005274235703,
     2057919991675863527054010271309791625846740817386352880445591432005900891303)]
    13803492693581127574869511724554050904902217944340773110325048447598591
    2057919991675863527054010271309791625846740817386352880445591432005900891303"
  by (simp only: squarings.simps if_True if_False numeral_sqr [symmetric] sqr.simps add_num_simps) simp

lemma squarings_10: "squarings 13803492693581127574869511724554050904902217944340773110325048447598591
    2057919991675863527054010271309791625846740817386352880445591432005900891303
   [(True, 146297893751946087527890098974944408979994736920338507732265225322737550232,
     20249007912788656877858290429492512521631358125394076339539349770885218897450),
    (True, 14164087517648491448500441193429708359853486060666517814462096397014080965130,
     42571996530428911894693132740212666761429091441709467178347503787900635626630),
    (True, 62607900091426251028123606207181133541054944544110251303837911916825046308784,
     5435299199213152975492301500219858938085329969184343786141514702871513181784),
    (True, 1020535256926567958458839914698197869451370729839077744084739366158170552195,
     33882242112267496923536051823032213047892495906645674409515910817898777107257),
    (True, 39657504691930067112915947409546498072870526491711844916946027419326767452697,
     51123978885619834460123720657013633389779939782597154962641759658222584675645),
    (True, 90288075267062399135209955216705382931132191343215404981108169191282315586235,
     43219276769744686065183324647184717045656222363829659343670365424300554530035),
    (True, 64526200254371939979393726796435021455763766592346840061891252458320216944910,
     54540094052611622470445204756022498502301992064615059872118586784666432192860),
    (True, 102757343057217881138175483961920935187940444696857123649281189953567037407512,
     37551472053155023094598280749600284614585691400890565658685849766312449902312),
    (True, 48711896042184790895959322374384436421661016505908593212167207426933367124203,
     3803914040724051894386236598260692734658987734458578662976073884998070765041),
    (True, 499853215345713923513103460321439700651913380186534994724074057614202994348,
     3829772649397305401114698789991079656979851534689771153023122197422770815110),
    (True, 506672213712675151645405134118650569071260076722547223063257836022000498282,
     17987939655220351027887281615378337919756346108173807249081199009637994796582),
    (True, 11177481127461117559186485083179962760857158521012151917702231051862375128175,
     30348741544180654946814210571832604891148323009090688159164939748200445802373),
    (True, 31817237926428301716481629198920036835377433245612531690899656520295840587170,
     15513182470649566372280220337745372463859220538938362347543710404034055407928),
    (True, 8313480893308283612982297008344614904647976932613507160336014299061426140185,
     32785846204757843728184147904964674237443212419005095899022797234058411955803),
    (True, 37132474884670226093998080357299778750522178901260223182847880066502652096073,
     25685400396258068827309542784701451615252568774064705527532856139406555789341),
    (True, 22790496237232776564747423127153361809538546195459431229453633992955460259161,
     25910928650365661088611546722392363794011740157349981708915610625600295625773),
    (True, 23192472920955859091132356263708257444097148224505203993727824985973104756014,
     57692109581687170544952182944730090749826224675958039702824471609347838771772),
    (False, 57488892892568471791421702514207109143894690784151447750986744052104094219481,
     22961221025933304929473883566500786080839636259902234537901881337279050793515),
    (True, 18212562687982170203641850479078031168141106034460617211550174573135082294351,
     38788602997682801834296285904666247971040529424372086091236406538540197302351),
    (True, 51974387280576871821953725479083298163253499104296142594374103994723114637850,
     19681161376707505956807079304988542015446066515923890162744021073123829784752),
    (False, 6690407189080634018507799843845558368979872843924222843531373839242004886244,
     57896044618658097711785492504343953926634992332820282019728792003956564819948)]
    28948022309329048855892746252171976963317496166410141009864396001978282409974
    57896044618658097711785492504343953926634992332820282019728792003956564819948"
  by (simp only: squarings.simps if_True if_False numeral_sqr [symmetric] sqr.simps add_num_simps) simp

lemma two_power_half: "2 ^ nat ((P_ed - 1) div 2) mod P_ed = P_ed - 1"
proof -
  have "2 ^ 255 mod P_ed = 19 mod P_ed" by (simp add: P_ed_def)
  note squarings_power [OF squarings_1 this]
  note squarings_power [OF squarings_2 this]
  note squarings_power [OF squarings_3 this]
  note squarings_power [OF squarings_4 this]
  note squarings_power [OF squarings_5 this]
  note squarings_power [OF squarings_6 this]
  note squarings_power [OF squarings_7 this]
  note squarings_power [OF squarings_8 this]
  note squarings_power [OF squarings_9 this]
  note squarings_power [OF squarings_10 this]
  note last_power = this
  have "nat ((P_ed - 1) div 2) = 28948022309329048855892746252171976963317496166410141009864396001978282409974" "P_ed - 1 = 57896044618658097711785492504343953926634992332820282019728792003956564819948" "57896044618658097711785492504343953926634992332820282019728792003956564819948 mod P_ed = 57896044618658097711785492504343953926634992332820282019728792003956564819948" by (simp_all add: P_ed_def)
  then show ?thesis using last_power by (simp only:)
qed

text \<open>\<open>_SQRT_M1\<close> is what its name says.\<close>

lemma sqrt_m1: "SQRT_M1 * SQRT_M1 mod P_ed = P_ed - 1"
proof -
  define k where "k = nat ((P_ed - 1) div 4)"
  have "SQRT_M1 * SQRT_M1 mod P_ed = 2 ^ (k + k) mod P_ed"
    by (simp add: SQRT_M1_def pow_mod_eq k_def mod_simps power_add)
  also have "k + k = nat ((P_ed - 1) div 2)" by (simp add: k_def P_ed_def)
  finally show ?thesis unfolding two_power_half .
qed

end
