(* ===== verification/Ed25519_Strict.thy ===== *)
theory Ed25519_Strict
  imports Ed25519_Field
begin

text \<open>
  The strict acceptance policy of \<open>federation/ed25519strict.py\<close> around PyNaCl: the range of
  \<open>S\<close>, the decoding of the two points with its canonicality checks, the cofactor test for small
  order, and last the group equation, which is PyNaCl's and a parameter here.
\<close>

type_synonym point = "int \<times> int \<times> int \<times> int"

definition IDENTITY :: point where "IDENTITY = (0, 1, 1, 0)"

text \<open>\<open>int.from_bytes(enc, "little")\<close>.\<close>

fun from_le :: "bytes \<Rightarrow> int" where
  "from_le [] = 0"
| "from_le (b # bs) = b + 256 * from_le bs"

section \<open>Points\<close>

definition sig_err :: "string \<Rightarrow> fed_error" where
  "sig_err category = FederationError ''signature'' category"

text \<open>
  \<open>_decompress\<close>: the square root \<open>x\<close> of \<open>u/v\<close> of RFC 8032, 5.1.3, if there is one, and the choice
  of its sign.
\<close>

definition recover_x :: "int \<Rightarrow> int option" where
  "recover_x y =
     (let u = (y * y - 1) mod P_ed;
          v = (D_ed * y * y + 1) mod P_ed;
          x = (u * pow_mod v 3 P_ed mod P_ed) * pow_mod (u * pow_mod v 7 P_ed mod P_ed) (nat ((P_ed - 5) div 8)) P_ed mod P_ed;
          vx2 = v * x * x mod P_ed
      in if vx2 = (P_ed - u) mod P_ed then Some (x * SQRT_M1 mod P_ed)
         else if vx2 \<noteq> u then None
         else Some x)"

definition decompress :: "bytes \<Rightarrow> string \<Rightarrow> fed_error + point" where
  "decompress enc side =
     (let non_canon = sig_err (''non_canonical_'' @ side);
          y = take_bit 255 (from_le enc);
          sign_bit = drop_bit 7 (enc ! 31)
      in if P_ed \<le> y then Inl non_canon
         else
           (case recover_x y of
              None \<Rightarrow> Inl (sig_err (''invalid_'' @ side))
            | Some x \<Rightarrow>
                if x = 0 \<and> sign_bit \<noteq> 0 then Inl non_canon
                else
                  (let x' = (if x mod 2 \<noteq> sign_bit then P_ed - x else x)
                   in Inr (x', y, 1, x' * y mod P_ed))))"

definition add_points :: "point \<Rightarrow> point \<Rightarrow> point" where
  "add_points p1 p2 =
     (case (p1, p2) of ((x1, y1, z1, t1), (x2, y2, z2, t2)) \<Rightarrow>
        let a = (y1 - x1) * (y2 - x2) mod P_ed;
            b = (y1 + x1) * (y2 + x2) mod P_ed;
            c = 2 * D_ed * t1 * t2 mod P_ed;
            d = 2 * z1 * z2 mod P_ed;
            e = b - a; f = d - c; g = d + c; h = b + a
        in (e * f mod P_ed, g * h mod P_ed, f * g mod P_ed, e * h mod P_ed))"

definition is_identity :: "point \<Rightarrow> bool" where
  "is_identity point = (case point of (x, y, z, t) \<Rightarrow> x mod P_ed = 0 \<and> (y - z) mod P_ed = 0)"

text \<open>\<open>bin(k)[2:]\<close>, the most significant bit first.\<close>

fun bin :: "nat \<Rightarrow> bool list" where
  "bin k = (if k < 2 then [k = 1] else bin (k div 2) @ [odd k])"

declare bin.simps [simp del]

definition scalar_mul :: "point \<Rightarrow> nat \<Rightarrow> point" where
  "scalar_mul point k =
     fold (\<lambda>bit result. let r = add_points result result in if bit then add_points r point else r) (bin k) IDENTITY"

definition small_order :: "point \<Rightarrow> bool" where
  "small_order point = is_identity (scalar_mul point 8)"

section \<open>Verification\<close>

text \<open>\<open>nacl\<close> is \<open>VerifyKey(public_key).verify(message, sig)\<close>, \<open>False\<close> for \<open>BadSignatureError\<close>.\<close>

definition verify :: "(bytes \<Rightarrow> bytes \<Rightarrow> bytes \<Rightarrow> bool) \<Rightarrow> bytes \<Rightarrow> bytes \<Rightarrow> bytes \<Rightarrow> fed_error + bool" where
  "verify nacl public_key message sig =
     (if length sig \<noteq> 64 then Inl (sig_err ''signature_length'')
      else if length public_key \<noteq> 32 then Inl (sig_err ''public_key_length'')
      else if L_ed \<le> from_le (drop 32 sig) then Inl (sig_err ''non_canonical_s'')
      else
        (case decompress (take 32 sig) ''r'' of
           Inl e \<Rightarrow> Inl e
         | Inr r \<Rightarrow>
             if small_order r then Inl (sig_err ''small_order_r'')
             else
               (case decompress public_key ''a'' of
                  Inl e \<Rightarrow> Inl e
                | Inr a \<Rightarrow>
                    if small_order a then Inl (sig_err ''small_order_a'')
                    else if \<not> nacl public_key message sig then Inl (sig_err ''signature_invalid'')
                    else Inr True)))"

section \<open>Only canonical encodings are accepted\<close>

text \<open>The encoding of RFC 8032: 32 bytes of \<open>y\<close>, least significant first, with the parity of \<open>x\<close> as top bit.\<close>

fun to_le :: "nat \<Rightarrow> int \<Rightarrow> bytes" where
  "to_le 0 n = []"
| "to_le (Suc k) n = (n mod 256) # to_le k (n div 256)"

definition compress :: "point \<Rightarrow> bytes" where
  "compress point = (case point of (x, y, z, t) \<Rightarrow> to_le 32 (y + 2 ^ 255 * (x mod 2)))"

definition reduced :: "point \<Rightarrow> bool" where
  "reduced point = (case point of (x, y, z, t) \<Rightarrow>
     0 \<le> x \<and> x < P_ed \<and> 0 \<le> y \<and> y < P_ed \<and> z = 1 \<and> t = x * y mod P_ed)"

text \<open>The affine curve equation \<open>- x\<^sup>2 + y\<^sup>2 = 1 + d x\<^sup>2 y\<^sup>2\<close> in the field.\<close>

definition on_curve :: "point \<Rightarrow> bool" where
  "on_curve point = (case point of (x, y, z, t) \<Rightarrow>
     (- (x * x) + y * y) mod P_ed = (1 + D_ed * (x * x) * (y * y)) mod P_ed)"

lemma from_le_range: "is_bytes bs \<Longrightarrow> 0 \<le> from_le bs \<and> from_le bs < 256 ^ length bs"
  by (induction bs) (auto simp: is_bytes_def)

lemma to_le_from_le: "is_bytes bs \<Longrightarrow> to_le (length bs) (from_le bs) = bs"
  by (induction bs) (auto simp: is_bytes_def)

lemma from_le_append: "from_le (bs @ cs) = from_le bs + 256 ^ length bs * from_le cs"
  by (induction bs) (simp_all add: algebra_simps)

lemma top_bit:
  assumes "is_bytes enc" "length enc = 32"
  shows "from_le enc div 2 ^ 255 = enc ! 31 div 128" "enc ! 31 div 128 \<in> {0, 1}"
proof -
  define xs b where "xs = take 31 enc" and "b = enc ! 31"
  have enc: "enc = xs @ [b]" using assms(2) by (simp add: xs_def b_def take_Suc_conv_app_nth [of 31, symmetric])
  have len: "length xs = 31" using assms(2) by (simp add: xs_def)
  have "is_bytes xs" "0 \<le> b" "b < 256" using assms(1) by (simp_all add: enc is_bytes_def)
  note r = from_le_range [OF this(1)] this(2,3)
  have "from_le enc = from_le xs + 256 ^ 31 * b" by (simp add: enc from_le_append len)
  then have "from_le enc div 256 ^ 31 = b" using r by (simp add: len)
  moreover have "(2 :: int) ^ 255 = 256 ^ 31 * 128" by simp
  ultimately show "from_le enc div 2 ^ 255 = enc ! 31 div 128"
    by (simp only: zdiv_zmult2_eq b_def zero_le_numeral)
  have "0 \<le> b div 128" "b div 128 < 2" using r by simp_all
  then show "enc ! 31 div 128 \<in> {0, 1}" unfolding b_def by auto
qed

lemma P_ed_facts: "0 < P_ed" "odd P_ed" "P_ed < 2 ^ 255"
  by (simp_all add: P_ed_def)

lemma residue_range:
  fixes a b m :: int
  assumes "(if A then Some (a mod m) else if B then None else Some (b mod m)) = Some x" "0 < m"
  shows "0 \<le> x \<and> x < m"
  using assms by (cases A; cases B) auto

lemma recover_x_range: "recover_x y = Some x \<Longrightarrow> 0 \<le> x \<and> x < P_ed"
  unfolding recover_x_def Let_def by (rule residue_range [OF _ P_ed_facts(1)])

text \<open>What \<open>recover_x\<close> returns satisfies \<open>v x\<^sup>2 = u\<close>; in the second branch because \<open>SQRT_M1\<^sup>2 = - 1\<close>.\<close>

lemma curve_dvd:
  "on_curve (x, y, z, t) \<longleftrightarrow> P_ed dvd (D_ed * y * y + 1) * x * x - (y * y - 1)"
proof -
  have "(- (x * x) + y * y) - (1 + D_ed * (x * x) * (y * y)) = - ((D_ed * y * y + 1) * x * x - (y * y - 1))"
    by (simp add: algebra_simps)
  then show ?thesis by (simp only: on_curve_def prod.case mod_eq_dvd_iff dvd_minus_iff)
qed

lemma root_times_i:
  fixes v u x i p :: int
  assumes "p dvd v * x * x + u" "p dvd i * i + 1"
  shows "p dvd v * (x * i) * (x * i) - u"
proof -
  have "v * (x * i) * (x * i) - u = (v * x * x + u) * (i * i) - u * (i * i + 1)" by (simp add: algebra_simps)
  then show ?thesis using assms by (metis dvd_diff dvd_mult dvd_mult2)
qed

lemma dvd_square_mod:
  fixes v u x p :: int
  shows "p dvd v * (x mod p) * (x mod p) - u \<longleftrightarrow> p dvd v * x * x - u"
proof -
  have "v * (x mod p) * (x mod p) mod p = v * x * x mod p"
    by (intro mod_mult_cong) simp_all
  then show ?thesis by (simp flip: mod_eq_dvd_iff)
qed

lemma recover_x_curve:
  assumes "recover_x y = Some x"
  shows "on_curve (x, y, z, t)"
proof -
  define u where "u = (y * y - 1) mod P_ed"
  define v where "v = (D_ed * y * y + 1) mod P_ed"
  obtain x0 where x0: "v * x0 * x0 mod P_ed = (P_ed - u) mod P_ed \<and> x = x0 * SQRT_M1 mod P_ed \<or>
      v * x0 * x0 mod P_ed = u \<and> x = x0"
    using assms unfolding recover_x_def Let_def u_def [symmetric] v_def [symmetric] by (metis option.distinct(1) option.inject)
  have uv: "u mod P_ed = (y * y - 1) mod P_ed" "v * x0 * x0 mod P_ed = (D_ed * y * y + 1) * x0 * x0 mod P_ed"
    by (simp_all only: u_def v_def mult.assoc mod_mult_left_eq mod_mod_trivial)
  from x0 show ?thesis
  proof
    assume 1: "v * x0 * x0 mod P_ed = (P_ed - u) mod P_ed \<and> x = x0 * SQRT_M1 mod P_ed"
    have "(P_ed - u) mod P_ed = (- (y * y - 1)) mod P_ed"
      using uv(1) by (metis diff_0 minus_mod_self1 mod_minus_cong)
    then have "(D_ed * y * y + 1) * x0 * x0 mod P_ed = (- (y * y - 1)) mod P_ed" using 1 uv(2) by simp
    then have "P_ed dvd (D_ed * y * y + 1) * x0 * x0 + (y * y - 1)"
      unfolding mod_eq_dvd_iff by (simp only: diff_minus_eq_add)
    moreover have "P_ed dvd SQRT_M1 * SQRT_M1 + 1"
      using sqrt_m1 by (metis add.commute diff_add_cancel dvd_triv_left mod_0_imp_dvd mod_add_left_eq mod_self)
    ultimately show ?thesis using 1 root_times_i by (simp only: curve_dvd dvd_square_mod)
  next
    assume "v * x0 * x0 mod P_ed = u \<and> x = x0"
    then show ?thesis using uv by (simp add: curve_dvd u_def mod_eq_dvd_iff)
  qed
qed

lemma curve_negated: "on_curve (P_ed - x, y, z, t) \<longleftrightarrow> on_curve (x, y, z, t)"
proof -
  have "(D_ed * y * y + 1) * (P_ed - x) * (P_ed - x) - (y * y - 1) =
      (D_ed * y * y + 1) * x * x - (y * y - 1) + P_ed * ((D_ed * y * y + 1) * (P_ed - 2 * x))"
    by (simp add: algebra_simps)
  then show ?thesis by (simp only: curve_dvd dvd_add_left_iff [OF dvd_triv_left])
qed

lemma decompress_cases:
  assumes "decompress enc side = Inr p"
  obtains x y s where "y = take_bit 255 (from_le enc)" "s = drop_bit 7 (enc ! 31)" "y < P_ed"
    "recover_x y = Some x" "\<not> (x = 0 \<and> s \<noteq> 0)"
    "p = (if x mod 2 \<noteq> s then P_ed - x else x, y, 1, (if x mod 2 \<noteq> s then P_ed - x else x) * y mod P_ed)"
proof -
  define y s where "y = take_bit 255 (from_le enc)" and "s = drop_bit 7 (enc ! 31)"
  have "y < P_ed" using assms unfolding decompress_def Let_def y_def [symmetric] by (rule_tac ccontr) simp
  then obtain x where x: "recover_x y = Some x"
    using assms unfolding decompress_def Let_def y_def [symmetric] by (cases "recover_x y") simp_all
  have "\<not> (x = 0 \<and> s \<noteq> 0)"
    using assms \<open>y < P_ed\<close> x unfolding decompress_def Let_def y_def [symmetric] s_def [symmetric]
    by (rule_tac notI) simp
  moreover from this have "p = (if x mod 2 \<noteq> s then P_ed - x else x, y, 1, (if x mod 2 \<noteq> s then P_ed - x else x) * y mod P_ed)"
    using assms \<open>y < P_ed\<close> x unfolding decompress_def Let_def y_def [symmetric] s_def [symmetric] by auto
  ultimately show thesis using that y_def s_def \<open>y < P_ed\<close> x by blast
qed

lemma flip_parity:
  fixes x s :: int
  assumes "x mod 2 \<noteq> s" "s \<in> {0, 1}"
  shows "(P_ed - x) mod 2 = s"
proof -
  have "(p - x) mod 2 = s" if "odd p" "s = 0 \<or> s = 1" for p :: int
    using that assms(1) by presburger
  then show ?thesis using P_ed_facts(2) assms(2) by blast
qed

lemma decompress_canonical:
  assumes "is_bytes enc" "length enc = 32" "decompress enc side = Inr p"
  shows "reduced p \<and> on_curve p \<and> compress p = enc"
  using assms(3)
proof (cases rule: decompress_cases)
  case (1 x0 y s)
  have s: "s = enc ! 31 div 128" using 1(2) by (simp add: drop_bit_eq_div)
  have bit: "s \<in> {0, 1}" unfolding s by (rule top_bit(2) [OF assms(1,2)])
  define x where "x = (if x0 mod 2 \<noteq> s then P_ed - x0 else x0)"
  have p: "p = (x, y, 1, x * y mod P_ed)" using 1(6) unfolding x_def .
  note r = recover_x_range [OF 1(4)]
  have "x0 \<noteq> 0" if "x0 mod 2 \<noteq> s" using that 1(5) bit by auto
  then have x: "0 \<le> x" "x < P_ed" "x mod 2 = s" using r flip_parity [OF _ bit, of x0] by (auto simp: x_def)
  have y: "0 \<le> y" unfolding 1(1) by simp
  have "from_le enc div 2 ^ 255 = s" unfolding s by (rule top_bit(1) [OF assms(1,2)])
  then have "y + 2 ^ 255 * s = from_le enc"
    using mod_mult_div_eq [of "from_le enc" "2 ^ 255"] unfolding 1(1) take_bit_eq_mod by (simp only:)
  then have "compress p = enc"
    using to_le_from_le [OF assms(1)] assms(2) unfolding compress_def p prod.case x(3) by (simp only:)
  moreover have "on_curve p"
    using recover_x_curve [OF 1(4)] by (simp add: p x_def curve_negated)
  ultimately show ?thesis unfolding reduced_def p prod.case using 1(3) x y by blast
qed

text \<open>
  C40: Strict verification accepts nothing but canonical encodings of points of the curve.  For any
  public key, message and signature, given as bytes, \<open>verify\<close> either raises one of its ten categories, or
  it returns \<open>True\<close> and then the signature has 64 bytes with \<open>S\<close> below the group order, and \<open>R\<close> and the
  public key are decoded by \<open>decompress\<close> to reduced points that satisfy the curve equation, whose
  encodings are the same bytes again (so no second encoding of a point is ever accepted) and that are
  not of small order, and PyNaCl has accepted the group equation.
\<close>

theorem strict_verify_accepts_canonical_only:
  fixes pk msg sg :: "8 word list"
  defines "key \<equiv> map uint pk" and "sig \<equiv> map uint sg"
  shows "case verify nacl key (map uint msg) sig of
      Inl e \<Rightarrow> e \<in> sig_err ` {''signature_length'', ''public_key_length'', ''non_canonical_s'',
        ''non_canonical_r'', ''invalid_r'', ''small_order_r'', ''non_canonical_a'', ''invalid_a'',
        ''small_order_a'', ''signature_invalid''}
    | Inr accepted \<Rightarrow> accepted \<and> length sig = 64 \<and> from_le (drop 32 sig) < L_ed \<and>
        (\<exists>r. decompress (take 32 sig) ''r'' = Inr r \<and> reduced r \<and> on_curve r \<and> compress r = take 32 sig \<and> \<not> small_order r) \<and>
        (\<exists>a. decompress key ''a'' = Inr a \<and> reduced a \<and> on_curve a \<and> compress a = key \<and> \<not> small_order a) \<and>
        nacl key (map uint msg) sig"
proof -
  have bytes: "is_bytes (map uint (ws :: 8 word list))" for ws
    using uint_bounded [of "w :: 8 word" for w] by (auto simp: is_bytes_def list_all_iff)
  have key: "is_bytes key" and r: "is_bytes (take 32 sig)"
    using bytes by (simp_all add: key_def sig_def take_map)
  have err: "e \<in> sig_err ` {''non_canonical_'' @ side, ''invalid_'' @ side}" if "decompress enc side = Inl e" for enc side e
    using that by (auto simp: decompress_def Let_def split: if_splits option.splits)
  show ?thesis
  proof (cases "verify nacl key (map uint msg) sig")
    case (Inl e)
    then show ?thesis
      using err [of "take 32 sig" "''r''"] err [of key "''a''"]
      by (auto simp: verify_def split: if_splits sum.splits)
  next
    case (Inr b)
    then obtain rp ap where acc: "b" "length sig = 64" "length key = 32" "from_le (drop 32 sig) < L_ed"
        "decompress (take 32 sig) ''r'' = Inr rp" "\<not> small_order rp" "decompress key ''a'' = Inr ap"
        "\<not> small_order ap" "nacl key (map uint msg) sig"
      by (auto simp: verify_def not_le split: if_splits sum.splits)
    then show ?thesis
      using decompress_canonical [OF r _ acc(5)] decompress_canonical [OF key acc(3,7)]
      unfolding Inr sum.case by (intro conjI exI [of _ rp] exI [of _ ap]) simp_all
  qed
qed

end
