(* ===== verification/Server.thy ===== *)
theory Server
  imports Fed_Worker Ed25519_Strict
begin

text \<open>
  The request handlers of \<open>server.py\<close> over the node: sending and acknowledging events, the
  federation endpoints, the notification endpoints and reading the inbox, with the message ACL.

  A handler runs without interleaved requests.  Its responses are a status with a JSON body, or
  \<open>send_error_json\<close> with its status; the texts of error messages are left out, and so is the
  storage-health latch.  The fields of a request that the code checks are JSON values; the
  unchecked ones have the type the store expects.  Clock readings and the monotonic clock are the
  fields of \<open>handler_io\<close>; \<open>nacl\<close> is the group equation of PyNaCl.
\<close>

section \<open>Responses and errors\<close>

datatype response = Reply int json | Error_Reply int | No_Response

definition rejected :: "int \<Rightarrow> string \<Rightarrow> response" where
  "rejected status reason =
     Reply status (JObj [(lit ''status'', JStr (lit ''rejected'')), (lit ''reason'', JStr (lit reason))])"

definition fed_error_status :: "fed_error \<Rightarrow> int" where
  "fed_error_status exc =
     (if fe_category exc = ''body_too_large'' then 413
      else if fe_layer exc = ''inbound'' then 422
      else if fe_layer exc \<in> {''registry'', ''signature'', ''receipt_binding''} then 403
      else 400)"

text \<open>
  The \<open>except\<close> clauses of \<open>do_POST\<close>.  \<open>storage_failure\<close> is \<open>classify_storage_error\<close>:
  \<open>DatabaseFull\<close> is \<open>SQLITE_FULL\<close>, and \<open>DiskIOError\<close> is \<open>SQLITE_IOERR\<close> with the result of the write
  probe (whether it failed with \<open>ENOSPC\<close> or \<open>EDQUOT\<close>).
\<close>

definition storage_failure :: "exn \<Rightarrow> (string \<times> int) option" where
  "storage_failure e =
     (case e of
        DatabaseFull \<Rightarrow> Some (''storage_full'', 507)
      | DiskIOError no_space \<Rightarrow> Some (if no_space then (''storage_full'', 507) else (''storage_io_error'', 503))
      | _ \<Rightarrow> None)"

definition exn_response :: "exn \<Rightarrow> response" where
  "exn_response e =
     (case e of
        EventIdConflict _ \<Rightarrow> Error_Reply 409
      | PermissionError _ \<Rightarrow> Error_Reply 403
      | KeyError _ \<Rightarrow> Error_Reply 400
      | ValueError _ \<Rightarrow> Error_Reply 400
      | _ \<Rightarrow>
          (case storage_failure e of
             Some (code, status) \<Rightarrow> Reply status (JObj [(lit ''error'', JStr (lit code)),
               (lit ''code'', JStr (lit code)), (lit ''retryable'', JBool True)])
           | None \<Rightarrow> Error_Reply 500))"

definition fed_exn_response :: "exn \<Rightarrow> response" where
  "fed_exn_response e =
     (case storage_failure e of
        Some (code, status) \<Rightarrow> rejected status code
      | None \<Rightarrow> rejected 500 ''internal'')"

section \<open>Message ACL\<close>

text \<open>
  \<open>MessageAcl\<close>.  The file is absent, or \<open>os.stat\<close> fails on it with another error (\<open>True\<close>: a
  \<open>PermissionError\<close>), which leaves \<open>check\<close> as an exception, or it has a modification time and what
  reading and parsing it gives (\<open>None\<close> is an exception).  \<open>str_of\<close> is Python's \<open>str\<close> on a list element.
\<close>

record acl =
  acl_mtime :: "int option"
  acl_restricted :: "pystr \<rightharpoonup> pystr set"
  acl_broken :: bool

datatype acl_file = Absent | Stat_Fails bool | Present int "json option"

definition init_acl :: acl where
  "init_acl = \<lparr>acl_mtime = None, acl_restricted = Map.empty, acl_broken = False\<rparr>"

fun restricted_of :: "(json \<Rightarrow> pystr) \<Rightarrow> dict \<Rightarrow> (pystr \<rightharpoonup> pystr set) \<Rightarrow> (pystr \<rightharpoonup> pystr set) option" where
  "restricted_of str_of [] acc = Some acc"
| "restricted_of str_of ((peer, targets) # rest) acc =
     (case targets of
        JArr xs \<Rightarrow> restricted_of str_of rest (acc(peer \<mapsto> str_of ` set xs))
      | _ \<Rightarrow> None)"

definition acl_of_json :: "(json \<Rightarrow> pystr) \<Rightarrow> json \<Rightarrow> (pystr \<rightharpoonup> pystr set) option" where
  "acl_of_json str_of raw =
     (case raw of
        JObj kvs \<Rightarrow>
          (let cfg = obj_get kvs (lit ''restricted_peers'') in
           case (if py_true cfg then cfg else JObj []) of
             JObj peers_cfg \<Rightarrow> restricted_of str_of peers_cfg Map.empty
           | _ \<Rightarrow> None)
      | _ \<Rightarrow> None)"

definition acl_refresh :: "(json \<Rightarrow> pystr) \<Rightarrow> acl_file \<Rightarrow> acl \<Rightarrow> acl res" where
  "acl_refresh str_of file st =
     (case file of
        Absent \<Rightarrow> Inr init_acl
      | Stat_Fails denied \<Rightarrow> Inl (if denied then PermissionError ''stat'' else OSError)
      | Present mtime content \<Rightarrow>
          Inr (if acl_mtime st = Some mtime \<and> \<not> acl_broken st then st
               else
                 (case Option.bind content (acl_of_json str_of) of
                    None \<Rightarrow> st\<lparr>acl_broken := True\<rparr>
                  | Some restricted \<Rightarrow>
                      \<lparr>acl_mtime = Some mtime, acl_restricted = restricted, acl_broken = False\<rparr>)))"

definition acl_check :: "(json \<Rightarrow> pystr) \<Rightarrow> acl_file \<Rightarrow> pystr \<Rightarrow> pystr \<Rightarrow> acl \<Rightarrow> (bool \<times> acl) res" where
  "acl_check str_of file source target st =
     (case acl_refresh str_of file st of
        Inl e \<Rightarrow> Inl e
      | Inr st' \<Rightarrow>
          Inr (if acl_broken st' then False
               else case acl_restricted st' source of
                      None \<Rightarrow> True
                    | Some allowed \<Rightarrow> target \<noteq> lit ''*'' \<and> target \<in> allowed,
               st'))"

section \<open>Requests\<close>

record handler_io =
  hd_mono :: "nat \<Rightarrow> real"
  hd_auth_now :: pystr
  hd_created :: pystr
  hd_env :: env
  hd_world :: world

record fed_request =
  fq_length :: "pystr option"
  fq_encoding :: "pystr option"
  fq_stream :: "bytes option"

text \<open>\<open>read_fed_body\<close>: \<open>fq_stream\<close> is what the connection delivers, \<open>None\<close> an \<open>OSError\<close>.\<close>

definition read_fed_body :: "fed_request \<Rightarrow> bytes fed_res" where
  "read_fed_body rq =
     (case fq_length rq of
        None \<Rightarrow> Inl (FederationError ''request'' ''length_required'')
      | Some header \<Rightarrow>
          (case py_int header of
             None \<Rightarrow> Inl (FederationError ''request'' ''invalid_length'')
           | Some len \<Rightarrow>
               if len < 0 then Inl (FederationError ''request'' ''invalid_length'')
               else if int REQUEST_BODY_LIMIT < len then Inl (FederationError ''request'' ''body_too_large'')
               else
                 (case fq_stream rq of
                    None \<Rightarrow> Inl (FederationError ''request'' ''invalid_json'')
                  | Some bs \<Rightarrow>
                      (let raw = take (nat len) bs in
                       if int (length raw) < len then Inl (FederationError ''request'' ''invalid_json'')
                       else Inr raw))))"

text \<open>\<open>auth.removeprefix("Bearer ").strip() or body.get("token")\<close>.\<close>

definition bearer :: "pystr \<Rightarrow> pystr" where
  "bearer auth = strip (if prefix (lit ''Bearer '') auth then drop 7 auth else auth)"

definition token_of :: "pystr \<Rightarrow> pystr option \<Rightarrow> pystr option" where
  "token_of auth body_token = (if bearer auth \<noteq> [] then Some (bearer auth) else body_token)"

definition authorized :: "pystr \<Rightarrow> pystr set option \<Rightarrow> pystr \<Rightarrow> pystr \<Rightarrow> 'z ledger_scheme \<Rightarrow> bool" where
  "authorized peer_id scopes auth ts s =
     (case token_scope peer_id (Some (bearer auth)) ts s of
        None \<Rightarrow> False
      | Some scope \<Rightarrow> (case scopes of None \<Rightarrow> True | Some ok \<Rightarrow> scope \<in> ok))"

definition str_at :: "dict \<Rightarrow> string \<Rightarrow> pystr" where
  "str_at kvs key = (case get kvs (lit key) of Some (JStr s) \<Rightarrow> s | _ \<Rightarrow> [])"

definition obj_at :: "dict \<Rightarrow> string \<Rightarrow> dict" where
  "obj_at kvs key = (case get kvs (lit key) of Some (JObj o') \<Rightarrow> o' | _ \<Rightarrow> [])"

section \<open>Federation inbox\<close>

definition conn_allowed :: "handler_io \<Rightarrow> node \<Rightarrow> bool \<times> node" where
  "conn_allowed io n =
     (let (ok, b) = allow (hd_mono io 0) (nd_conn_bucket n) in (ok, n\<lparr>nd_conn_bucket := b\<rparr>))"

definition family_allowed :: "runtime \<Rightarrow> handler_io \<Rightarrow> pystr \<Rightarrow> node \<Rightarrow> bool \<times> node" where
  "family_allowed rt io family n =
     (let (ok, bs) = allow_family (rt_config rt) (hd_mono io 1) family (nd_family_buckets n)
      in (ok, n\<lparr>nd_family_buckets := bs\<rparr>))"

text \<open>What both endpoints do first: the connection limit, the raw body, the encoding, the schema.\<close>

definition admit_envelope ::
    "(bytes \<Rightarrow> envelope fed_res) \<Rightarrow> handler_io \<Rightarrow> fed_request \<Rightarrow> node \<Rightarrow> (response + envelope) \<times> node" where
  "admit_envelope parse io rq n =
     (case conn_allowed io n of
        (False, n1) \<Rightarrow> (Inl (rejected 429 ''rate_limited_conn''), n1)
      | (True, n1) \<Rightarrow>
          (case read_fed_body rq of
             Inl e \<Rightarrow> Inl (rejected (fed_error_status e) (fe_category e))
           | Inr raw \<Rightarrow>
               if content_encoding_rejected (fq_encoding rq) then Inl (rejected 400 ''content_encoding_rejected'')
               else
                 (case parse raw of
                    Inl e \<Rightarrow> Inl (rejected (fed_error_status e) (fe_category e))
                  | Inr env \<Rightarrow> Inr env), n1))"

definition verify_envelope ::
    "(bytes \<Rightarrow> bytes \<Rightarrow> bytes \<Rightarrow> bool) \<Rightarrow> peer_record \<Rightarrow> envelope \<Rightarrow> (response + unit)" where
  "verify_envelope nacl record env =
     (case signed_bytes env of
        None \<Rightarrow> Inl (rejected 500 ''internal'')
      | Some bs \<Rightarrow>
          (case verify nacl (pr_public_key_bytes record) bs (env_sig env) of
             Inl e \<Rightarrow> Inl (rejected 403 (fe_category e))
           | Inr _ \<Rightarrow> Inr ()))"

definition after_receive ::
    "runtime \<Rightarrow> handler_io \<Rightarrow> receive_result res \<Rightarrow> node \<Rightarrow> response \<times> node" where
  "after_receive rt io result n =
     (let finish = (\<lambda>row status.
            (Reply 200 (JObj [(lit ''status'', JStr (lit status))]),
             if i_delivery_state row = Delivery_Pending then snd (deliver_pending (rt_config rt) (hd_world io) n) else n))
      in case result of
           Inl e \<Rightarrow> (fed_exn_response e, n)
         | Inr (Receive_Conflict _) \<Rightarrow> (Reply 409 (JObj [(lit ''status'', JStr (lit ''conflict''))]), n)
         | Inr (Receive_Stored row) \<Rightarrow> finish row ''stored''
         | Inr (Receive_Duplicate row) \<Rightarrow> finish row ''duplicate'')"

definition store_received ::
    "runtime \<Rightarrow> handler_io \<Rightarrow> envelope \<Rightarrow> peer_record \<Rightarrow> node \<Rightarrow> response \<times> node" where
  "store_received rt io env record n =
     (let signed_obj = env_signed env; ev = obj_at signed_obj ''event'';
          (result, s) = receive_event (str_at signed_obj ''origin'') (str_at ev ''event_id'')
            (the (canonical_bytes (JObj ev))) (sort_keys (JObj signed_obj)) (env_sig_str env)
            (pr_family record) (pr_key_id record) (pr_public_key record) (str_at ev ''source'')
            (str_at ev ''target'') (takeWhile (\<lambda>c. c \<noteq> 64) (str_at ev ''target'')) (str_at ev ''type'')
            [(lit ''text'', JStr (str_at (obj_at ev ''payload'') ''text''))] (str_at ev ''created_at'')
            (hd_env io) (nd_db n)
      in after_receive rt io result (n\<lparr>nd_db := s\<rparr>))"

definition federation_inbox ::
    "(bytes \<Rightarrow> bytes \<Rightarrow> bytes \<Rightarrow> bool) \<Rightarrow> runtime \<Rightarrow> handler_io \<Rightarrow> fed_request \<Rightarrow> node \<Rightarrow> response \<times> node" where
  "federation_inbox nacl rt io rq n =
     (case admit_envelope parse_event io rq n of
        (Inl r, n1) \<Rightarrow> (r, n1)
      | (Inr env, n1) \<Rightarrow>
          (let signed_obj = env_signed env; origin = str_at signed_obj ''origin'' in
           case lookup (rt_registry rt) origin (str_at signed_obj ''key_id'') of
             None \<Rightarrow> (rejected 403 ''unregistered_key'', n1)
           | Some record \<Rightarrow>
               (case verify_envelope nacl record env of
                  Inl r \<Rightarrow> (r, n1)
                | Inr _ \<Rightarrow>
                    (case family_allowed rt io origin n1 of
                       (False, n2) \<Rightarrow> (rejected 429 ''rate_limited_family'', n2)
                     | (True, n2) \<Rightarrow>
                         (let target = str_at (obj_at signed_obj ''event'') ''target'';
                              agent = takeWhile (\<lambda>c. c \<noteq> 64) target;
                              family = drop 1 (dropWhile (\<lambda>c. c \<noteq> 64) target)
                          in if family \<noteq> id_family (rt_identity rt) then (rejected 422 ''target_family'', n2)
                             else if \<not> is_local_member agent (nd_db n2) then (rejected 422 ''target_member'', n2)
                             else store_received rt io env record n2)))))"

section \<open>Federation receipts\<close>

definition rsplit_at :: "pystr \<Rightarrow> pystr \<times> pystr" where
  "rsplit_at s = (rev (drop 1 (dropWhile (\<lambda>c. c \<noteq> 64) (rev s))), rev (takeWhile (\<lambda>c. c \<noteq> 64) (rev s)))"

definition store_receipt ::
    "runtime \<Rightarrow> handler_io \<Rightarrow> envelope \<Rightarrow> outbound_row \<Rightarrow> node \<Rightarrow> response \<times> node" where
  "store_receipt rt io env out n =
     (let rc = obj_at (env_signed env) ''receipt'';
          (result, s) = record_receipt_in (str_at rc ''event_id'') (str_at rc ''agent'') (str_at rc ''ack_type'')
            (str_at (env_signed env) ''issuer'') (str_at (env_signed env) ''key_id'')
            (sort_keys (JObj (env_signed env))) (env_sig_str env) (Some (o_source_local out))
            [(lit ''origin'', JStr (o_origin out)), (lit ''target'', JStr (o_target out)),
             (lit ''origin_event_sig_hash'', JStr (str_at rc ''origin_event_sig_hash''))]
            (hd_env io) (nd_db n);
          n1 = n\<lparr>nd_db := s\<rparr>
      in case result of
           Inl e \<Rightarrow> (fed_exn_response e, n1)
         | Inr (status, _) \<Rightarrow>
             (Reply 200 (JObj [(lit ''status'',
                JStr (case status of Receipt_Stored \<Rightarrow> lit ''stored'' | Receipt_Duplicate \<Rightarrow> lit ''duplicate''))]),
              snd (hint_notifications (rt_config rt) (hd_world io) n1)))"

definition federation_receipts ::
    "(bytes \<Rightarrow> bytes \<Rightarrow> bytes \<Rightarrow> bool) \<Rightarrow> runtime \<Rightarrow> handler_io \<Rightarrow> fed_request \<Rightarrow> node \<Rightarrow> response \<times> node" where
  "federation_receipts nacl rt io rq n =
     (case admit_envelope parse_receipt io rq n of
        (Inl r, n1) \<Rightarrow> (r, n1)
      | (Inr env, n1) \<Rightarrow>
          (let rc = obj_at (env_signed env) ''receipt''; issuer = str_at (env_signed env) ''issuer'' in
           case get_outbound (str_at rc ''event_id'') (nd_db n1) of
             None \<Rightarrow> (rejected 403 ''unknown_event'', n1)
           | Some out \<Rightarrow>
               if str_at rc ''origin'' \<noteq> id_family (rt_identity rt) then (rejected 403 ''origin_mismatch'', n1)
               else if issuer \<noteq> snd (rsplit_at (o_target out)) then (rejected 403 ''issuer_not_target_family'', n1)
               else
                 (case lookup (rt_registry rt) issuer (str_at (env_signed env) ''key_id'') of
                    None \<Rightarrow> (rejected 403 ''unregistered_key'', n1)
                  | Some record \<Rightarrow>
                      (case verify_envelope nacl record env of
                         Inl r \<Rightarrow> (r, n1)
                       | Inr _ \<Rightarrow>
                           (case family_allowed rt io issuer n1 of
                              (False, n2) \<Rightarrow> (rejected 429 ''rate_limited_family'', n2)
                            | (True, n2) \<Rightarrow>
                                (case decode_strict (JStr (o_sig out)) 64 ''signature_length'' ''schema'' of
                                   Inl e \<Rightarrow> (rejected (fed_error_status e) (fe_category e), n2)
                                 | Inr stored_sig \<Rightarrow>
                                     if str_at rc ''origin_event_sig_hash'' \<noteq> hexdigest (sha256 stored_sig)
                                     then (rejected 403 ''hash_mismatch'', n2)
                                     else if str_at rc ''agent'' \<noteq> o_target out
                                     then (rejected 403 ''agent_mismatch'', n2)
                                     else store_receipt rt io env out n2))))))"

section \<open>Sending an event\<close>

record event_request =
  er_source :: json
  er_target :: json
  er_type :: "json option"
  er_payload :: json
  er_seq :: "int option"
  er_event_id :: "pystr option"
  er_created_at :: "pystr option"
  er_requires_ack :: bool
  er_source_ref :: "pystr option"
  er_token :: "pystr option"

definition outbound_item :: "pystr \<Rightarrow> pystr \<Rightarrow> outbound_row \<Rightarrow> json" where
  "outbound_item event_id family row =
     (let ev = (case o_signed_json row of JObj kvs \<Rightarrow> obj_at kvs ''event'' | _ \<Rightarrow> []) in
      JObj [(lit ''event_id'', JStr event_id), (lit ''source'', JStr (o_source_addr row)),
        (lit ''target'', JStr (o_target row)), (lit ''type'', JStr (o_type row)),
        (lit ''created_at'', JStr (str_at ev ''created_at'')),
        (lit ''payload'', JObj ((lit ''text'', JStr (str_at (obj_at ev ''payload'') ''text'')) #
           (case get ev (lit ''in_reply_to'') of None \<Rightarrow> [] | Some r \<Rightarrow> [(lit ''in_reply_to'', r)]))),
        (lit ''requires_ack'', JBool True),
        (lit ''federation'', JObj [(lit ''status'', JStr (case o_status row of Pending \<Rightarrow> lit ''pending''
             | Sent \<Rightarrow> lit ''sent'' | Failed_Permanent \<Rightarrow> lit ''failed_permanent'')),
           (lit ''target_family'', JStr family)])])"

text \<open>The caller's intent that a repeated event id must repeat.\<close>

definition same_intent :: "outbound_row \<Rightarrow> pystr \<Rightarrow> pystr \<Rightarrow> pystr \<Rightarrow> pystr \<Rightarrow> json option \<Rightarrow> bool" where
  "same_intent row source target ty txt_body in_reply_to =
     (let ev = (case o_signed_json row of JObj kvs \<Rightarrow> obj_at kvs ''event'' | _ \<Rightarrow> []) in
      o_source_local row = source \<and> o_target row = target \<and> o_type row = ty \<and>
      str_at (obj_at ev ''payload'') ''text'' = txt_body \<and> get ev (lit ''in_reply_to'') = in_reply_to)"

definition queue_envelope ::
    "platform \<Rightarrow> runtime \<Rightarrow> handler_io \<Rightarrow> pystr \<Rightarrow> pystr \<Rightarrow> pystr \<Rightarrow> pystr \<Rightarrow> pystr \<Rightarrow> pystr option \<Rightarrow> pystr \<Rightarrow>
     node \<Rightarrow> response \<times> node" where
  "queue_envelope P rt io family source target ty txt_body in_reply_to event_id n =
     (case compose_event P rt source target ty txt_body event_id (hd_created io) in_reply_to of
        Inl _ \<Rightarrow> (Error_Reply 400, n)
      | Inr env \<Rightarrow>
          (case env of
             JObj kvs \<Rightarrow>
               (case canonical_bytes env of
                  None \<Rightarrow> (Error_Reply 400, n)
                | Some raw \<Rightarrow>
                    (case enqueue_outbound event_id (id_family (rt_identity rt)) (id_key_id (rt_identity rt)) source
                            (source @ 64 # id_family (rt_identity rt)) target family ty
                            (sort_keys (JObj (filter (\<lambda>(k, v). k \<noteq> lit ''sig'') kvs))) (str_at kvs ''sig'') raw
                            (cf_outbox_cap (rt_config rt)) (hd_env io) (nd_db n) of
                       (Inl e, s) \<Rightarrow>
                         (case e of OutboxFull \<Rightarrow> Error_Reply 429 | _ \<Rightarrow> exn_response e, n\<lparr>nd_db := s\<rparr>)
                     | (Inr enqueued, s) \<Rightarrow>
                         (case get_outbound event_id s of
                            None \<Rightarrow> (Error_Reply 500, n\<lparr>nd_db := s\<rparr>)
                          | Some row \<Rightarrow>
                              (if enqueued = Existing \<and>
                                  \<not> same_intent row source target ty txt_body (map_option JStr in_reply_to)
                               then Error_Reply 409
                               else Reply 201 (outbound_item event_id family row),
                               n\<lparr>nd_db := s\<rparr>))))
           | _ \<Rightarrow> (Error_Reply 500, n)))"

definition federation_send ::
    "platform \<Rightarrow> runtime \<Rightarrow> handler_io \<Rightarrow> event_request \<Rightarrow> pystr \<Rightarrow> pystr \<Rightarrow> pystr \<Rightarrow> pystr \<Rightarrow> node \<Rightarrow> response \<times> node" where
  "federation_send P rt io rq source target ty family n =
     (case receipts_peer (rt_registry rt) family of
        None \<Rightarrow> (Error_Reply 400, n)
      | Some _ \<Rightarrow>
          if ty \<notin> {lit ''message'', lit ''reply''} then (Error_Reply 400, n)
          else
            (let payload = (case er_payload rq of JObj kvs \<Rightarrow> kvs | _ \<Rightarrow> []) in
             case get payload (lit ''text'') of
               Some (JStr txt_body) \<Rightarrow>
                 if \<not> list_all (\<lambda>k. k \<in> {lit ''text'', lit ''in_reply_to'', lit ''auto''}) (map fst payload)
                 then (Error_Reply 400, n)
                 else
                   (let event_id = or_str (er_event_id rq) (rnd_uuid (hd_env io));
                        send = (\<lambda>reply. if \<not> UUID_RE event_id then (Error_Reply 400, n)
                                  else if 64 \<in> set source then (Error_Reply 400, n)
                                  else queue_envelope P rt io family source target ty txt_body reply event_id n)
                    in case get payload (lit ''in_reply_to'') of
                         None \<Rightarrow> send None
                       | Some (JStr r) \<Rightarrow>
                           if ty \<noteq> lit ''reply'' \<or> \<not> UUID_RE r then (Error_Reply 400, n) else send (Some r)
                       | Some _ \<Rightarrow> (Error_Reply 400, n))
             | _ \<Rightarrow> (Error_Reply 400, n)))"

record server =
  sv_node :: node
  sv_acl :: acl

definition store_local ::
    "int \<Rightarrow> handler_io \<Rightarrow> event_request \<Rightarrow> pystr \<Rightarrow> pystr \<Rightarrow> pystr \<Rightarrow> pystr option \<Rightarrow> node \<Rightarrow> response \<times> node" where
  "store_local max_inbox_depth io rq source target ty token n =
     (let is_retry = (truthy (er_event_id rq) \<and>
            (case get_event (or_str (er_event_id rq) []) (nd_db n) of Inl _ \<Rightarrow> False | Inr _ \<Rightarrow> True))
      in if target \<noteq> lit ''*'' \<and> \<not> is_retry \<and> max_inbox_depth \<le> backlog_depth target (nd_db n)
         then (Error_Reply 429, n)
         else
           (case insert_event source target ty (Some (er_payload rq)) (er_seq rq) (er_event_id rq)
                   (er_created_at rq) (er_requires_ack rq) (er_source_ref rq) token (hd_env io) (nd_db n) of
              (Inl e, s) \<Rightarrow> (exn_response e, n\<lparr>nd_db := s\<rparr>)
            | (Inr ev, s) \<Rightarrow>
                (let wake_item = JObj [(lit ''kind'', JStr (lit ''event'')), (lit ''event'', event_to_dict ev)]
                 in (Reply 201 (event_to_dict ev),
                     n\<lparr>nd_db := s, nd_hub := (if ev_target ev = lit ''*'' then notify_all wake_item (nd_hub n)
                                            else snd (notify (ev_target ev) wake_item (nd_hub n)))\<rparr>))))"

definition post_events ::
    "platform \<Rightarrow> (json \<Rightarrow> pystr) \<Rightarrow> runtime option \<Rightarrow> int \<Rightarrow> acl_file \<Rightarrow> handler_io \<Rightarrow> pystr \<Rightarrow> event_request \<Rightarrow>
     server \<Rightarrow> response \<times> server" where
  "post_events P str_of fed max_inbox_depth file io auth rq sv =
     (case (er_source rq, er_target rq) of
        (JStr source, JStr target) \<Rightarrow>
          if source = [] \<or> target = [] then (Error_Reply 400, sv)
          else
            (case (case er_type rq of None \<Rightarrow> JStr (lit ''message'') | Some t \<Rightarrow> t) of
               JStr ty \<Rightarrow>
                 if (case er_payload rq of JNull \<Rightarrow> False | JObj _ \<Rightarrow> False | _ \<Rightarrow> True) then (Error_Reply 400, sv)
                 else
                   (let token = token_of auth (er_token rq); s = nd_db (sv_node sv) in
                    if auth_required s \<and> token_scope source token (hd_auth_now io) s \<noteq> Some (lit ''full'')
                    then (Error_Reply 403, sv)
                    else
                      (case acl_check str_of file source target (sv_acl sv) of
                         Inl e \<Rightarrow> (exn_response e, sv)
                       | Inr (allowed, st) \<Rightarrow>
                         (let sv1 = sv\<lparr>sv_acl := st\<rparr>
                          in if \<not> allowed then (Error_Reply 403, sv1)
                          else
                            (let (r, n) =
                               (case (case fed of
                                        None \<Rightarrow> None
                                      | Some rt \<Rightarrow> if target = lit ''*'' then None
                                          else map_option (Pair rt) (foreign_family rt target)) of
                                  Some (rt, family) \<Rightarrow> federation_send P rt io rq source target ty family (sv_node sv1)
                                | None \<Rightarrow> store_local max_inbox_depth io rq source target ty token (sv_node sv1))
                             in (r, sv1\<lparr>sv_node := n\<rparr>)))))
             | _ \<Rightarrow> (Error_Reply 400, sv))
      | _ \<Rightarrow> (Error_Reply 400, sv))"

section \<open>Acknowledging\<close>

record ack_request =
  ak_event_id :: "pystr option"
  ak_agent_id :: "pystr option"
  ak_ack_type :: "pystr option"
  ak_detail :: "json option"
  ak_token :: "pystr option"

definition ack_inbound ::
    "runtime \<Rightarrow> handler_io \<Rightarrow> inbound_row \<Rightarrow> pystr \<Rightarrow> pystr \<Rightarrow> pystr option \<Rightarrow> json option \<Rightarrow> node \<Rightarrow> response \<times> node" where
  "ack_inbound rt io inb event_id agent_id ack_type detail n =
     (if agent_id \<noteq> fst (rsplit_at (i_target inb)) then (Error_Reply 403, n)
      else
        (case ack_type of
           None \<Rightarrow> (Error_Reply 400, n)
         | Some ty \<Rightarrow>
             if ty \<notin> {lit ''received'', lit ''applied''} then (Error_Reply 400, n)
             else
               (case decode_strict (JStr (i_sig inb)) 64 ''signature_length'' ''schema'' of
                  Inl _ \<Rightarrow> (Error_Reply 400, n)
                | Inr stored_sig \<Rightarrow>
                    (case ack_with_receipt_intent event_id agent_id ty detail (i_target inb) (i_origin inb)
                            (hexdigest (sha256 stored_sig)) (id_family (rt_identity rt)) (id_key_id (rt_identity rt))
                            (hd_env io) (nd_db n) of
                       (Inl e, s) \<Rightarrow> (exn_response e, n\<lparr>nd_db := s\<rparr>)
                     | (Inr _, s) \<Rightarrow>
                         (Reply 200 (JObj [(lit ''ok'', JBool True)]),
                          snd (hint_notifications (rt_config rt) (hd_world io) (n\<lparr>nd_db := s\<rparr>)))))))"

definition post_ack :: "runtime option \<Rightarrow> handler_io \<Rightarrow> pystr \<Rightarrow> ack_request \<Rightarrow> node \<Rightarrow> response \<times> node" where
  "post_ack fed io auth rq n =
     (let token = token_of auth (ak_token rq); s = nd_db n in
      if auth_required s \<and> ak_agent_id rq = None then (Error_Reply 400, n)
      else if auth_required s \<and>
        token_scope (or_str (ak_agent_id rq) []) token (hd_auth_now io) s \<noteq> Some (lit ''full'')
      then (Error_Reply 403, n)
      else
        (case (ak_event_id rq, ak_agent_id rq) of
           (Some event_id, Some agent_id) \<Rightarrow>
             (case Option.bind fed (\<lambda>rt. map_option (Pair rt) (get_inbound None event_id s)) of
                Some (rt, inb) \<Rightarrow> ack_inbound rt io inb event_id agent_id (ak_ack_type rq) (ak_detail rq) n
              | None \<Rightarrow>
                  (case ak_ack_type rq of
                     None \<Rightarrow> (Error_Reply 400, n)
                   | Some ty \<Rightarrow>
                       (case ack event_id agent_id ty (ak_detail rq) (hd_env io) s of
                          (Inl e, s') \<Rightarrow> (exn_response e, n\<lparr>nd_db := s'\<rparr>)
                        | (Inr _, s') \<Rightarrow> (Reply 200 (JObj [(lit ''ok'', JBool True)]), n\<lparr>nd_db := s'\<rparr>))))
         | _ \<Rightarrow> (Error_Reply 400, n)))"

section \<open>Reading\<close>

text \<open>
  The query parameters of \<open>GET /events\<close>; a number that does not parse, a cursor beyond 64 bits and
  an unknown state raise outside any handler, and the connection closes without a response.
\<close>

record events_query =
  eq_unknown :: bool
  eq_target :: "pystr option"
  eq_since_id :: "pystr option"
  eq_limit :: "pystr option"
  eq_state :: "pystr option"

definition query_int :: "pystr option \<Rightarrow> int \<Rightarrow> int option" where
  "query_int v d = (if truthy v then py_int (or_str v []) else Some d)"

definition get_events :: "pystr \<Rightarrow> pystr \<Rightarrow> events_query \<Rightarrow> 'z ledger_scheme \<Rightarrow> response" where
  "get_events auth ts q s =
     (if eq_unknown q then Error_Reply 400
      else if auth_required s \<and> \<not> truthy (eq_target q) then Error_Reply 403
      else if auth_required s \<and> \<not> authorized (or_str (eq_target q) []) None auth ts s then Error_Reply 403
      else
        (case (query_int (eq_since_id q) 0, query_int (eq_limit q) 100) of
           (Some since_id, Some limit) \<Rightarrow>
             if since_id < 0 then Error_Reply 400
             else if limit < 1 \<or> 1000 < limit then Error_Reply 400
             else
               (case list_events (eq_target q) since_id limit (or_str (eq_state q) (lit ''pending'')) s of
                  Inl _ \<Rightarrow> No_Response
                | Inr evs \<Rightarrow> Reply 200 (JArr (map event_to_dict evs)))
         | _ \<Rightarrow> No_Response))"

definition get_acks ::
    "(ack_row \<Rightarrow> json) \<Rightarrow> pystr \<Rightarrow> pystr \<Rightarrow> pystr option \<Rightarrow> pystr option \<Rightarrow> 'z ledger_scheme \<Rightarrow> response" where
  "get_acks view auth ts event_id agent s =
     (if \<not> truthy event_id then Error_Reply 400
      else
        (let eid = or_str event_id []; rows = Reply 200 (JArr (map view (acks_for eid s))) in
         if \<not> auth_required s then rows
         else if \<not> truthy agent \<or> \<not> authorized (or_str agent []) (Some {lit ''full''}) auth ts s then Error_Reply 403
         else
           (case get_event eid s of
              Inl _ \<Rightarrow> Error_Reply 404
            | Inr ev \<Rightarrow>
                if ev_target ev \<noteq> lit ''*'' \<and> or_str agent [] \<notin> {ev_source ev, ev_target ev}
                then Error_Reply 403 else rows)))"

definition notification_view :: "notification_row \<Rightarrow> json" where
  "notification_view r =
     JObj [(lit ''intent_id'', JStr (n_intent_id r)), (lit ''kind'', JStr (n_kind r)),
       (lit ''agent'', json_opt (n_agent r)), (lit ''event_id'', json_opt (n_event_id r)),
       (lit ''detail'', n_detail_json r), (lit ''created_at'', JStr (n_created_at r))]"

definition get_notifications ::
    "bool \<Rightarrow> pystr \<Rightarrow> pystr \<Rightarrow> pystr option \<Rightarrow> pystr option \<Rightarrow> 'z fed_scheme \<Rightarrow> response" where
  "get_notifications fed_on auth ts agent peer s =
     (if \<not> fed_on then Error_Reply 404
      else if truthy agent
      then if auth_required s \<and> \<not> authorized (or_str agent []) None auth ts s then Error_Reply 403
           else Reply 200 (JArr (map notification_view (notification_hints_for (or_str agent []) 100 s)))
      else if \<not> truthy peer then Error_Reply 400
      else if auth_required s \<and> \<not> authorized (or_str peer []) (Some {lit ''full''}) auth ts s then Error_Reply 403
      else Reply 200 (JArr (map notification_view (operator_notification_hints 100 s))))"

definition post_notifications_ack ::
    "bool \<Rightarrow> pystr \<Rightarrow> pystr \<Rightarrow> pystr option \<Rightarrow> json \<Rightarrow> json \<Rightarrow> json \<Rightarrow> fed \<Rightarrow> response \<times> fed" where
  "post_notifications_ack fed_on auth ts body_token intent_ids agent peer s =
     (if \<not> fed_on then (Error_Reply 404, s)
      else
        (case intent_ids of
           JArr ids \<Rightarrow>
             if ids = [] \<or> 100 < length ids \<or> \<not> list_all (\<lambda>x. case x of JStr _ \<Rightarrow> True | _ \<Rightarrow> False) ids then (Error_Reply 400, s)
             else
               (let keys = map (\<lambda>x. case x of JStr i \<Rightarrow> i | _ \<Rightarrow> []) ids;
                    token = token_of auth body_token;
                    finish = (\<lambda>who. let (acked, s') = ack_notification_hints keys who s
                                in (Reply 200 (JObj [(lit ''acked'', JInt acked)]), s'))
                in case agent of
                     JNull \<Rightarrow>
                       (case peer of
                          JStr p \<Rightarrow>
                            if p = [] then (Error_Reply 400, s)
                            else if auth_required s \<and> \<not> authorized p (Some {lit ''full''}) auth ts s
                            then (Error_Reply 403, s) else finish None
                        | _ \<Rightarrow> (Error_Reply 400, s))
                   | JStr a \<Rightarrow>
                       if a = [] then (Error_Reply 400, s)
                       else if auth_required s \<and> token_scope a token ts s = None then (Error_Reply 403, s)
                       else finish (Some a)
                   | _ \<Rightarrow> (Error_Reply 400, s))
         | _ \<Rightarrow> (Error_Reply 400, s)))"

end
