(* ===== verification/Server_Props.thy ===== *)
theory Server_Props
  imports Server
begin

text \<open>
  What the handlers guarantee: only authentic events and receipts of other families enter the
  database, an event that one node sends is stored by the other, and only authorised senders
  and recipients act.
\<close>

section \<open>What a parsed envelope contains\<close>

lemma map_of_filter_key:
  "map_of (filter (\<lambda>(k, v). k \<noteq> key) kvs) k' = (if k' = key then None else map_of kvs k')"
  by (induction kvs) auto

lemma at_simps:
  "map_of kvs (lit key) = Some (JStr s) \<Longrightarrow> str_at kvs key = s"
  "map_of kvs (lit key) = Some (JObj obj) \<Longrightarrow> obj_at kvs key = obj"
  by (simp_all add: str_at_def obj_at_def get_def)

lemma split_at:
  "c \<in> set xs \<Longrightarrow> drop 1 (dropWhile (\<lambda>x. x \<noteq> c) xs) = ys \<Longrightarrow> xs = takeWhile (\<lambda>x. x \<noteq> c) xs @ c # ys"
  by (induction xs) auto

lemma envelope_signed:
  assumes "check_envelope v kind tops body = Inr env"
  obtains kvs where "v = JObj kvs" "body kvs = Inr ()" "env_signed env = filter (\<lambda>(k, v). k \<noteq> lit ''sig'') kvs"
  using assms that
  by (auto simp: check_envelope_def and_then_Inr split: json.splits option.splits)

lemma parse_event_fields:
  assumes "parse_event raw = Inr env"
  defines "ev \<equiv> obj_at (env_signed env) ''event''"
  obtains agent where "str_at ev ''source'' = agent @ 64 # str_at (env_signed env) ''origin''"
    "address_ok (str_at ev ''target'')" "str_at ev ''type'' \<in> {lit ''message'', lit ''reply''}"
proof -
  obtain v where "validate_event_envelope v = Inr env"
    using assms(1) by (auto simp: parse_event_def and_then_Inr)
  then obtain kvs where kvs: "event_body kvs = Inr ()" "env_signed env = filter (\<lambda>(k, v). k \<noteq> lit ''sig'') kvs"
    unfolding validate_event_envelope_def by (rule envelope_signed)
  then obtain origin ev' where body: "map_of kvs (lit ''origin'') = Some (JStr origin)"
      "map_of kvs (lit ''event'') = Some (JObj ev')" "check_event ev' origin = Inr ()"
    by (auto simp: event_body_def and_then_Inr get_matching_Inr get_object_Inr)
  then have at: "str_at (env_signed env) ''origin'' = origin" "ev = ev'"
    unfolding ev_def kvs(2) by (simp_all add: at_simps map_of_filter_key)
  from body(3) show thesis
  proof (cases rule: check_event_Inr)
    case (1 event_id etype agent target created_at payload s)
    then show thesis using that [of agent] at by (simp add: at_simps EVENT_TYPES_def)
  qed
qed

section \<open>The federation inbox\<close>

lemma verify_True: "verify nacl pk msg sig = Inr b \<Longrightarrow> b"
  by (auto simp: verify_def split: if_splits sum.splits)

lemma conn_family_db [simp]:
  "nd_db (snd (conn_allowed io n)) = nd_db n" "nd_db (snd (family_allowed rt io f n)) = nd_db n"
  by (simp_all add: conn_allowed_def family_allowed_def split_beta Let_def)

lemma admit_envelope_cases:
  obtains (refused) r n1 where "admit_envelope parse io rq n = (Inl r, n1)" "nd_db n1 = nd_db n"
    | (admitted) raw env n1 where "admit_envelope parse io rq n = (Inr env, n1)" "nd_db n1 = nd_db n"
      "read_fed_body rq = Inr raw" "parse raw = Inr env"
proof -
  obtain ok n1 where n1: "conn_allowed io n = (ok, n1)" by force
  have db: "nd_db n1 = nd_db n" using conn_family_db(1) [of io n] n1 by simp
  consider r where "admit_envelope parse io rq n = (Inl r, n1)"
    | raw env where "admit_envelope parse io rq n = (Inr env, n1)" "read_fed_body rq = Inr raw" "parse raw = Inr env"
    using n1 by (cases ok; cases "read_fed_body rq"; cases "content_encoding_rejected (fq_encoding rq)";
        cases "parse (projr (read_fed_body rq))") (auto simp: admit_envelope_def)
  then show thesis using db refused admitted by cases blast+
qed

lemma verify_envelope_Inr:
  assumes "verify_envelope nacl rcd env = Inr u"
  obtains bs where "signed_bytes env = Some bs" "verify nacl (pr_public_key_bytes rcd) bs (env_sig env) = Inr True"
  using assms verify_True that
  by (fastforce simp: verify_envelope_def split: option.splits sum.splits)

lemma lookup_family: "lookup records family kid = Some rcd \<Longrightarrow> pr_family rcd = family"
  by (auto simp: lookup_def find_Some_iff split: option.splits if_splits)

text \<open>The inbox either leaves the database alone or stores an envelope that has passed every check.\<close>

lemma federation_inbox_cases:
  obtains (refused) "nd_db (snd (federation_inbox nacl rt io rq n)) = nd_db n"
    | (passed) raw env rcd bs n2 where "read_fed_body rq = Inr raw" "parse_event raw = Inr env"
      "lookup (rt_registry rt) (str_at (env_signed env) ''origin'') (str_at (env_signed env) ''key_id'') = Some rcd"
      "signed_bytes env = Some bs" "verify nacl (pr_public_key_bytes rcd) bs (env_sig env) = Inr True"
      "drop 1 (dropWhile (\<lambda>c. c \<noteq> 64) (str_at (obj_at (env_signed env) ''event'') ''target'')) = id_family (rt_identity rt)"
      "is_local_member (takeWhile (\<lambda>c. c \<noteq> 64) (str_at (obj_at (env_signed env) ''event'') ''target'')) (nd_db n)"
      "nd_db n2 = nd_db n" "federation_inbox nacl rt io rq n = store_received rt io env rcd n2"
proof (cases rule: admit_envelope_cases [of parse_event io rq n])
  case (refused r n1)
  then show thesis using that(1) by (simp add: federation_inbox_def)
next
  case (admitted raw env n1)
  let ?origin = "str_at (env_signed env) ''origin''"
  show thesis
  proof (cases "lookup (rt_registry rt) ?origin (str_at (env_signed env) ''key_id'')")
    case None
    then show thesis using that(1) admitted by (simp add: federation_inbox_def Let_def)
  next
    case rcd: (Some rcd)
    show thesis
    proof (cases "verify_envelope nacl rcd env")
      case (Inl r)
      then show thesis using that(1) admitted rcd by (simp add: federation_inbox_def Let_def)
    next
      case (Inr u)
      then obtain bs where bs: "signed_bytes env = Some bs" "verify nacl (pr_public_key_bytes rcd) bs (env_sig env) = Inr True"
        by (rule verify_envelope_Inr)
      obtain ok n2 where n2: "family_allowed rt io ?origin n1 = (ok, n2)" by force
      have db: "nd_db n2 = nd_db n" using conn_family_db(2) [of rt io ?origin n1] n2 admitted(2) by simp
      let ?target = "str_at (obj_at (env_signed env) ''event'') ''target''"
      show thesis
      proof (cases "ok \<and> drop 1 (dropWhile (\<lambda>c. c \<noteq> 64) ?target) = id_family (rt_identity rt) \<and>
          is_local_member (takeWhile (\<lambda>c. c \<noteq> 64) ?target) (nd_db n)")
        case True
        then have "federation_inbox nacl rt io rq n = store_received rt io env rcd n2"
          using admitted rcd Inr n2 db by (simp add: federation_inbox_def Let_def)
        then show thesis using that(2) admitted rcd bs True db by blast
      next
        case False
        then have "nd_db (snd (federation_inbox nacl rt io rq n)) = nd_db n"
          using admitted rcd Inr n2 db by (cases ok) (auto simp: federation_inbox_def Let_def)
        then show thesis by (rule that(1))
      qed
    qed
  qed
qed

lemma deliver_pending_events [simp]:
  "events (nd_db (snd (deliver_pending cfg W n))) = events (nd_db n)"
  unfolding deliver_pending_def
  by (rule each_row_frame) (simp add: guarded_delivery_db mark_delivered_def)

lemma receive_event_log:
  fixes s :: "'z fed_scheme"
  assumes call_def: "call = receive_event origin event_id jcs signed_json sig rf rk rp source_addr target_addr target_local ty
    payload created_at E s"
  shows "events (snd call) = events s \<and> (\<forall>row. fst call \<noteq> Inr (Receive_Stored row)) \<or>
    (\<exists>row ev. fst call = Inr (Receive_Stored row) \<and> events (snd call) = events s @ [ev] \<and> e_event_id ev = event_id \<and>
       e_source ev = source_addr \<and> e_target ev = target_local \<and> e_type ev = ty)"
proof -
  have conflict: "fst (receive_conflict origin event_id jcs signed_json sig E s) \<noteq> Inr (Receive_Stored row)" for row
    by (auto simp: receive_conflict_def Let_def split: option.split)
  obtain seq s1 where seq: "next_seq source_addr (s\<lparr>federation_inbound := federation_inbound s @
      [\<lparr>i_id = next_id i_id (federation_inbound s), i_origin = origin, i_event_id = event_id,
                 i_target = target_addr, i_event_jcs = jcs, i_signed_json = signed_json,
                 i_sig = sig, i_reg_family = rf, i_reg_key_id = rk,
                 i_reg_public_key = rp, i_local_event_id = event_id,
                 i_delivery_state = Delivery_Pending, i_created_at = now E 0\<rparr>]\<rparr>) = (seq, s1)"
    by force
  then have "events s1 = events s" by (auto simp: next_seq_def Let_def)
  then show ?thesis
    using conflict unfolding call_def receive_event_def Let_def seq prod.case
    by (simp split: option.split)
qed

text \<open>
  C3: Nothing enters the event log through the federation inbox but authentic events for local
  members.  Whatever bytes arrive, the handler leaves the log as it is, or it appends exactly one
  event, answers \<open>stored\<close>, and then: the body parsed as an event envelope; the family and
  key id it names are registered; the signature over the signed object passed the strict
  verification with that registered key; the source address of the stored event belongs
  to the family of that key; its type is a message or a reply; its target is an agent of this
  family and a member that is not revoked.
\<close>

theorem inbox_admits_only_authentic:
  fixes nacl :: "bytes \<Rightarrow> bytes \<Rightarrow> bytes \<Rightarrow> bool" and rt :: runtime and io :: handler_io and rq :: fed_request and n :: node
  defines "answer \<equiv> fst (federation_inbox nacl rt io rq n)" and "s \<equiv> nd_db n"
    and "s' \<equiv> nd_db (snd (federation_inbox nacl rt io rq n))"
  shows "events s' = events s \<or>
    (\<exists>raw env rcd bs row agent. read_fed_body rq = Inr raw \<and> parse_event raw = Inr env \<and>
       lookup (rt_registry rt) (str_at (env_signed env) ''origin'') (str_at (env_signed env) ''key_id'') = Some rcd \<and>
       signed_bytes env = Some bs \<and> verify nacl (pr_public_key_bytes rcd) bs (env_sig env) = Inr True \<and>
       answer = Reply 200 (JObj [(lit ''status'', JStr (lit ''stored''))]) \<and> events s' = events s @ [row] \<and>
       e_source row = agent @ 64 # pr_family rcd \<and> e_type row \<in> {lit ''message'', lit ''reply''} \<and>
       str_at (obj_at (env_signed env) ''event'') ''target'' = e_target row @ 64 # id_family (rt_identity rt) \<and>
       is_local_member (e_target row) s)"
proof (cases rule: federation_inbox_cases [of nacl rt io rq n])
  case refused
  then show ?thesis by (simp add: s_def s'_def)
next
  case (passed raw env rcd bs n2)
  let ?ev = "obj_at (env_signed env) ''event''"
  let ?agent = "takeWhile (\<lambda>c. c \<noteq> 64) (str_at ?ev ''target'')"
  from passed(2) obtain agent where ev: "str_at ?ev ''source'' = agent @ 64 # str_at (env_signed env) ''origin''"
      "address_ok (str_at ?ev ''target'')" "str_at ?ev ''type'' \<in> {lit ''message'', lit ''reply''}"
    by (rule parse_event_fields)
  have "64 \<in> set (str_at ?ev ''target'')" using ev(2) by (auto simp: address_ok_def)
  then have target: "str_at ?ev ''target'' = ?agent @ 64 # id_family (rt_identity rt)"
    using passed(6) by (rule split_at)
  define call where "call = receive_event (str_at (env_signed env) ''origin'') (str_at ?ev ''event_id'')
      (the (canonical_bytes (JObj ?ev))) (sort_keys (JObj (env_signed env))) (env_sig_str env)
      (pr_family rcd) (pr_key_id rcd) (pr_public_key rcd) (str_at ?ev ''source'')
      (str_at ?ev ''target'') ?agent (str_at ?ev ''type'')
      [(lit ''text'', JStr (str_at (obj_at ?ev ''payload'') ''text''))] (str_at ?ev ''created_at'')
      (hd_env io) (nd_db n2)"
  have out: "federation_inbox nacl rt io rq n = after_receive rt io (fst call) (n2\<lparr>nd_db := snd call\<rparr>)"
    using passed(9) by (simp add: store_received_def Let_def call_def split_beta)
  have log: "events (nd_db (snd (after_receive rt io res m))) = events (nd_db m)" for res m
    by (simp add: after_receive_def Let_def split: sum.split receive_result.split)
  have after: "fst (after_receive rt io (Inr (Receive_Stored row)) m) = Reply 200 (JObj [(lit ''status'', JStr (lit ''stored''))])" for row m
    by (simp add: after_receive_def Let_def)
  from receive_event_log [OF call_def]
  consider "events (snd call) = events (nd_db n2)"
    | row ev where "fst call = Inr (Receive_Stored row)" "events (snd call) = events (nd_db n2) @ [ev]"
        "e_source ev = str_at ?ev ''source''" "e_target ev = ?agent" "e_type ev = str_at ?ev ''type''"
    by blast
  then show ?thesis
  proof cases
    case 1
    then show ?thesis using passed(8) by (simp add: s_def s'_def out log)
  next
    case (2 row e)
    have "events s' = events s @ [e]" using 2(2) passed(8) by (simp add: s_def s'_def out log)
    moreover have "answer = Reply 200 (JObj [(lit ''status'', JStr (lit ''stored''))])"
      using 2(1) after by (simp add: answer_def out)
    ultimately show ?thesis
      using passed(1-5,7) ev(1,3) 2(3-5) target lookup_family [OF passed(3)]
      by (intro disjI2 exI [of _ raw] exI [of _ env] exI [of _ rcd] exI [of _ bs] exI [of _ e] exI [of _ agent])
        (intro conjI; simp add: s_def)
  qed
qed

section \<open>Receipts\<close>

text \<open>The two tables of received receipts.\<close>

definition receipts_held :: "'z fed_scheme \<Rightarrow> original_row list \<times> receipt_in_row list" where
  "receipts_held s = (federation_receipt_in_originals s, federation_receipt_in s)"

lemma hint_notifications_receipts [simp]:
  "receipts_held (nd_db (snd (hint_notifications cfg W n))) = receipts_held (nd_db n)"
proof -
  have "receipts_held (nd_db (snd (hint_one io row m))) = receipts_held (nd_db m)" for io row m
    using nd_db_simps(3) [of "n_agent row" "hint_payload row" m]
    by (cases "wake_agent (n_agent row) (hint_payload row) m")
      (simp add: hint_one_def store_call_def mark_notification_hint_sent_def receipts_held_def split: bool.split option.split)
  then show ?thesis unfolding hint_notifications_def by (rule hint_loop_frame)
qed

lemma federation_receipts_cases:
  obtains (refused) "nd_db (snd (federation_receipts nacl rt io rq n)) = nd_db n"
    | (passed) raw env rcd bs out stored_sig n2 where "read_fed_body rq = Inr raw" "parse_receipt raw = Inr env"
      "get_outbound (str_at (obj_at (env_signed env) ''receipt'') ''event_id'') (nd_db n) = Some out"
      "str_at (obj_at (env_signed env) ''receipt'') ''origin'' = id_family (rt_identity rt)"
      "str_at (env_signed env) ''issuer'' = snd (rsplit_at (o_target out))"
      "lookup (rt_registry rt) (str_at (env_signed env) ''issuer'') (str_at (env_signed env) ''key_id'') = Some rcd"
      "signed_bytes env = Some bs" "verify nacl (pr_public_key_bytes rcd) bs (env_sig env) = Inr True"
      "decode_strict (JStr (o_sig out)) 64 ''signature_length'' ''schema'' = Inr stored_sig"
      "str_at (obj_at (env_signed env) ''receipt'') ''origin_event_sig_hash'' = hexdigest (sha256 stored_sig)"
      "str_at (obj_at (env_signed env) ''receipt'') ''agent'' = o_target out"
      "nd_db n2 = nd_db n" "federation_receipts nacl rt io rq n = store_receipt rt io env out n2"
proof (cases rule: admit_envelope_cases [of parse_receipt io rq n])
  case (refused r n1)
  then show thesis using that(1) by (simp add: federation_receipts_def)
next
  case (admitted raw env n1)
  let ?rc = "obj_at (env_signed env) ''receipt''" and ?issuer = "str_at (env_signed env) ''issuer''"
  note step = federation_receipts_def admitted(1) prod.case sum.case Let_def admitted(2)
  show thesis
  proof (cases "get_outbound (str_at ?rc ''event_id'') (nd_db n)")
    case None
    then show thesis using that(1) by (simp add: step)
  next
    case out: (Some out)
    show thesis
    proof (cases "str_at ?rc ''origin'' = id_family (rt_identity rt) \<and> ?issuer = snd (rsplit_at (o_target out))")
      case False
      then show thesis using that(1) out by (auto simp: step)
    next
      case bound: True
      show thesis
      proof (cases "lookup (rt_registry rt) ?issuer (str_at (env_signed env) ''key_id'')")
        case None
        then show thesis using that(1) out bound by (simp add: step)
      next
        case rcd: (Some rcd)
        show thesis
        proof (cases "verify_envelope nacl rcd env")
          case (Inl r)
          then show thesis using that(1) out bound rcd by (simp add: step)
        next
          case (Inr u)
          then obtain bs where bs: "signed_bytes env = Some bs"
              "verify nacl (pr_public_key_bytes rcd) bs (env_sig env) = Inr True"
            by (rule verify_envelope_Inr)
          obtain ok n2 where n2: "family_allowed rt io ?issuer n1 = (ok, n2)" by force
          have db: "nd_db n2 = nd_db n" using conn_family_db(2) [of rt io ?issuer n1] n2 admitted(2) by simp
          show thesis
          proof (cases "decode_strict (JStr (o_sig out)) 64 ''signature_length'' ''schema''")
            case (Inl e)
            then have "nd_db (snd (federation_receipts nacl rt io rq n)) = nd_db n"
              using out bound rcd Inr n2 db by (cases ok) (simp_all add: step)
            then show thesis by (rule that(1))
          next
            case sig: (Inr stored_sig)
            show thesis
            proof (cases "ok \<and> str_at ?rc ''origin_event_sig_hash'' = hexdigest (sha256 stored_sig) \<and>
                str_at ?rc ''agent'' = o_target out")
              case True
              then have "federation_receipts nacl rt io rq n = store_receipt rt io env out n2"
                using out bound rcd Inr n2 sig by (simp add: step)
              then show thesis using that(2) admitted out bound rcd bs sig True db by blast
            next
              case False
              then have "nd_db (snd (federation_receipts nacl rt io rq n)) = nd_db n"
                using out bound rcd Inr n2 sig db by (cases ok) (auto simp: step)
              then show thesis by (rule that(1))
            qed
          qed
        qed
      qed
    qed
  qed
qed

text \<open>
  C6: A receipt counts only for an event this node sent and only from the family it was sent to.
  Whatever bytes arrive, the handler leaves the tables of received receipts as they are, or the
  receipt names an event of the outbox and this family as its origin; its issuer is the
  family of the target that event was sent to, and is registered; the signature passed the
  strict verification with that family's registered key; the hash it carries is the SHA-256 of
  the signature bytes of the stored original; and it names the full target of the original.
\<close>

theorem receipt_bound_to_sent_event:
  fixes nacl :: "bytes \<Rightarrow> bytes \<Rightarrow> bytes \<Rightarrow> bool" and rt :: runtime and io :: handler_io and rq :: fed_request and n :: node
  defines "s \<equiv> nd_db n" and "s' \<equiv> nd_db (snd (federation_receipts nacl rt io rq n))"
  shows "receipts_held s' = receipts_held s \<or>
    (\<exists>raw env rcd bs out stored_sig. read_fed_body rq = Inr raw \<and> parse_receipt raw = Inr env \<and>
       out \<in> set (federation_outbound s) \<and>
       o_event_id out = str_at (obj_at (env_signed env) ''receipt'') ''event_id'' \<and>
       str_at (obj_at (env_signed env) ''receipt'') ''origin'' = id_family (rt_identity rt) \<and>
       pr_family rcd = snd (rsplit_at (o_target out)) \<and> rcd \<in> set (rt_registry rt) \<and>
       signed_bytes env = Some bs \<and> verify nacl (pr_public_key_bytes rcd) bs (env_sig env) = Inr True \<and>
       o_sig out = encode stored_sig \<and> length stored_sig = 64 \<and>
       str_at (obj_at (env_signed env) ''receipt'') ''origin_event_sig_hash'' = hexdigest (sha256 stored_sig) \<and>
       str_at (obj_at (env_signed env) ''receipt'') ''agent'' = o_target out)"
proof (cases rule: federation_receipts_cases [of nacl rt io rq n])
  case refused
  then show ?thesis by (simp add: s_def s'_def)
next
  case (passed raw env rcd bs out stored_sig n2)
  have "out \<in> set (federation_outbound s)" "o_event_id out = str_at (obj_at (env_signed env) ''receipt'') ''event_id''"
    using find_SomeD [OF passed(3) [unfolded get_outbound_def]] by (simp_all add: s_def)
  moreover have "rcd \<in> set (rt_registry rt)"
    using passed(6) by (auto simp: lookup_def find_Some_iff split: option.splits if_splits)
  moreover have "o_sig out = encode stored_sig" "length stored_sig = 64"
    using decode_strict_InrD [OF passed(9)] by simp_all
  ultimately show ?thesis
    using passed lookup_family [OF passed(6)]
    by (intro disjI2 exI [of _ raw] exI [of _ env] exI [of _ rcd] exI [of _ bs] exI [of _ out] exI [of _ stored_sig])
      (intro conjI; simp)
qed

end
