(* ===== verification/Exchange.thy ===== *)
theory Exchange
  imports Server_Props
begin

text \<open>
  Two nodes together: the event that one family composes and signs, posted to the inbox of
  the other, is stored there as it was sent.
\<close>

section \<open>The request of the sender\<close>

text \<open>The request that \<open>urllib\<close> makes of a body: its length in decimal, no content encoding.\<close>

definition posted :: "bytes \<Rightarrow> fed_request" where
  "posted raw = \<lparr>fq_length = Some (dec_int (int (length raw))), fq_encoding = None, fq_stream = Some raw\<rparr>"

lemma read_posted: "length raw \<le> REQUEST_BODY_LIMIT \<Longrightarrow> read_fed_body (posted raw) = Inr raw"
proof -
  assume fits: "length raw \<le> REQUEST_BODY_LIMIT"
  then have "length (dec_nat (length raw)) \<le> Suc 4"
    by (intro length_dec_nat) (simp add: REQUEST_BODY_LIMIT_def)
  then show ?thesis using fits by (simp add: read_fed_body_def posted_def py_int_dec)
qed

lemma admit_posted:
  assumes "conn_allowed io n = (True, n1)" "length raw \<le> REQUEST_BODY_LIMIT" "parse raw = Inr E"
  shows "admit_envelope parse io (posted raw) n = (Inr E, n1)"
proof -
  have "\<not> content_encoding_rejected (fq_encoding (posted raw))"
    by (simp add: posted_def content_encoding_rejected_def)
  then show ?thesis by (simp add: admit_envelope_def assms(1,3) read_posted [OF assms(2)])
qed

section \<open>What arrives\<close>

lemma distinct_event_keys:
  "distinct (map fst (signed_event p))" "distinct (map fst (event_items p))"
  by (simp_all add: signed_event_def event_items_def split: option.split)

lemma distinct_sorted_dict: "distinct (map fst kvs) \<Longrightarrow> distinct (map fst (sorted_dict kvs))"
  by (simp add: sorted_dict_def distinct_map inj_on_def image_iff) (metis (no_types, lifting) apsnd_conv fst_apsnd prod.collapse)

lemma at_sorted_dict:
  assumes "distinct (map fst kvs)"
  shows "map_of kvs (lit key) = Some (JStr s) \<Longrightarrow> str_at (sorted_dict kvs) key = s"
    "map_of kvs (lit key) = Some (JObj obj) \<Longrightarrow> obj_at (sorted_dict kvs) key = sorted_dict obj"
  using map_of_sorted_dict [OF assms, of "lit key"]
  by (simp add: at_simps) (simp add: at_simps sort_keys_JObj map_of_sorted_dict [OF assms] del: sort_keys.simps)

lemma arrived_fields:
  defines "ev p \<equiv> obj_at (sorted_dict (signed_event p)) ''event''"
  shows "str_at (sorted_dict (signed_event p)) ''origin'' = ep_origin p"
    "str_at (sorted_dict (signed_event p)) ''key_id'' = ep_key_id p"
    "str_at (ev p) ''event_id'' = ep_event_id p" "str_at (ev p) ''type'' = ep_type p"
    "str_at (ev p) ''source'' = ep_source_local p @ 64 # ep_origin p" "str_at (ev p) ''target'' = ep_target p"
    "str_at (ev p) ''created_at'' = ep_created_at p" "str_at (obj_at (ev p) ''payload'') ''text'' = ep_text p"
proof -
  note d = distinct_event_keys [of p]
  show "str_at (sorted_dict (signed_event p)) ''origin'' = ep_origin p"
      "str_at (sorted_dict (signed_event p)) ''key_id'' = ep_key_id p"
    by (rule at_sorted_dict [OF d(1)]; simp add: signed_event_def)+
  have ev: "ev p = sorted_dict (event_items p)"
    unfolding ev_def by (rule at_sorted_dict [OF d(1)]) (simp add: signed_event_def)
  show "str_at (ev p) ''event_id'' = ep_event_id p" "str_at (ev p) ''type'' = ep_type p"
      "str_at (ev p) ''source'' = ep_source_local p @ 64 # ep_origin p" "str_at (ev p) ''target'' = ep_target p"
      "str_at (ev p) ''created_at'' = ep_created_at p"
    unfolding ev by (rule at_sorted_dict [OF d(2)]; simp add: event_items_def)+
  have "obj_at (ev p) ''payload'' = sorted_dict [(lit ''text'', JStr (ep_text p))]"
    unfolding ev by (rule at_sorted_dict [OF d(2)]) (simp add: event_items_def)
  then show "str_at (obj_at (ev p) ''payload'') ''text'' = ep_text p"
    using at_sorted_dict(1) [of "[(lit ''text'', JStr (ep_text p))]"] by simp
qed

lemma arrived_reply_link:
  "reply_link (sort_keys (JObj (sorted_dict (signed_event p)))) =
   (case ep_in_reply_to p of None \<Rightarrow> JNull | Some r \<Rightarrow> JStr r)"
proof -
  note d = distinct_event_keys [of p]
  have "map_of (sorted_dict (sorted_dict (signed_event p))) (lit ''event'') =
      Some (JObj (sorted_dict (sorted_dict (event_items p))))"
    unfolding map_of_sorted_dict [OF distinct_sorted_dict [OF d(1)]] map_of_sorted_dict [OF d(1)]
    by (simp add: signed_event_def sort_keys_JObj del: sort_keys.simps)
  moreover have "map_of (sorted_dict (sorted_dict (event_items p))) (lit ''in_reply_to'') =
      map_option JStr (ep_in_reply_to p)"
    unfolding map_of_sorted_dict [OF distinct_sorted_dict [OF d(2)]] map_of_sorted_dict [OF d(2)]
    by (simp add: event_items_def split: option.split)
  ultimately show ?thesis by (simp add: reply_link_def sort_keys_JObj obj_get_def del: sort_keys.simps split: option.split)
qed

text \<open>The payload stored at the other end: the text, and the reply link if there is one.\<close>

definition stored_payload :: "event_parts \<Rightarrow> json" where
  "stored_payload p = sort_keys (JObj ((lit ''text'', JStr (ep_text p)) #
     (case ep_in_reply_to p of None \<Rightarrow> [] | Some r \<Rightarrow> [(lit ''in_reply_to'', JStr r)])))"

lemma arrived_payload:
  assumes "event_parts_ok p"
  shows "sort_keys (JObj (payload_local [(lit ''text'', JStr (ep_text p))]
    (sort_keys (JObj (sorted_dict (signed_event p)))))) = stored_payload p"
proof -
  have "r \<noteq> []" if "ep_in_reply_to p = Some r" for r
    using assms that by (auto simp: event_parts_ok_def UUID_RE_def)
  then show ?thesis
    by (simp add: payload_local_def arrived_reply_link stored_payload_def dict_set_def split: option.split del: sort_keys.simps)
qed

section \<open>Across two families\<close>

lemma address_split:
  assumes "64 \<notin> set agent"
  shows "takeWhile (\<lambda>c. c \<noteq> 64) (agent @ 64 # family) = agent"
    "drop 1 (dropWhile (\<lambda>c. c \<noteq> 64) (agent @ 64 # family)) = family"
  using assms by (induction agent) simp_all

lemma receive_event_fresh:
  fixes s :: "'z fed_scheme"
  assumes ok: "fed_ok s" and call: "call = receive_event origin event_id jcs signed_json sig rf rk rp source_addr
      target_addr target_local ty payload created_at E s"
    and fresh: "\<forall>r \<in> set (events s). e_event_id r \<noteq> event_id"
    and room: "fits64 (seq_choice source_addr None s)" "fits64 (next_id e_id (events s))"
  obtains row ev where "fst call = Inr (Receive_Stored row)" "events (snd call) = events s @ [ev]"
    "i_delivery_state row = Delivery_Pending"
    "e_event_id ev = event_id" "e_source ev = source_addr" "e_target ev = target_local" "e_type ev = ty"
    "e_created_at ev = created_at" "e_payload_json ev = sort_keys (JObj (payload_local payload signed_json))"
    "e_requires_ack ev = 1"
  using ok
proof (cases rule: receive_event_cases [where origin = origin and event_id = event_id and jcs = jcs
      and signed_json = signed_json and sig = sig and rf = rf and rk = rk and rp = rp
      and source_addr = source_addr and target_addr = target_addr and target_local = target_local
      and ty = ty and payload = payload and created_at = created_at and E = E])
  case (full e)
  have conf: "fst (receive_conflict origin event_id jcs signed_json sig E s) \<noteq> Inl e"
    by (auto simp: receive_conflict_def Let_def split: option.split)
  have "fst call \<noteq> Inl e"
    unfolding call receive_event_def
    using room conf by (auto simp: next_seq_def Let_def split: option.split)
  then show thesis using full(1) call by simp
next
  case refused
  have "\<not> (\<exists>r \<in> set (federation_inbound s). i_event_id r = event_id)"
    using fresh fed_ok_parts(3) [OF ok] by (fastforce simp: inbound_ok_def)
  then show thesis using refused(1) fresh by blast
next
  case (stored row ev)
  then show thesis using that [of row ev] call by simp
qed

lemma composed:
  assumes sender: "ep_origin p = id_family (rt_identity snd_rt)" "ep_key_id p = id_key_id (rt_identity snd_rt)"
    and parts: "event_parts_ok p"
    and sig: "is_bytes (ed_sign P (id_seed (rt_identity snd_rt)) (utf8 (dumps (JObj (signed_event p)))))"
      "length (ed_sign P (id_seed (rt_identity snd_rt)) (utf8 (dumps (JObj (signed_event p))))) = 64"
  shows "compose_event P snd_rt (ep_source_local p) (ep_target p) (ep_type p) (ep_text p) (ep_event_id p)
      (ep_created_at p) (ep_in_reply_to p) =
    Inr (with_sig (signed_event p) (ed_sign P (id_seed (rt_identity snd_rt)) (utf8 (dumps (JObj (signed_event p))))))"
proof -
  have "clean (JObj (signed_event p))"
    using clean_with_sig [OF parts sig(1)] by (simp add: with_sig_def clean_items_all)
  note bytes = canonical_bytes_clean [OF this]
  have whole: "\<lparr>ep_origin = id_family (rt_identity snd_rt), ep_key_id = id_key_id (rt_identity snd_rt),
      ep_event_id = ep_event_id p, ep_type = ep_type p, ep_source_local = ep_source_local p, ep_target = ep_target p,
      ep_created_at = ep_created_at p, ep_text = ep_text p, ep_in_reply_to = ep_in_reply_to p\<rparr> = p"
    using sender by (cases p) simp
  show ?thesis
    unfolding compose_event_def whole sign_and_seal_def bytes option.case Let_def
    using validate_with_sig [OF parts sig] by simp
qed

text \<open>
  C5: An event crosses from one family to another as it was composed.  Let the parts of an event be
  well formed, and let PyNaCl return 64 bytes for the signature.  Then \<open>compose_event\<close> succeeds, and
  if the canonical bytes fit the request limit and the receiver knows the sender's key, is the
  family of the target, has the target agent as a member, is within its rate limits and has
  not seen the event id, its inbox decides exactly by the strict verification of that key over the
  bytes that were signed: on failure it answers 403 with the category and changes nothing in the
  database, on success it answers \<open>stored\<close> and the log has one event more, with the id, source
  address, target, type, time, text and reply link of the sender, waiting for acknowledgement.
\<close>

theorem event_crosses_families:
  fixes P :: platform and snd_rt rt :: runtime and p :: event_parts
  defines "sig \<equiv> ed_sign P (id_seed (rt_identity snd_rt)) (utf8 (dumps (JObj (signed_event p))))"
  defines "env \<equiv> with_sig (signed_event p) sig"
  assumes sender: "ep_origin p = id_family (rt_identity snd_rt)" "ep_key_id p = id_key_id (rt_identity snd_rt)"
    and parts: "event_parts_ok p" and sig: "is_bytes sig" "length sig = 64"
    and fits: "length (utf8 (dumps env)) \<le> REQUEST_BODY_LIMIT"
    and peer: "lookup (rt_registry rt) (ep_origin p) (ep_key_id p) = Some rcd"
    and target: "ep_target p = agent @ 64 # id_family (rt_identity rt)" "64 \<notin> set agent" "is_local_member agent (nd_db n)"
    and limits: "fst (conn_allowed io n)" "fst (family_allowed rt io (ep_origin p) (snd (conn_allowed io n)))"
    and ok: "fed_ok (nd_db n)"
    and fresh: "\<forall>r \<in> set (events (nd_db n)). e_event_id r \<noteq> ep_event_id p"
    and room: "fits64 (seq_choice (ep_source_local p @ 64 # ep_origin p) None (nd_db n))"
      "fits64 (next_id e_id (events (nd_db n)))"
  shows "compose_event P snd_rt (ep_source_local p) (ep_target p) (ep_type p) (ep_text p) (ep_event_id p)
      (ep_created_at p) (ep_in_reply_to p) = Inr env \<and> canonical_bytes env = Some (utf8 (dumps env)) \<and>
    (let (answer, n') = federation_inbox nacl rt io (posted (utf8 (dumps env))) n in
     case verify nacl (pr_public_key_bytes rcd) (utf8 (dumps (JObj (signed_event p)))) sig of
       Inl e \<Rightarrow> answer = rejected 403 (fe_category e) \<and> nd_db n' = nd_db n
     | Inr _ \<Rightarrow> answer = Reply 200 (JObj [(lit ''status'', JStr (lit ''stored''))]) \<and>
         (\<exists>ev. events (nd_db n') = events (nd_db n) @ [ev] \<and> e_event_id ev = ep_event_id p \<and>
            e_source ev = ep_source_local p @ 64 # ep_origin p \<and> e_target ev = agent \<and> e_type ev = ep_type p \<and>
            e_created_at ev = ep_created_at p \<and> e_payload_json ev = stored_payload p \<and> e_requires_ack ev = 1))"
proof -
  have cl: "clean env" unfolding env_def using parts sig(1) by (rule clean_with_sig)
  have cls: "clean (JObj (signed_event p))" using cl by (simp add: env_def with_sig_def clean_items_all)
  note bytes = canonical_bytes_clean [OF cl] canonical_bytes_clean [OF cls]
  have compose: "compose_event P snd_rt (ep_source_local p) (ep_target p) (ep_type p) (ep_text p) (ep_event_id p)
      (ep_created_at p) (ep_in_reply_to p) = Inr env"
    unfolding env_def sig_def by (rule composed [OF sender parts sig [unfolded sig_def]])
  let ?raw = "utf8 (dumps env)"
  define E where "E = \<lparr>env_kind = EVENT_KIND, env_signed = sorted_dict (signed_event p), env_sig_str = encode sig, env_sig = sig\<rparr>"
  have parse: "parse_event ?raw = Inr E"
    unfolding E_def using parse_event_built [OF parts sig] bytes(1) fits by (simp add: env_def)
  have sb: "signed_bytes E = Some (utf8 (dumps (JObj (signed_event p))))"
    using signed_bytes_built [OF parts] bytes(2) by (simp add: signed_bytes_def E_def)
  define n1 where "n1 = snd (conn_allowed io n)"
  have n1: "conn_allowed io n = (True, n1)" "nd_db n1 = nd_db n"
    using limits(1) by (simp_all add: n1_def prod_eq_iff)
  have admit: "admit_envelope parse_event io (posted ?raw) n = (Inr E, n1)"
    by (rule admit_posted [where parse = parse_event, OF n1(1) fits parse])
  define n2 where "n2 = snd (family_allowed rt io (ep_origin p) n1)"
  have n2: "family_allowed rt io (ep_origin p) n1 = (True, n2)" "nd_db n2 = nd_db n"
    using limits(2) n1(2) unfolding n1_def [symmetric] by (simp_all add: n2_def prod_eq_iff)
  note arr = arrived_fields [of p]
  have split: "takeWhile (\<lambda>c. c \<noteq> 64) (ep_target p) = agent"
      "drop 1 (dropWhile (\<lambda>c. c \<noteq> 64) (ep_target p)) = id_family (rt_identity rt)"
    using address_split [OF target(2)] unfolding target(1) by blast+
  have inbox: "federation_inbox nacl rt io (posted ?raw) n =
      (case verify nacl (pr_public_key_bytes rcd) (utf8 (dumps (JObj (signed_event p)))) sig of
         Inl e \<Rightarrow> (rejected 403 (fe_category e), n1)
       | Inr _ \<Rightarrow> store_received rt io E rcd n2)"
    using peer n2 target(3) split sb
    by (simp add: federation_inbox_def admit Let_def E_def arr verify_envelope_def split: sum.split)
  show ?thesis
  proof (cases "verify nacl (pr_public_key_bytes rcd) (utf8 (dumps (JObj (signed_event p)))) sig")
    case (Inl e)
    then show ?thesis using compose bytes(1) inbox n1(2) by simp
  next
    case (Inr b)
    define call where "call = receive_event (ep_origin p) (ep_event_id p)
      (the (canonical_bytes (JObj (obj_at (sorted_dict (signed_event p)) ''event''))))
      (sort_keys (JObj (sorted_dict (signed_event p)))) (encode sig)
      (pr_family rcd) (pr_key_id rcd) (pr_public_key rcd) (ep_source_local p @ 64 # ep_origin p)
      (ep_target p) agent (ep_type p) [(lit ''text'', JStr (ep_text p))] (ep_created_at p) (hd_env io) (nd_db n)"
    have out: "store_received rt io E rcd n2 = after_receive rt io (fst call) (n2\<lparr>nd_db := snd call\<rparr>)"
      unfolding store_received_def E_def envelope.simps arr split call_def n2(2) Let_def
      by (simp add: split_beta)
    from receive_event_fresh [OF ok call_def fresh room] obtain row ev where
        ev: "fst call = Inr (Receive_Stored row)" "events (snd call) = events (nd_db n) @ [ev]"
          "e_event_id ev = ep_event_id p" "e_source ev = ep_source_local p @ 64 # ep_origin p" "e_target ev = agent"
          "e_type ev = ep_type p" "e_created_at ev = ep_created_at p" "e_requires_ack ev = 1"
          "e_payload_json ev = sort_keys (JObj (payload_local [(lit ''text'', JStr (ep_text p))]
            (sort_keys (JObj (sorted_dict (signed_event p))))))"
      by blast
    have "fst (store_received rt io E rcd n2) = Reply 200 (JObj [(lit ''status'', JStr (lit ''stored''))])"
        "events (nd_db (snd (store_received rt io E rcd n2))) = events (nd_db n) @ [ev]"
      using ev(1,2) by (simp_all add: out after_receive_def Let_def)
    then show ?thesis
      using compose bytes(1) inbox Inr ev arrived_payload [OF parts] by (simp add: split_beta Let_def)
  qed
qed

text \<open>The witness: agent \<open>a\<close> of family \<open>f\<close> replies to \<open>b\<close>, a member of family \<open>g\<close> with an empty log.\<close>

definition cross_platform :: platform where
  "cross_platform = \<lparr>netloc_ok = (\<lambda>_. True), ed_sign = (\<lambda>_ _. demo_sig), http_date = (\<lambda>_. None)\<rparr>"

definition cross_runtime :: "string \<Rightarrow> peer_record list \<Rightarrow> runtime" where
  "cross_runtime family known = \<lparr>rt_config = demo_config, rt_registry = known,
     rt_identity = \<lparr>id_family = lit family, id_key_id = lit ''k1'', id_seed = replicate 32 7\<rparr>\<rparr>"

definition cross_peer :: peer_record where
  "cross_peer = \<lparr>pr_family = lit ''f'', pr_key_id = lit ''k1'', pr_public_key = encode (replicate 32 5),
     pr_public_key_bytes = replicate 32 5, pr_inbox_url = lit ''https://h/i'', pr_receipts_url = lit ''https://h/r''\<rparr>"

definition cross_node :: node where
  "cross_node = \<lparr>nd_db = init_fed\<lparr>peers := [Ledger_Props.demo_peer ''b'']\<rparr>, nd_hub = init_hub, nd_hint_cursor = None,
     nd_conn_bucket = new_bucket 300 0, nd_family_buckets = Map.empty\<rparr>"

definition cross_io :: handler_io where
  "cross_io = \<lparr>hd_mono = (\<lambda>_. 1), hd_auth_now = [], hd_created = [], hd_env = demo_env, hd_world = (\<lambda>_. demo_item)\<rparr>"

lemma cross_node_ok: "fed_ok (nd_db cross_node)"
proof -
  have "ledger_ok (nd_db cross_node)"
    by (simp add: cross_node_def init_fed_def init_ledger_def ledger.defs ledger_ok_def peers_ok_def tokens_ok_def
        token_ids_ok_def grants_ok_def acl_ok_def events_ok_def acks_ok_def audit_ok_def peer_ids_def
        Ledger_Props.demo_peer_def)
  then show ?thesis using fed_ok_init by (simp add: fed_ok_def cross_node_def receipts_out_ok_def)
qed

theorem event_crosses_families_witness:
  "\<exists>env. compose_event cross_platform (cross_runtime ''f'' []) (lit ''a'') (lit ''b@g'') (lit ''reply'') [104, 105] demo_uuid
      (lit ''2026-02-28T23:59:59Z'') (Some demo_uuid) = Inr env \<and>
    (let (answer, n') = federation_inbox (\<lambda>_ _ _. True) (cross_runtime ''g'' [cross_peer]) cross_io
       (posted (utf8 (dumps env))) cross_node in
     case verify (\<lambda>_ _ _. True) (replicate 32 5) (utf8 (dumps (JObj (signed_event demo_parts)))) demo_sig of
       Inl e \<Rightarrow> events (nd_db n') = []
     | Inr _ \<Rightarrow> \<exists>ev. events (nd_db n') = [ev] \<and> e_event_id ev = demo_uuid \<and> e_payload_json ev = stored_payload demo_parts)"
proof -
  let ?env = "with_sig (signed_event demo_parts) demo_sig"
  have fields: "ep_origin demo_parts = lit ''f''" "ep_key_id demo_parts = lit ''k1''" "ep_event_id demo_parts = demo_uuid"
      "ep_type demo_parts = lit ''reply''" "ep_source_local demo_parts = lit ''a''" "ep_target demo_parts = lit ''b@g''"
      "ep_created_at demo_parts = lit ''2026-02-28T23:59:59Z''" "ep_text demo_parts = [104, 105]"
      "ep_in_reply_to demo_parts = Some demo_uuid"
    by (simp_all add: demo_parts_def)
  have rt: "id_family (rt_identity (cross_runtime fam rs)) = lit fam" "id_key_id (rt_identity (cross_runtime fam rs)) = lit ''k1''"
      "rt_registry (cross_runtime fam rs) = rs" "ed_sign cross_platform seed msg = demo_sig" for fam rs seed msg
    by (simp_all add: cross_runtime_def cross_platform_def)
  have target: "lit ''b@g'' = lit ''b'' @ 64 # lit ''g''" "64 \<notin> set (lit ''b'')" "is_local_member (lit ''b'') (nd_db cross_node)"
    by (simp_all add: lit_def cross_node_def is_local_member_def Ledger_Props.demo_peer_def)
  have limits: "fst (conn_allowed cross_io cross_node)"
      "fst (family_allowed (cross_runtime ''g'' [cross_peer]) cross_io (lit ''f'') (snd (conn_allowed cross_io cross_node)))"
    by (simp_all add: conn_allowed_def family_allowed_def allow_family_def allow_def new_bucket_def refill_per_sec_def
        cross_node_def cross_io_def cross_runtime_def demo_config_def Let_def)
  have log0: "events (nd_db cross_node) = []" "source_counters (nd_db cross_node) = Map.empty"
    by (simp_all add: cross_node_def init_fed_def init_ledger_def ledger.defs)
  have peer: "lookup [cross_peer] (lit ''f'') (lit ''k1'') = Some cross_peer"
    by (simp add: lookup_def cross_peer_def)
  show ?thesis
    using event_crosses_families [of demo_parts "cross_runtime ''f'' []" cross_platform "cross_runtime ''g'' [cross_peer]"
        cross_peer "lit ''b''" cross_node cross_io "\<lambda>_ _ _. True", unfolded rt fields,
        OF refl refl demo_parts_ok demo_sig_ok demo_fits peer target limits cross_node_ok]
    by (intro exI [of _ ?env]) (auto simp: log0 fits64_def next_id_def cross_peer_def split: sum.splits prod.splits)
qed

section \<open>Events that are too large\<close>

lemma length_encode_le: "length (encode bs) \<le> 2 * length bs"
  by (induction bs rule: encode.induct) simp_all

lemma posted_length:
  assumes "event_parts_ok p" "length sig = 64"
  shows "length (utf8 (dumps (with_sig (signed_event p) sig))) < 10 ^ 6"
proof -
  let ?items = "sum_list (map (\<lambda>(k, v). 4 + 6 * length k + jbound v) (event_items p))"
  have len: "length (ep_origin p) \<le> 32" "length (ep_key_id p) \<le> 64" "length (ep_event_id p) = 36"
      "length (ep_type p) \<le> 7" "length (ep_source_local p) \<le> 32" "length (ep_target p) \<le> 65"
      "length (ep_created_at p) = 20" "length (ep_text p) \<le> 8192"
      "\<And>r. ep_in_reply_to p = Some r \<Longrightarrow> length r = 36"
    using assms(1) length_utf8_ge [of "ep_text p"]
    by (auto simp: event_parts_ok_def FAMILY_RE_def KEY_ID_RE_def UUID_RE_def AGENT_RE_def address_ok_def lit_def
        timestamp_ok_def check_timestamp_def TIMESTAMP_RE_def TEXT_LIMIT_def and_then_Inr require_def split: if_splits)
  have "?items \<le> 60000"
    using len by (auto simp: event_items_def lit_def split: option.split)
  then have "jbound (with_sig (signed_event p) sig) \<le> 100000"
    using len(1,2) length_encode_le [of sig] assms(2)
    by (simp add: with_sig_def signed_event_def EVENT_KIND_def lit_def)
  then show ?thesis using length_utf8_dumps_le [of "with_sig (signed_event p) sig"] by simp
qed

lemma read_oversize:
  assumes "REQUEST_BODY_LIMIT < length raw" "length raw < 10 ^ 6"
  shows "read_fed_body (posted raw) = Inl (FederationError ''request'' ''body_too_large'')"
proof -
  have "length (dec_nat (length raw)) \<le> Suc 5" using assms(2) by (intro length_dec_nat) simp
  then show ?thesis using assms(1) by (simp add: read_fed_body_def posted_def py_int_dec)
qed

text \<open>
  C31: A well-formed event need not fit, because \<open>compose_event\<close> checks the limit of the text and
  never the size of the envelope.  Let the parts of an event be well formed, let PyNaCl return 64 bytes
  for the signature, and let the text have so many control characters that their six-character escapes
  alone pass the request limit of the inbox.  Then \<open>compose_event\<close> builds, signs and returns the event,
  and every receiver whose connection limit lets the request in answers it with 413
  \<open>body_too_large\<close> and changes nothing but that limit.
\<close>

theorem composed_event_may_not_fit:
  fixes P :: platform and snd_rt rt :: runtime and p :: event_parts
  defines "env \<equiv> with_sig (signed_event p) (ed_sign P (id_seed (rt_identity snd_rt)) (utf8 (dumps (JObj (signed_event p)))))"
  assumes sender: "ep_origin p = id_family (rt_identity snd_rt)" "ep_key_id p = id_key_id (rt_identity snd_rt)"
    and parts: "event_parts_ok p"
    and sig: "\<And>seed msg. is_bytes (ed_sign P seed msg) \<and> length (ed_sign P seed msg) = 64"
    and long: "REQUEST_BODY_LIMIT < 6 * length (filter long_escape (ep_text p))"
    and allowed: "fst (conn_allowed io n)"
  shows "compose_event P snd_rt (ep_source_local p) (ep_target p) (ep_type p) (ep_text p) (ep_event_id p)
      (ep_created_at p) (ep_in_reply_to p) = Inr env \<and> canonical_bytes env = Some (utf8 (dumps env)) \<and>
    federation_inbox nacl rt io (posted (utf8 (dumps env))) n =
      (rejected 413 ''body_too_large'', snd (conn_allowed io n))"
proof (intro conjI)
  let ?sig = "ed_sign P (id_seed (rt_identity snd_rt)) (utf8 (dumps (JObj (signed_event p))))"
  note s = conjunct1 [OF sig] conjunct2 [OF sig]
  show "compose_event P snd_rt (ep_source_local p) (ep_target p) (ep_type p) (ep_text p) (ep_event_id p)
      (ep_created_at p) (ep_in_reply_to p) = Inr env"
    unfolding env_def by (rule composed [OF sender parts s])
  have cl: "clean env" unfolding env_def using parts s(1) by (rule clean_with_sig)
  then show "canonical_bytes env = Some (utf8 (dumps env))" by (rule canonical_bytes_clean)
  have "read_fed_body (posted (utf8 (dumps env))) = Inl (FederationError ''request'' ''body_too_large'')"
    using long length_built_ge [of p ?sig] posted_length [OF parts s(2)]
    unfolding env_def by (intro read_oversize) simp_all
  moreover obtain n1 where "conn_allowed io n = (True, n1)" using allowed by (metis prod.collapse)
  ultimately show "federation_inbox nacl rt io (posted (utf8 (dumps env))) n =
      (rejected 413 ''body_too_large'', snd (conn_allowed io n))"
    by (simp add: federation_inbox_def admit_envelope_def fed_error_status_def)
qed

text \<open>The witness: the reply of above with a text of 2731 control characters.\<close>

theorem composed_event_may_not_fit_witness:
  "\<exists>env. compose_event cross_platform (cross_runtime ''f'' []) (lit ''a'') (lit ''b@g'') (lit ''reply'')
      (replicate 2731 1) demo_uuid (lit ''2026-02-28T23:59:59Z'') (Some demo_uuid) = Inr env \<and>
    fst (federation_inbox (\<lambda>_ _ _. True) (cross_runtime ''g'' [cross_peer]) cross_io (posted (utf8 (dumps env))) cross_node) =
      rejected 413 ''body_too_large''"
proof -
  define p where "p = demo_parts\<lparr>ep_text := replicate 2731 1\<rparr>"
  have len: "length (utf8 (replicate k 1)) = k" for k by (induction k) (simp_all add: utf8_def utf8_char_def)
  have "list_all scalar (replicate k 1)" for k by (induction k) (simp_all add: scalar_def)
  then have ok: "event_parts_ok p"
    unfolding p_def using len [of 2731] by (intro event_parts_ok_text demo_parts_ok) (simp_all only: TEXT_LIMIT_def)
  have long: "REQUEST_BODY_LIMIT < 6 * length (filter long_escape (ep_text p))"
    unfolding p_def by (simp add: filter_replicate long_escape_def REQUEST_BODY_LIMIT_def)
  have allowed: "fst (conn_allowed cross_io cross_node)"
    by (simp add: conn_allowed_def allow_def new_bucket_def refill_per_sec_def cross_node_def cross_io_def Let_def)
  have sig: "is_bytes (ed_sign cross_platform seed msg) \<and> length (ed_sign cross_platform seed msg) = 64" for seed msg
    using demo_sig_ok by (simp add: cross_platform_def)
  have sender: "ep_origin p = id_family (rt_identity (cross_runtime ''f'' []))"
      "ep_key_id p = id_key_id (rt_identity (cross_runtime ''f'' []))"
    by (simp_all add: p_def demo_parts_def cross_runtime_def)
  have fields: "ep_event_id p = demo_uuid" "ep_type p = lit ''reply''" "ep_source_local p = lit ''a''"
      "ep_target p = lit ''b@g''" "ep_created_at p = lit ''2026-02-28T23:59:59Z''" "ep_text p = replicate 2731 1"
      "ep_in_reply_to p = Some demo_uuid"
    by (simp_all add: p_def demo_parts_def)
  from composed_event_may_not_fit [OF sender ok sig long allowed, of "\<lambda>_ _ _. True" "cross_runtime ''g'' [cross_peer]",
      unfolded fields]
  show ?thesis by (metis fst_conv)
qed

end
