(* ===== verification/Spec2Isabelle.thy ===== *)
theory Spec2Isabelle
  imports Ledger_Tokens Fed_Guarantees Task_Fold Exchange
begin

text \<open>
  \<^bold>\<open>ATalk\<close>: a message bus between agents with a durable ledger, and a federation of such
  buses.  This theory is the root of the development; it imports all the others.

  \<^bold>\<open>The program.\<close>  A family of agents shares one HTTP server (\<open>atalk/server.py\<close>) over a SQLite
  ledger (\<open>AtalkStore\<close> in \<open>atalk/core.py\<close>, tables in \<open>schema.sql\<close>).  A peer posts events with its
  token, the ledger stores them under an idempotency key and a sequence number per source, the
  receivers page through their inbox and acknowledge.  Commands need a grant of their target;
  restricted peers reach only listed targets.  A wake hub tells connected agents that something
  arrived.  Two families exchange events through \<open>atalk/federation\<close>: the runtime composes and signs
  an envelope, the federation store queues it beside the ledger, the worker posts it, the other
  family's inbox handler checks the strict schema, the registered key and the signature and stores
  it in its own ledger; the receiver's first acknowledgement becomes a signed receipt that travels
  back the same way.  \<open>tools/tasklib.py\<close> folds the task events of the ledger into task states.

  \<^bold>\<open>The theories, in the order of the code.\<close>
  \<^item> \<open>Prelude\<close>: Python strings (lists of code points), JSON values and Python's equality on them, the
    exceptions, tables as lists of rows in rowid order, and two interfaces as locales,
    \<open>invariant_system\<close> (a transition relation with an inductive invariant) and \<open>page_source\<close> (a
    keyset-paged query).  \<open>Timestamps\<close> models \<open>now_iso\<close>, \<open>parse_timestamp\<close> and their order;
    \<open>Digests\<close> computes UTF-8, SHA-256, SHA-1 and \<open>uuid5\<close>.
  \<^item> \<open>Ledger\<close>: the tables as the record \<open>ledger\<close> and one definition per operation of \<open>AtalkStore\<close>.
    \<open>Ledger_Inv\<close> states the constraints of the tables (\<open>ledger_ok\<close>), makes the operations the steps
    of \<open>ledger_step\<close> and proves that every operation keeps them, failing calls included.
    \<open>Ledger_Props\<close> has the guarantees for events, commands, acknowledgements and target lists,
    \<open>Ledger_Tokens\<close> those about tokens over whole runs (locale \<open>token_change\<close>).
  \<^item> \<open>Fed_Store\<close>: the seven federation tables as an extension of the ledger record, and the operations
    of \<open>FederationStore\<close> (\<open>federation/store.py\<close>).  \<open>Fed_Props\<close> has their invariant over every mix of
    ledger and federation operations and the locale \<open>send_queue\<close>, interpreted for outgoing events
    and for outgoing receipts; \<open>Fed_Guarantees\<close> derives what holds over whole runs.
  \<^item> \<open>Base64url\<close>, \<open>Json_Text\<close>, \<open>Canonical\<close>: \<open>federation/canonical.py\<close>, from bytes to JSON values and
    back: the codec, \<open>json.loads\<close> with the strict hooks, the depth and domain checks, RFC 8785 bytes.
    The round trips are proved against the printer and the parser as written.
  \<^item> \<open>Schema\<close>: \<open>federation/schema.py\<close>, every check in its order; the accepted values are
    characterised exactly.  \<open>Registry\<close>: \<open>federation/registry.py\<close>, endpoint policy and loader.
    \<open>Ed25519_Field\<close> and \<open>Ed25519_Strict\<close>: \<open>federation/ed25519strict.py\<close>, the constants of the
    field, with the certified computation that \<open>SQRT_M1\<close> is a square root of minus one, and the strict
    acceptance rules around PyNaCl; accepted encodings decode to points of the curve.
  \<^item> \<open>Wake_Hub\<close>: the \<open>WakeHub\<close> of \<open>server.py\<close> with queue identities.
  \<^item> \<open>Fed_Runtime\<close>: \<open>federation/runtime.py\<close>, activation, token buckets, composing, the classification
    of a transport outcome, backoff and the worker cycle; \<open>Fed_Worker\<close> proves its guarantees, with
    the locale \<open>row_batch\<close> interpreted for the three batches of a cycle.
  \<^item> \<open>Server\<close>: the request handlers of \<open>server.py\<close> on a \<open>node\<close> (database, hub, cursor, buckets);
    \<open>Server_Props\<close> shows what they let in; \<open>Exchange\<close> puts two nodes together.
  \<^item> \<open>Task_Fold\<close>: \<open>tools/tasklib.py\<close>, and the life cycle of a task that the fold refines.

  \<^bold>\<open>How the model reads.\<close>  An operation of a store is a function of its arguments, of an \<open>env\<close> (the
  readings of the clock, random tokens and UUIDs, given as functions of the reading's number) and of
  the state; it returns a result (\<open>Inl\<close> an exception, \<open>Inr\<close> the value) and the state after the call,
  which on an exception is the state the code leaves behind.  Statements outside a transaction are
  separate commits; an operation under \<open>BEGIN IMMEDIATE\<close> is one.  Python integers are \<open>int\<close>; what is
  bound to SQLite must fit 64 bits (\<open>fits64\<close>) and an id column that is full is an error.  A worker
  item takes what the network, clock, random source and store calls gave in an \<open>item_io\<close>.  Code outside the
  repository is a parameter: \<open>nacl\<close> (PyNaCl's group equation) and the record \<open>platform\<close> (whether
  \<open>urlsplit\<close> accepts a bracketed host, PyNaCl's signing, the parser of HTTP dates).

  \<^bold>\<open>Bounds and termination.\<close>  No definition has fuel except the loop over hint pages, which is
  bounded in the code as well (\<open>HINT_SCAN_BUDGET\<close> rows in pages of \<open>HINT_PAGE\<close>, at most one page per
  budget unit) and the JSON reader, whose recursion is bounded by the length of its input; both are
  total functions.  The depth of parsed values is limited by the code before it recurses.

  \<^bold>\<open>What is idealised.\<close>  JSON values have no floats (the strict parser refuses them; the ledger's
  payloads are modelled without them).  Floating-point time is a real number of seconds or an integer of
  microseconds.  Texts of error messages, log lines and response bodies of errors are left out;
  status, category and effect are kept.  A handler and a worker item run one at a time.
  Python's recursion limit is not modelled.  Strings that reach SQLite are taken to be encodable in
  UTF-8; a lone surrogate in a JSON request makes the driver raise \<open>UnicodeEncodeError\<close>, which no
  handler treats specially.  Row ids are consecutive, where SQLite's AUTOINCREMENT may skip numbers.
  Store calls of the worker's items may raise (\<open>io_store\<close>); the scans of the worker and the store
  calls of request handlers raise only the errors their definitions show, and for a disk error the
  mapping to a response is given by \<open>storage_failure\<close>.  The arithmetic of the curve is
  defined and executable but too large for evaluation in the kernel, so no witness holds an accepted
  signature; the theorems that depend on it are stated for either verdict.

  \<^bold>\<open>Not modelled.\<close>  Threads, sockets, the stream endpoint, the operator's file and database
  maintenance (migration, the rqlite store, whose consistency is that of a server outside the repository),
  command lines, and clients that forward to the HTTP interface.
\<close>

end
